theory Spec2Isabelle
  imports Complex_Main "HOL-Library.AList"
begin

section \<open>Python and SQL values\<close>

text \<open>
  A Python \<^verbatim>\<open>str\<close> is a sequence of Unicode code points, so it is modelled as a list of
  code points (natural numbers): \<^verbatim>\<open>len\<close>, indexing and slicing count code points, and
  \<^verbatim>\<open>encode('ascii', 'ignore')\<close> drops every code point above 127. ASCII literals of the
  source are written \<open>ascii ''...''\<close>. \<^verbatim>\<open>None\<close> and SQL \<^verbatim>\<open>NULL\<close> are \<open>None\<close>.
\<close>

type_synonym pystr = "nat list"

definition ascii :: "string \<Rightarrow> pystr" where
  "ascii s = map of_char s"

text \<open>Truth value of an \<^verbatim>\<open>Optional[str]\<close> in a Python condition: \<^verbatim>\<open>None\<close> and \<^verbatim>\<open>''\<close> are false.\<close>

definition truthy :: "pystr option \<Rightarrow> bool" where
  "truthy v = (case v of None \<Rightarrow> False | Some s \<Rightarrow> s \<noteq> [])"

text \<open>\<^verbatim>\<open>d.get(k)\<close> on a dict whose values may be \<^verbatim>\<open>None\<close>: a missing key and a stored
  \<^verbatim>\<open>None\<close> both give \<^verbatim>\<open>None\<close>.\<close>

definition dict_get :: "('k \<rightharpoonup> 'v option) \<Rightarrow> 'k \<Rightarrow> 'v option" where
  "dict_get d k = (case d k of None \<Rightarrow> None | Some v \<Rightarrow> v)"


section \<open>Region codes\<close>

text \<open>
  \<^verbatim>\<open>extract_region_code(overture_id, region)\<close>:
  \<^verbatim>\<open>if region:\<close> takes the region field when it is neither \<^verbatim>\<open>None\<close> nor empty;
  \<^verbatim>\<open>len(region) > 3 and region[2] == "-"\<close> strips a two-letter country prefix;
  otherwise the first 8 code points of the id.
\<close>

definition extract_region_code :: "pystr \<Rightarrow> pystr option \<Rightarrow> pystr" where
  "extract_region_code overture_id region =
     (case region of
        Some r \<Rightarrow>
          if r \<noteq> [] then
            (if 3 < length r \<and> r ! 2 = of_char CHR ''-'' then drop 3 r else r)
          else if 8 \<le> length overture_id then take 8 overture_id else overture_id
      | None \<Rightarrow> if 8 \<le> length overture_id then take 8 overture_id else overture_id)"

text \<open>The derivation as the specification words it: a present region field is always used.\<close>

definition region_code_as_specified :: "pystr \<Rightarrow> pystr option \<Rightarrow> pystr" where
  "region_code_as_specified overture_id region =
     (case region of
        Some r \<Rightarrow> if 3 < length r \<and> r ! 2 = of_char CHR ''-'' then drop 3 r else r
      | None \<Rightarrow> take 8 overture_id)"

section \<open>Display names and ASCII names\<close>

text \<open>
  \<^verbatim>\<open>names.common\<close> is a nullable map from language code to a nullable name; its entries are
  kept in the order \<^verbatim>\<open>map_values\<close> lists them. \<^verbatim>\<open>m['en']\<close> is \<^verbatim>\<open>NULL\<close> on a missing key
  or a \<^verbatim>\<open>NULL\<close> map, and \<^verbatim>\<open>UNNEST(map_values(m))\<close> of a \<^verbatim>\<open>NULL\<close> map has no row.
\<close>

type_synonym common_names = "(pystr \<times> pystr option) list option"

text \<open>
  The test \<^verbatim>\<open>v ~ '^[A-Za-z]'\<close> of the queries. The queries are run by DuckDB
  (\<^verbatim>\<open>duck.execute(query)\<close>), where the operator \<^verbatim>\<open>~\<close> is \<^verbatim>\<open>regexp_full_match\<close>: the whole text
  has to match the pattern. The pattern \<^verbatim>\<open>^[A-Za-z]\<close> matches one letter A-Z or a-z, so the
  test holds of the texts that are one such letter and of no other text.
\<close>

definition latin_full_match :: "pystr \<Rightarrow> bool" where
  "latin_full_match v =
     (case v of
        [] \<Rightarrow> False
      | c # rest \<Rightarrow>
          rest = []
          \<and> ((of_char CHR ''A'' \<le> c \<and> c \<le> of_char CHR ''Z'')
              \<or> (of_char CHR ''a'' \<le> c \<and> c \<le> of_char CHR ''z'')))"

definition map_values :: "common_names \<Rightarrow> pystr option list" where
  "map_values m = (case m of None \<Rightarrow> [] | Some kvs \<Rightarrow> map snd kvs)"

definition map_extract :: "common_names \<Rightarrow> pystr \<Rightarrow> pystr option" where
  "map_extract m k =
     (case m of
        None \<Rightarrow> None
      | Some kvs \<Rightarrow> (case map_of kvs k of None \<Rightarrow> None | Some v \<Rightarrow> v))"

text \<open>\<^verbatim>\<open>(SELECT v FROM (SELECT UNNEST(map_values(p.names.common)) as v) t
  WHERE v ~ '^[A-Za-z]' LIMIT 1)\<close>: the first value that matches, \<^verbatim>\<open>NULL\<close> when none does
  (a \<^verbatim>\<open>NULL\<close> value does not match).\<close>

definition first_latin_value :: "common_names \<Rightarrow> pystr option" where
  "first_latin_value m =
     (case find (\<lambda>v. case v of None \<Rightarrow> False | Some s \<Rightarrow> latin_full_match s) (map_values m) of
        None \<Rightarrow> None
      | Some v \<Rightarrow> v)"

fun coalesce :: "'a option list \<Rightarrow> 'a option" where
  "coalesce [] = None"
| "coalesce (None # xs) = coalesce xs"
| "coalesce (Some x # xs) = Some x"

text \<open>The \<^verbatim>\<open>COALESCE(p.names.common['en'], (SELECT ... LIMIT 1), p.names.primary)\<close> column of
  the country, region, sub-region and locality queries. Each of these queries keeps only
  records with \<^verbatim>\<open>p.names.primary IS NOT NULL\<close>, so the primary name is a string here.\<close>

definition display_name :: "common_names \<Rightarrow> pystr \<Rightarrow> pystr" where
  "display_name common primary =
     (case coalesce [map_extract common (ascii ''en''), first_latin_value common, Some primary] of
        Some v \<Rightarrow> v
      | None \<Rightarrow> primary)"

text \<open>\<^verbatim>\<open>s.encode('ascii', 'ignore').decode('ascii')\<close>\<close>

definition encode_ascii_ignore :: "pystr \<Rightarrow> pystr" where
  "encode_ascii_ignore s = filter (\<lambda>c. c < 128) s"

text \<open>\<^verbatim>\<open>name_ascii = name.encode(...).decode(...) or local_name.encode(...).decode(...) or name\<close>\<close>

definition name_ascii_of :: "pystr \<Rightarrow> pystr \<Rightarrow> pystr" where
  "name_ascii_of name local_name =
     (if encode_ascii_ignore name \<noteq> [] then encode_ascii_ignore name
      else if encode_ascii_ignore local_name \<noteq> [] then encode_ascii_ignore local_name
      else name)"


section \<open>The orphan walk\<close>

text \<open>
  The loop of \<^verbatim>\<open>create_synthetic_regions\<close> that looks for a region among the ancestors:
  \<^verbatim>\<open>
  current = parent_oid; found_region = False; max_depth = 20
  while current and max_depth > 0:
      if current in region_overture_ids:
          found_region = True; break
      current = overture_to_parent.get(current)
      max_depth -= 1
  \<close>
  The last argument is \<^verbatim>\<open>max_depth\<close>; the result is \<^verbatim>\<open>found_region\<close>.
\<close>

fun chain_walk :: "pystr set \<Rightarrow> (pystr \<rightharpoonup> pystr option) \<Rightarrow> pystr option \<Rightarrow> nat \<Rightarrow> bool" where
  "chain_walk region_overture_ids overture_to_parent current 0 = False"
| "chain_walk region_overture_ids overture_to_parent current (Suc max_depth) =
     (case current of
        None \<Rightarrow> False
      | Some c \<Rightarrow>
          if c = [] then False
          else if c \<in> region_overture_ids then True
          else chain_walk region_overture_ids overture_to_parent
                 (dict_get overture_to_parent c) max_depth)"

definition found_region :: "pystr set \<Rightarrow> (pystr \<rightharpoonup> pystr option) \<Rightarrow> pystr option \<Rightarrow> bool" where
  "found_region region_overture_ids overture_to_parent parent_oid =
     chain_walk region_overture_ids overture_to_parent parent_oid 20"

text \<open>
  The parent chain by itself, for stating what the walk decides: \<open>visited parent_of start k\<close>
  is the id reached after \<open>k\<close> hops from the raw parent id \<open>start\<close>, and \<open>None\<close> once the
  chain has ended at a null, absent or empty parent id.
\<close>

fun visited :: "(pystr \<rightharpoonup> pystr option) \<Rightarrow> pystr option \<Rightarrow> nat \<Rightarrow> pystr option" where
  "visited parent_of start 0 = (if truthy start then start else None)"
| "visited parent_of start (Suc k) =
     (case visited parent_of start k of
        None \<Rightarrow> None
      | Some c \<Rightarrow> if truthy (dict_get parent_of c) then dict_get parent_of c else None)"


section \<open>The store\<close>

text \<open>
  The tables of the destination store that the hierarchy steps read and write, one record
  per row with the columns the source names. A table is the list of its rows; a
  \<^verbatim>\<open>SELECT\<close> without \<^verbatim>\<open>ORDER BY\<close> returns rows in list order and \<^verbatim>\<open>fetchone()\<close> is the first
  of them. An identity column takes the next value of the table's sequence.
\<close>

record country_row =
  gc_id :: nat
  gc_code :: pystr
  gc_name :: "pystr option"
  gc_continent_id :: "nat option"
  gc_source_id :: nat
  gc_overture_id :: "pystr option"
  gc_boundary :: "nat list option"

record region_row =
  gr_id :: nat
  gr_country_id :: nat
  gr_continent_id :: "nat option"
  gr_parent_region_id :: "nat option"
  gr_region_type_id :: nat
  gr_code :: pystr
  gr_name :: "pystr option"
  gr_overture_id :: "pystr option"
  gr_source_id :: nat
  gr_boundary :: "nat list option"

record locality_row =
  gl_id :: nat
  gl_locality_type_id :: nat
  gl_name :: "pystr option"
  gl_name_ascii :: "pystr option"
  gl_timezone :: pystr
  gl_population :: "int option"
  gl_continent_id :: "nat option"
  gl_country_id :: nat
  gl_source_id :: nat
  gl_overture_id :: "pystr option"
  gl_parent_overture_id :: "pystr option"
  gl_boundary :: "nat list option"

record location_row =
  ll_locality_id :: nat
  ll_source_id :: nat
  ll_latitude :: real
  ll_longitude :: real
  ll_accuracy_m :: nat

record type_row =
  ty_id :: nat
  ty_code :: pystr
  ty_name :: "pystr option"
  ty_sort_order :: "int option"
  ty_overture_subtype :: "pystr option"

record source_row =
  ds_id :: nat
  ds_key :: pystr
  ds_name :: pystr
  ds_description :: pystr
  ds_data_type_id :: nat
  ds_priority :: int

record db =
  geo_countries :: "country_row list"
  geo_regions :: "region_row list"
  geo_localities :: "locality_row list"
  geo_locality_locations :: "location_row list"
  geo_region_types :: "type_row list"
  geo_locality_types :: "type_row list"
  geo_data_sources :: "source_row list"
  geo_regions_id_seq :: nat
  geo_localities_id_seq :: nat
  geo_region_types_id_seq :: nat
  geo_data_sources_id_seq :: nat

text \<open>\<^verbatim>\<open>country_cache[code] = {"id": cid, "continent_id": cont_id}\<close>\<close>

record cache_entry =
  ce_id :: nat
  ce_continent_id :: "nat option"

type_synonym country_cache = "pystr \<rightharpoonup> cache_entry"

text \<open>A record of the source dataset, with the columns the queries read. The geometry is
  held as what \<^verbatim>\<open>ST_X\<close> and \<^verbatim>\<open>ST_Y\<close> return on it.\<close>

record division =
  p_id :: pystr
  p_subtype :: pystr
  p_class :: "pystr option"
  p_country :: "pystr option"
  p_region :: "pystr option"
  p_parent_division_id :: "pystr option"
  p_names_primary :: "pystr option"
  p_names_common :: common_names
  p_geometry :: "(real option \<times> real option) option"
  p_population :: "int option"


section \<open>Policy tables\<close>

definition COUNTRY_REMAPPING :: "(pystr \<times> pystr) list" where
  "COUNTRY_REMAPPING =
     [(ascii ''XW'', ascii ''IL''), (ascii ''XH'', ascii ''IL''), (ascii ''XZ'', ascii ''IL'')]"

text \<open>\<^verbatim>\<open>SYNTHETIC_REGION_MAPPING\<close>: country code to (region code, region name, target
  country code).\<close>

definition SYNTHETIC_REGION_MAPPING :: "(pystr \<times> pystr \<times> pystr \<times> pystr) list" where
  "SYNTHETIC_REGION_MAPPING =
     map (\<lambda>(k, c, n, t). (ascii k, ascii c, ascii n, ascii t)) [
      (''XH'', ''IL-GOLAN'', ''Golan Heights'', ''IL''),
      (''XW'', ''IL-JUDEA-SAMARIA'', ''Judea and Samaria'', ''IL''),
      (''XZ'', ''IL-JERUSALEM-DISTRICT'', ''Jerusalem District'', ''IL''),
      (''AW'', ''DUTCH-CARIBBEAN'', ''Dutch Caribbean Territory'', ''AW''),
      (''BQ'', ''DUTCH-CARIBBEAN'', ''Dutch Caribbean Territory'', ''BQ''),
      (''CW'', ''DUTCH-CARIBBEAN'', ''Dutch Caribbean Territory'', ''CW''),
      (''SX'', ''DUTCH-CARIBBEAN'', ''Dutch Caribbean Territory'', ''SX''),
      (''BL'', ''FRENCH-OVERSEAS'', ''French Overseas Territory'', ''BL''),
      (''GP'', ''FRENCH-OVERSEAS'', ''French Overseas Territory'', ''GP''),
      (''MF'', ''FRENCH-OVERSEAS'', ''French Overseas Territory'', ''MF''),
      (''PF'', ''FRENCH-OVERSEAS'', ''French Overseas Territory'', ''PF''),
      (''PM'', ''FRENCH-OVERSEAS'', ''French Overseas Territory'', ''PM''),
      (''RE'', ''FRENCH-OVERSEAS'', ''French Overseas Territory'', ''RE''),
      (''AI'', ''BRITISH-OVERSEAS'', ''British Overseas Territory'', ''AI''),
      (''FK'', ''BRITISH-OVERSEAS'', ''British Overseas Territory'', ''FK''),
      (''GI'', ''BRITISH-OVERSEAS'', ''British Overseas Territory'', ''GI''),
      (''IO'', ''BRITISH-OVERSEAS'', ''British Overseas Territory'', ''IO''),
      (''NF'', ''BRITISH-OVERSEAS'', ''British Overseas Territory'', ''NF''),
      (''PN'', ''BRITISH-OVERSEAS'', ''British Overseas Territory'', ''PN''),
      (''AQ'', ''RESEARCH'', ''Research Stations'', ''AQ''),
      (''SJ'', ''RESEARCH'', ''Research Stations'', ''SJ''),
      (''TF'', ''RESEARCH'', ''Research Stations'', ''TF''),
      (''MO'', ''PACIFIC-TERRITORY'', ''Pacific Island Territory'', ''MO''),
      (''NU'', ''PACIFIC-TERRITORY'', ''Pacific Island Territory'', ''NU''),
      (''TK'', ''PACIFIC-TERRITORY'', ''Pacific Island Territory'', ''TK''),
      (''XE'', ''DISPUTED-OTHER'', ''Disputed Territory'', ''XE''),
      (''XJ'', ''DISPUTED-OTHER'', ''Disputed Territory'', ''XJ''),
      (''XS'', ''DISPUTED-OTHER'', ''Disputed Territory'', ''XS''),
      (''XY'', ''DISPUTED-OTHER'', ''Disputed Territory'', ''XY''),
      (''XC'', ''DISPUTED-CHINA'', ''Chinese-Claimed Territory'', ''XC''),
      (''XL'', ''DISPUTED-CHINA'', ''Chinese-Claimed Territory'', ''XL''),
      (''XQ'', ''DISPUTED-CHINA'', ''Chinese-Claimed Territory'', ''XQ''),
      (''XX'', ''DISPUTED-CHINA'', ''Chinese-Claimed Territory'', ''XX''),
      (''XI'', ''DISPUTED-RUSSIAN'', ''Russian-Administered Islands'', ''XI''),
      (''XO'', ''DISPUTED-RUSSIAN'', ''Russian-Administered Islands'', ''XO''),
      (''GL'', ''DANISH-OVERSEAS'', ''Danish Realm Territory'', ''GL''),
      (''GU'', ''US-TERRITORY'', ''US Territory'', ''GU''),
      (''SG'', ''SG-GEN'', ''Singapore'', ''SG''),
      (''VA'', ''VA-GEN'', ''Vatican City'', ''VA''),
      (''SC'', ''SC-GEN'', ''Seychelles'', ''SC''),
      (''ST'', ''ST-GEN'', ''Sao Tome and Principe'', ''ST''),
      (''MU'', ''MU-GEN'', ''Mauritius'', ''MU''),
      (''HM'', ''HM-GEN'', ''Heard Island and McDonald Islands'', ''HM''),
      (''MM'', ''MM-GEN'', ''Myanmar'', ''MM''),
      (''BZ'', ''BZ-GEN'', ''Belize'', ''BZ''),
      (''FR'', ''FR-GEN'', ''France'', ''FR''),
      (''TZ'', ''TZ-GEN'', ''Tanzania'', ''TZ''),
      (''EC'', ''EC-GEN'', ''Ecuador'', ''EC''),
      (''IE'', ''IE-GEN'', ''Ireland'', ''IE''),
      (''IN'', ''IN-GEN'', ''India'', ''IN''),
      (''CY'', ''CY-GEN'', ''Cyprus'', ''CY''),
      (''MG'', ''MG-GEN'', ''Madagascar'', ''MG''),
      (''MX'', ''MX-GEN'', ''Mexico'', ''MX''),
      (''ES'', ''ES-GEN'', ''Spain'', ''ES''),
      (''CO'', ''CO-GEN'', ''Colombia'', ''CO''),
      (''OM'', ''OM-GEN'', ''Oman'', ''OM''),
      (''IT'', ''IT-GEN'', ''Italy'', ''IT''),
      (''LR'', ''LR-GEN'', ''Liberia'', ''LR''),
      (''SA'', ''SA-GEN'', ''Saudi Arabia'', ''SA''),
      (''PE'', ''PE-GEN'', ''Peru'', ''PE''),
      (''JM'', ''JM-GEN'', ''Jamaica'', ''JM''),
      (''XT'', ''XT-GEN'', ''Bir Tawil'', ''XT''),
      (''TW'', ''TW-GEN'', ''Taiwan'', ''TW''),
      (''TL'', ''TL-GEN'', ''Timor-Leste'', ''TL''),
      (''MZ'', ''MZ-GEN'', ''Mozambique'', ''MZ''),
      (''PY'', ''PY-GEN'', ''Paraguay'', ''PY''),
      (''CP'', ''CP-GEN'', ''Clipperton Island'', ''CP''),
      (''MA'', ''MA-GEN'', ''Morocco'', ''MA''),
      (''BB'', ''BB-GEN'', ''Barbados'', ''BB''),
      (''DO'', ''DO-GEN'', ''Dominican Republic'', ''DO''),
      (''GY'', ''GY-GEN'', ''Guyana'', ''GY''),
      (''MR'', ''MR-GEN'', ''Mauritania'', ''MR''),
      (''SY'', ''SY-GEN'', ''Syria'', ''SY''),
      (''LB'', ''LB-GEN'', ''Lebanon'', ''LB''),
      (''EG'', ''EG-GEN'', ''Egypt'', ''EG''),
      (''DZ'', ''DZ-GEN'', ''Algeria'', ''DZ''),
      (''DK'', ''DK-GEN'', ''Denmark'', ''DK''),
      (''MY'', ''MY-GEN'', ''Malaysia'', ''MY''),
      (''ZA'', ''ZA-GEN'', ''South Africa'', ''ZA'')
     ]"


section \<open>SQL helpers\<close>

text \<open>The non-null values of a column.\<close>

definition somes :: "'a option list \<Rightarrow> 'a list" where
  "somes xs = concat (map (\<lambda>x. case x of None \<Rightarrow> [] | Some v \<Rightarrow> [v]) xs)"

text \<open>\<^verbatim>\<open>for k, v in rows: d[k] = v\<close> on a dict that is only looked up afterwards.\<close>

definition dict_update_all :: "('k \<times> 'v) list \<Rightarrow> ('k \<rightharpoonup> 'v) \<Rightarrow> ('k \<rightharpoonup> 'v)" where
  "dict_update_all rows d = fold (\<lambda>(k, v) m. m(k \<mapsto> v)) rows d"

text \<open>The type caches of \<^verbatim>\<open>import_regions\<close> and \<^verbatim>\<open>import_localities\<close>:
  \<^verbatim>\<open>cache[row[1]] = row[0]; if row[2]: cache[row[2]] = row[0]\<close>.\<close>

definition type_cache :: "type_row list \<Rightarrow> (pystr \<rightharpoonup> nat)" where
  "type_cache rows =
     fold (\<lambda>row cache.
            (case ty_overture_subtype row of
               None \<Rightarrow> cache(ty_code row \<mapsto> ty_id row)
             | Some s \<Rightarrow>
                 if s = [] then cache(ty_code row \<mapsto> ty_id row)
                 else (cache(ty_code row \<mapsto> ty_id row))(s \<mapsto> ty_id row)))
          rows Map.empty"

text \<open>\<^verbatim>\<open>d.get(k, default)\<close>\<close>

definition get_default :: "('k \<rightharpoonup> 'v) \<Rightarrow> 'k \<Rightarrow> 'v \<Rightarrow> 'v" where
  "get_default d k dflt = (case d k of None \<Rightarrow> dflt | Some v \<Rightarrow> v)"


section \<open>Step 4: regions in two passes\<close>

text \<open>
  The rows of \<^verbatim>\<open>query_top\<close>: \<^verbatim>\<open>(overture_id, country, region, name)\<close> of the records with
  \<^verbatim>\<open>subtype = 'region'\<close>, a primary name and a country.
\<close>

definition query_top :: "division list \<Rightarrow> (pystr \<times> pystr \<times> pystr option \<times> pystr) list" where
  "query_top ps =
     concat (map (\<lambda>p.
       (case p_names_primary p of
          None \<Rightarrow> []
        | Some prim \<Rightarrow>
            (case p_country p of
               None \<Rightarrow> []
             | Some c \<Rightarrow>
                 if p_subtype p = ascii ''region''
                 then [(p_id p, c, p_region p, display_name (p_names_common p) prim)]
                 else []))) ps)"

text \<open>The rows of \<^verbatim>\<open>query_sub\<close>:
  \<^verbatim>\<open>(overture_id, country, region, subtype, name, parent_division_id)\<close> of the records with
  \<^verbatim>\<open>subtype IN ('county', 'localadmin')\<close>, a primary name and a country.\<close>

definition query_sub ::
  "division list \<Rightarrow> (pystr \<times> pystr \<times> pystr option \<times> pystr \<times> pystr \<times> pystr option) list" where
  "query_sub ps =
     concat (map (\<lambda>p.
       (case p_names_primary p of
          None \<Rightarrow> []
        | Some prim \<Rightarrow>
            (case p_country p of
               None \<Rightarrow> []
             | Some c \<Rightarrow>
                 if p_subtype p \<in> set [ascii ''county'', ascii ''localadmin'']
                 then [(p_id p, c, p_region p, p_subtype p,
                        display_name (p_names_common p) prim, p_parent_division_id p)]
                 else []))) ps)"

text \<open>
  \<^verbatim>\<open>INSERT INTO geo_regions ... ON CONFLICT DO NOTHING RETURNING id\<close>. The unique
  constraints of \<^verbatim>\<open>geo_regions\<close> are declared in the schema, which is not among the source
  files, so the test for a conflict is the parameter \<open>conflict\<close>. The sequence advances
  whether or not the row is kept. The result is the returned id, if any.
\<close>

definition insert_region ::
  "(region_row \<Rightarrow> region_row list \<Rightarrow> bool) \<Rightarrow> region_row \<Rightarrow> db \<Rightarrow> nat option \<times> db" where
  "insert_region conflict row d =
     (let i = Suc (geo_regions_id_seq d);
          d1 = d\<lparr>geo_regions_id_seq := i\<rparr>
      in if conflict (row\<lparr>gr_id := i\<rparr>) (geo_regions d) then (None, d1)
         else (Some i, d1\<lparr>geo_regions := geo_regions d @ [row\<lparr>gr_id := i\<rparr>]\<rparr>))"

text \<open>The body of the Pass 1 loop; the state is the store, \<^verbatim>\<open>top_level_map\<close> and
  \<^verbatim>\<open>top_count\<close>.\<close>

definition import_top_region ::
  "(region_row \<Rightarrow> region_row list \<Rightarrow> bool) \<Rightarrow> country_cache \<Rightarrow> nat \<Rightarrow> nat
   \<Rightarrow> (pystr \<times> pystr \<times> pystr option \<times> pystr)
   \<Rightarrow> db \<times> (pystr \<rightharpoonup> nat) \<times> nat \<Rightarrow> db \<times> (pystr \<rightharpoonup> nat) \<times> nat" where
  "import_top_region conflict country_cache region_type_id source_id row st =
     (case row of (overture_id, country_code, region, name) \<Rightarrow>
      case st of (d, top_level_map, top_count) \<Rightarrow>
        if country_code = [] then st
        else
          (case country_cache country_code of
             None \<Rightarrow> st
           | Some country_info \<Rightarrow>
               (case insert_region conflict
                       \<lparr>gr_id = 0, gr_country_id = ce_id country_info, gr_continent_id = None,
                        gr_parent_region_id = None, gr_region_type_id = region_type_id,
                        gr_code = extract_region_code overture_id region, gr_name = Some name,
                        gr_overture_id = Some overture_id, gr_source_id = source_id,
                        gr_boundary = None\<rparr> d of
                  (None, d1) \<Rightarrow> (d1, top_level_map, top_count)
                | (Some i, d1) \<Rightarrow> (d1, top_level_map(overture_id \<mapsto> i), top_count + 1))))"

text \<open>The body of the Pass 2 loop; the state is the store, \<^verbatim>\<open>sub_count\<close> and
  \<^verbatim>\<open>processed\<close>. \<^verbatim>\<open>parent_region_id = top_level_map.get(parent_id) if parent_id else None\<close>.\<close>

definition import_sub_region ::
  "(region_row \<Rightarrow> region_row list \<Rightarrow> bool) \<Rightarrow> country_cache \<Rightarrow> (pystr \<rightharpoonup> nat) \<Rightarrow> nat
   \<Rightarrow> (pystr \<rightharpoonup> nat)
   \<Rightarrow> (pystr \<times> pystr \<times> pystr option \<times> pystr \<times> pystr \<times> pystr option)
   \<Rightarrow> db \<times> nat \<times> nat \<Rightarrow> db \<times> nat \<times> nat" where
  "import_sub_region conflict country_cache region_type_cache source_id top_level_map row st =
     (case row of (overture_id, country_code, region, subtype, name, parent_id) \<Rightarrow>
      case st of (d, sub_count, processed) \<Rightarrow>
        if country_code = [] then (d, sub_count, processed + 1)
        else
          (case country_cache country_code of
             None \<Rightarrow> (d, sub_count, processed + 1)
           | Some country_info \<Rightarrow>
               (let region_type_id =
                      get_default region_type_cache subtype
                        (get_default region_type_cache (ascii ''county'') 2);
                    parent_region_id =
                      (case parent_id of
                         None \<Rightarrow> None
                       | Some pid \<Rightarrow> if pid = [] then None else top_level_map pid)
                in (snd (insert_region conflict
                       \<lparr>gr_id = 0, gr_country_id = ce_id country_info, gr_continent_id = None,
                        gr_parent_region_id = parent_region_id,
                        gr_region_type_id = region_type_id,
                        gr_code = extract_region_code overture_id region, gr_name = Some name,
                        gr_overture_id = Some overture_id, gr_source_id = source_id,
                        gr_boundary = None\<rparr> d),
                    sub_count + 1, processed + 1))))"

text \<open>\<^verbatim>\<open>import_regions\<close>: the store after both passes and the returned \<^verbatim>\<open>region_map\<close>.\<close>

definition import_regions ::
  "(region_row \<Rightarrow> region_row list \<Rightarrow> bool) \<Rightarrow> db \<Rightarrow> division list \<Rightarrow> nat \<Rightarrow> country_cache
   \<Rightarrow> db \<times> (pystr \<rightharpoonup> nat)" where
  "import_regions conflict d ps source_id country_cache =
     (let region_type_cache = type_cache (geo_region_types d);
          region_type_id = get_default region_type_cache (ascii ''region'') 1;
          (d1, top_level_map, top_count) =
             fold (import_top_region conflict country_cache region_type_id source_id)
               (query_top ps) (d, Map.empty, 0);
          (d2, sub_count, processed) =
             fold (import_sub_region conflict country_cache region_type_cache source_id
                     top_level_map)
               (query_sub ps) (d1, 0, 0);
          region_map =
             dict_update_all
               (concat (map (\<lambda>r. case gr_overture_id r of None \<Rightarrow> []
                                   | Some oid \<Rightarrow> [(oid, gr_id r)]) (geo_regions d2)))
               Map.empty
      in (d2, region_map))"


section \<open>Step 5: localities\<close>

text \<open>A row of the locality query: \<^verbatim>\<open>(overture_id, parent_overture_id, country_code,
  subtype, type_lookup, name, local_name, lng, lat, population)\<close>.\<close>

record locality_result =
  q_overture_id :: pystr
  q_parent_overture_id :: "pystr option"
  q_country_code :: "pystr option"
  q_subtype :: pystr
  q_type_lookup :: pystr
  q_name :: pystr
  q_local_name :: pystr
  q_lng :: "real option"
  q_lat :: "real option"
  q_population :: "int option"

definition query_localities :: "division list \<Rightarrow> locality_result list" where
  "query_localities ps =
     concat (map (\<lambda>p.
       (case p_names_primary p of
          None \<Rightarrow> []
        | Some prim \<Rightarrow>
            (case p_country p of
               None \<Rightarrow> []
             | Some c \<Rightarrow>
                 (case p_geometry p of
                    None \<Rightarrow> []
                  | Some (x, y) \<Rightarrow>
                      if p_subtype p \<in> set [ascii ''locality'', ascii ''neighborhood'',
                                             ascii ''macrohood'', ascii ''microhood'']
                      then [\<lparr>q_overture_id = p_id p,
                             q_parent_overture_id = p_parent_division_id p,
                             q_country_code = Some c,
                             q_subtype = p_subtype p,
                             q_type_lookup =
                               (case p_class p of None \<Rightarrow> p_subtype p | Some k \<Rightarrow> k),
                             q_name = display_name (p_names_common p) prim,
                             q_local_name = prim,
                             q_lng = x, q_lat = y,
                             q_population = p_population p\<rparr>]
                      else [])))) ps)"

record import_stats =
  imported :: nat
  skipped :: nat
  processed :: nat

text \<open>The counters after one more skipped row.\<close>

definition count_skipped :: "import_stats \<Rightarrow> import_stats" where
  "count_skipped stats =
     stats\<lparr>skipped := skipped stats + 1, processed := processed stats + 1\<rparr>"

text \<open>
  The body of the streaming loop. The state is the store (\<^verbatim>\<open>copy.write_row\<close> appends a row
  to \<^verbatim>\<open>geo_localities\<close>), \<^verbatim>\<open>coordinate_data\<close> and the three counters.
\<close>

definition import_locality_row ::
  "country_cache \<Rightarrow> (pystr \<rightharpoonup> nat) \<Rightarrow> nat \<Rightarrow> nat \<Rightarrow> locality_result
   \<Rightarrow> db \<times> (pystr \<times> real \<times> real) list \<times> import_stats
   \<Rightarrow> db \<times> (pystr \<times> real \<times> real) list \<times> import_stats" where
  "import_locality_row country_cache locality_type_cache fallback_type source_id r st =
     (case st of (d, coordinate_data, stats0) \<Rightarrow>
        (let stats = stats0\<lparr>processed := processed stats0 + 1\<rparr>;
             skip = (d, coordinate_data, stats\<lparr>skipped := skipped stats + 1\<rparr>)
         in (case q_country_code r of
               None \<Rightarrow> skip
             | Some country_code \<Rightarrow>
                 if country_code = [] then skip
                 else
                   (case country_cache country_code of
                      None \<Rightarrow> skip
                    | Some country_info \<Rightarrow>
                        (case q_lat r of
                           None \<Rightarrow> skip
                         | Some lat \<Rightarrow>
                             (case q_lng r of
                                None \<Rightarrow> skip
                              | Some lng \<Rightarrow>
                                  (let i = Suc (geo_localities_id_seq d);
                                       row =
                                         \<lparr>gl_id = i,
                                          gl_locality_type_id =
                                            get_default locality_type_cache (q_type_lookup r)
                                              fallback_type,
                                          gl_name = Some (q_name r),
                                          gl_name_ascii =
                                            Some (name_ascii_of (q_name r) (q_local_name r)),
                                          gl_timezone = ascii ''UTC'',
                                          gl_population = q_population r,
                                          gl_continent_id = ce_continent_id country_info,
                                          gl_country_id = ce_id country_info,
                                          gl_source_id = source_id,
                                          gl_overture_id = Some (q_overture_id r),
                                          gl_parent_overture_id = q_parent_overture_id r,
                                          gl_boundary = None\<rparr>
                                   in (d\<lparr>geo_localities := geo_localities d @ [row],
                                         geo_localities_id_seq := i\<rparr>,
                                       coordinate_data @ [(q_overture_id r, lat, lng)],
                                       stats\<lparr>imported := imported stats + 1\<rparr>))))))))"

text \<open>Step 5b: \<^verbatim>\<open>locality_id_cache\<close> over all localities with an external id, then one
  location row for each entry of \<^verbatim>\<open>coordinate_data\<close> whose id is in the cache.\<close>

definition insert_locations :: "nat \<Rightarrow> (pystr \<times> real \<times> real) list \<Rightarrow> db \<Rightarrow> db" where
  "insert_locations source_id coordinate_data d =
     (let locality_id_cache =
            dict_update_all
              (concat (map (\<lambda>l. case gl_overture_id l of None \<Rightarrow> []
                                  | Some oid \<Rightarrow> [(oid, gl_id l)]) (geo_localities d)))
              Map.empty
      in d\<lparr>geo_locality_locations := geo_locality_locations d @
            concat (map (\<lambda>(overture_id, lat, lng).
                      (case locality_id_cache overture_id of
                         None \<Rightarrow> []
                       | Some lid \<Rightarrow>
                           [\<lparr>ll_locality_id = lid, ll_source_id = source_id,
                             ll_latitude = lat, ll_longitude = lng, ll_accuracy_m = 100\<rparr>]))
                    coordinate_data)\<rparr>)"

definition import_localities ::
  "db \<Rightarrow> division list \<Rightarrow> nat \<Rightarrow> country_cache \<Rightarrow> db \<times> import_stats" where
  "import_localities d ps source_id country_cache =
     (let locality_type_cache = type_cache (geo_locality_types d);
          fallback_type = get_default locality_type_cache (ascii ''locality'') 1;
          (d1, coordinate_data, stats) =
             fold (import_locality_row country_cache locality_type_cache fallback_type source_id)
               (query_localities ps)
               (d, [], \<lparr>imported = 0, skipped = 0, processed = 0\<rparr>)
      in (insert_locations source_id coordinate_data d1, stats))"


section \<open>Step 5c: synthetic regions for orphan localities\<close>

text \<open>\<^verbatim>\<open>SELECT id FROM geo_data_sources WHERE key = 'synthetic'\<close>, inserting the row when it is
  missing; the result is \<^verbatim>\<open>synthetic_source_id\<close>.\<close>

definition get_synthetic_source :: "db \<Rightarrow> nat \<times> db" where
  "get_synthetic_source d =
     (case find (\<lambda>s. ds_key s = ascii ''synthetic'') (geo_data_sources d) of
        Some row \<Rightarrow> (ds_id row, d)
      | None \<Rightarrow>
          (let i = Suc (geo_data_sources_id_seq d)
           in (i, d\<lparr>geo_data_sources := geo_data_sources d @
                       [\<lparr>ds_id = i, ds_key = ascii ''synthetic'', ds_name = ascii ''Synthetic'',
                         ds_description = ascii ''Auto-generated geographic entities'',
                         ds_data_type_id = 1, ds_priority = 5\<rparr>],
                    geo_data_sources_id_seq := i\<rparr>)))"

text \<open>\<^verbatim>\<open>SELECT id FROM geo_region_types WHERE code = 'locality_group'\<close>, inserting the row
  when it is missing; the result is \<^verbatim>\<open>locality_group_type_id\<close>.\<close>

definition get_locality_group_type :: "db \<Rightarrow> nat \<times> db" where
  "get_locality_group_type d =
     (case find (\<lambda>t. ty_code t = ascii ''locality_group'') (geo_region_types d) of
        Some row \<Rightarrow> (ty_id row, d)
      | None \<Rightarrow>
          (let i = Suc (geo_region_types_id_seq d)
           in (i, d\<lparr>geo_region_types := geo_region_types d @
                       [\<lparr>ty_id = i, ty_code = ascii ''locality_group'',
                         ty_name = Some (ascii ''Locality Group''), ty_sort_order = Some 100,
                         ty_overture_subtype = None\<rparr>],
                    geo_region_types_id_seq := i\<rparr>)))"

text \<open>\<^verbatim>\<open>SELECT overture_id FROM geo_regions WHERE overture_id IS NOT NULL\<close>, as a set.\<close>

definition region_overture_ids :: "db \<Rightarrow> pystr set" where
  "region_overture_ids d = set (somes (map gr_overture_id (geo_regions d)))"

text \<open>
  \<^verbatim>\<open>SELECT l.id, l.parent_overture_id, c.code FROM geo_localities l
  JOIN geo_countries c ON l.country_id = c.id WHERE l.overture_id IS NOT NULL\<close>
\<close>

definition locality_join :: "db \<Rightarrow> (nat \<times> pystr option \<times> pystr) list" where
  "locality_join d =
     concat (map (\<lambda>l.
       if gl_overture_id l = None then []
       else map (\<lambda>c. (gl_id l, gl_parent_overture_id l, gc_code c))
              (filter (\<lambda>c. gl_country_id l = gc_id c) (geo_countries d)))
       (geo_localities d))"

text \<open>
  The dicts \<^verbatim>\<open>locality_parents\<close> and \<^verbatim>\<open>locality_countries\<close> are filled by one loop under the
  same keys, and the first is iterated later, so both are kept as one association list
  in insertion order, from the locality id to the pair (parent id, country code).
\<close>

definition locality_info :: "db \<Rightarrow> (nat \<times> pystr option \<times> pystr) list" where
  "locality_info d =
     fold (\<lambda>(locality_id, parent_oid, country_code) acc.
             AList.update locality_id (parent_oid, country_code) acc)
       (locality_join d) []"

text \<open>
  \<^verbatim>\<open>SELECT r.overture_id, r2.overture_id FROM geo_regions r
  LEFT JOIN geo_regions r2 ON r.parent_region_id = r2.id WHERE r.overture_id IS NOT NULL\<close>
\<close>

definition region_parent_rows :: "db \<Rightarrow> (pystr \<times> pystr option) list" where
  "region_parent_rows d =
     concat (map (\<lambda>r.
       (case gr_overture_id r of
          None \<Rightarrow> []
        | Some oid \<Rightarrow>
            (case filter (\<lambda>r2. gr_parent_region_id r = Some (gr_id r2)) (geo_regions d) of
               [] \<Rightarrow> [(oid, None)]
             | r2s \<Rightarrow> map (\<lambda>r2. (oid, gr_overture_id r2)) r2s)))
       (geo_regions d))"

text \<open>\<^verbatim>\<open>SELECT overture_id, parent_overture_id FROM geo_localities
  WHERE overture_id IS NOT NULL\<close>\<close>

definition locality_parent_rows :: "db \<Rightarrow> (pystr \<times> pystr option) list" where
  "locality_parent_rows d =
     concat (map (\<lambda>l. case gl_overture_id l of
                         None \<Rightarrow> []
                       | Some oid \<Rightarrow> [(oid, gl_parent_overture_id l)])
       (geo_localities d))"

text \<open>\<^verbatim>\<open>overture_to_parent\<close>: the region rows first, then the locality rows.\<close>

definition overture_to_parent :: "db \<Rightarrow> (pystr \<rightharpoonup> pystr option)" where
  "overture_to_parent d =
     dict_update_all (locality_parent_rows d) (dict_update_all (region_parent_rows d) Map.empty)"

text \<open>
  \<^verbatim>\<open>
  if country_code not in orphans_by_country:
      orphans_by_country[country_code] = []
  orphans_by_country[country_code].append(locality_id)
  \<close>
  on a dict kept in insertion order.
\<close>

definition add_orphan :: "(pystr \<times> nat list) list \<Rightarrow> pystr \<Rightarrow> nat \<Rightarrow> (pystr \<times> nat list) list" where
  "add_orphan orphans_by_country country_code locality_id =
     AList.update country_code
       ((case map_of orphans_by_country country_code of None \<Rightarrow> [] | Some ids \<Rightarrow> ids)
          @ [locality_id])
       orphans_by_country"

text \<open>The orphan sweep over \<^verbatim>\<open>locality_parents.items()\<close>; the result is
  \<^verbatim>\<open>orphans_by_country\<close>.\<close>

definition find_orphans :: "db \<Rightarrow> (pystr \<times> nat list) list" where
  "find_orphans d =
     fold (\<lambda>(locality_id, parent_oid, country_code) orphans_by_country.
             if found_region (region_overture_ids d) (overture_to_parent d) parent_oid
             then orphans_by_country
             else add_orphan orphans_by_country country_code locality_id)
       (locality_info d) []"

text \<open>The region code, region name and target country of a country's orphans:
  the policy entry, or \<^verbatim>\<open><COUNTRY>-GEN\<close> named after the country.\<close>

definition synthetic_region_of :: "db \<Rightarrow> pystr \<Rightarrow> pystr \<times> pystr option \<times> pystr" where
  "synthetic_region_of d country_code =
     (case map_of SYNTHETIC_REGION_MAPPING country_code of
        None \<Rightarrow>
          (country_code @ ascii ''-GEN'',
           (case find (\<lambda>c. gc_code c = country_code) (geo_countries d) of
              Some row \<Rightarrow> gc_name row
            | None \<Rightarrow> Some country_code),
           country_code)
      | Some (region_code, region_name, target_country) \<Rightarrow>
          (region_code, Some region_name, target_country))"

text \<open>
  The body of the loop over the orphan groups. The state is the store, \<^verbatim>\<open>created_regions\<close>
  and \<^verbatim>\<open>updated_localities\<close>. The \<^verbatim>\<open>INSERT\<close> of the synthetic region has no
  \<^verbatim>\<open>ON CONFLICT\<close> clause and is taken to succeed.
\<close>

definition synth_group ::
  "country_cache \<Rightarrow> nat \<Rightarrow> nat \<Rightarrow> pystr \<times> nat list
   \<Rightarrow> db \<times> (pystr \<rightharpoonup> nat) \<times> nat \<Rightarrow> db \<times> (pystr \<rightharpoonup> nat) \<times> nat" where
  "synth_group country_cache locality_group_type_id synthetic_source_id grp st =
     (case grp of (country_code, orphan_ids) \<Rightarrow>
      case st of (d, created_regions, updated_localities) \<Rightarrow>
      case synthetic_region_of d country_code of (region_code, region_name, target_country) \<Rightarrow>
        (case country_cache target_country of
           None \<Rightarrow> st
         | Some target \<Rightarrow>
             (let (d1, created1) =
                    (case created_regions region_code of
                       Some _ \<Rightarrow> (d, created_regions)
                     | None \<Rightarrow>
                         (case find (\<lambda>r. gr_code r = region_code) (geo_regions d) of
                            Some row \<Rightarrow> (d, created_regions(region_code \<mapsto> gr_id row))
                          | None \<Rightarrow>
                              (let i = Suc (geo_regions_id_seq d)
                               in (d\<lparr>geo_regions := geo_regions d @
                                        [\<lparr>gr_id = i, gr_country_id = ce_id target,
                                          gr_continent_id = ce_continent_id target,
                                          gr_parent_region_id = None,
                                          gr_region_type_id = locality_group_type_id,
                                          gr_code = region_code, gr_name = region_name,
                                          gr_overture_id =
                                            Some (ascii ''synthetic:'' @ region_code),
                                          gr_source_id = synthetic_source_id,
                                          gr_boundary = None\<rparr>],
                                     geo_regions_id_seq := i\<rparr>,
                                   created_regions(region_code \<mapsto> i)))));
                  synthetic_overture_id = ascii ''synthetic:'' @ region_code
              in (d1\<lparr>geo_localities :=
                       map (\<lambda>l. if gl_id l \<in> set orphan_ids
                                 then l\<lparr>gl_parent_overture_id := Some synthetic_overture_id\<rparr>
                                 else l)
                         (geo_localities d1)\<rparr>,
                  created1,
                  updated_localities
                    + length (filter (\<lambda>l. gl_id l \<in> set orphan_ids) (geo_localities d1))))))"

text \<open>\<^verbatim>\<open>create_synthetic_regions\<close>: the groups are taken in the order of
  \<^verbatim>\<open>sorted(orphans_by_country.items(), key=lambda x: -len(x[1]))\<close>, a stable sort.\<close>

definition create_synthetic_regions :: "db \<Rightarrow> country_cache \<Rightarrow> db" where
  "create_synthetic_regions d0 country_cache =
     (let (synthetic_source_id, d1) = get_synthetic_source d0;
          (locality_group_type_id, d) = get_locality_group_type d1;
          orphans_by_country = find_orphans d;
          total_orphans = sum_list (map (\<lambda>(country_code, ids). length ids) orphans_by_country)
      in if total_orphans = 0 then d
         else fst (fold (synth_group country_cache locality_group_type_id synthetic_source_id)
                     (sort_key (\<lambda>(country_code, ids). - int (length ids)) orphans_by_country)
                     (d, Map.empty, 0)))"


section \<open>Step 5c: remapping disputed territories\<close>

text \<open>Step 1: \<^verbatim>\<open>SELECT name, overture_id FROM geo_countries WHERE id = %s\<close>;
  \<^verbatim>\<open>source_country_name = row[0] if row else None\<close>.\<close>

definition source_country_name :: "db \<Rightarrow> cache_entry \<Rightarrow> pystr option" where
  "source_country_name d source_info =
     (case find (\<lambda>c. gc_id c = ce_id source_info) (geo_countries d) of
        Some row \<Rightarrow> gc_name row
      | None \<Rightarrow> None)"

text \<open>Step 2: \<^verbatim>\<open>UPDATE geo_regions SET country_id = %s, continent_id = %s
  WHERE country_id = %s\<close>\<close>

definition remap_regions :: "cache_entry \<Rightarrow> cache_entry \<Rightarrow> region_row list \<Rightarrow> region_row list" where
  "remap_regions source_info target_info rows =
     map (\<lambda>r. if gr_country_id r = ce_id source_info
               then r\<lparr>gr_country_id := ce_id target_info,
                      gr_continent_id := ce_continent_id target_info\<rparr>
               else r) rows"

text \<open>Step 3: the same \<^verbatim>\<open>UPDATE\<close> on \<^verbatim>\<open>geo_localities\<close>.\<close>

definition remap_localities ::
  "cache_entry \<Rightarrow> cache_entry \<Rightarrow> locality_row list \<Rightarrow> locality_row list" where
  "remap_localities source_info target_info rows =
     map (\<lambda>l. if gl_country_id l = ce_id source_info
               then l\<lparr>gl_country_id := ce_id target_info,
                      gl_continent_id := ce_continent_id target_info\<rparr>
               else l) rows"

text \<open>Step 4: the country-level locality, looked for after Step 3 when the source country
  has a name: \<^verbatim>\<open>SELECT id, overture_id FROM geo_localities WHERE country_id = %s
  AND parent_overture_id IS NULL AND name = %s\<close>, first row.\<close>

definition country_level_locality :: "db \<Rightarrow> cache_entry \<Rightarrow> cache_entry \<Rightarrow> locality_row option" where
  "country_level_locality d source_info target_info =
     (if truthy (source_country_name d source_info)
      then find (\<lambda>l. gl_country_id l = ce_id target_info
                      \<and> gl_parent_overture_id l = None
                      \<and> gl_name l = source_country_name d source_info)
             (remap_localities source_info target_info (geo_localities d))
      else None)"

text \<open>Step 5: \<^verbatim>\<open>if country_locality_overture_id:\<close>
  \<^verbatim>\<open>UPDATE geo_localities SET parent_overture_id = NULL WHERE parent_overture_id = %s\<close>.
  The test is a Python truth test: an empty external id counts as absent.\<close>

definition clear_parents :: "pystr option \<Rightarrow> locality_row list \<Rightarrow> locality_row list" where
  "clear_parents country_locality_overture_id rows =
     (if truthy country_locality_overture_id
      then map (\<lambda>l. if gl_parent_overture_id l = country_locality_overture_id
                     then l\<lparr>gl_parent_overture_id := None\<rparr>
                     else l) rows
      else rows)"

text \<open>Step 6: \<^verbatim>\<open>if country_locality_id:\<close> \<^verbatim>\<open>DELETE FROM geo_localities WHERE id = %s\<close>.
  The test is a Python truth test: the id 0 counts as absent.\<close>

definition delete_locality :: "nat option \<Rightarrow> locality_row list \<Rightarrow> locality_row list" where
  "delete_locality country_locality_id rows =
     (case country_locality_id of
        None \<Rightarrow> rows
      | Some i \<Rightarrow> if i = 0 then rows else filter (\<lambda>l. gl_id l \<noteq> i) rows)"

text \<open>Steps 1 to 7 for one entry whose source and target countries are both in the cache:
  the store after them. Step 7 is \<^verbatim>\<open>DELETE FROM geo_countries WHERE id = %s\<close>.\<close>

definition remap_store :: "db \<Rightarrow> cache_entry \<Rightarrow> cache_entry \<Rightarrow> db" where
  "remap_store d source_info target_info =
     (let country_locality = country_level_locality d source_info target_info;
          country_locality_id =
            (case country_locality of None \<Rightarrow> None | Some l \<Rightarrow> Some (gl_id l));
          country_locality_overture_id =
            (case country_locality of None \<Rightarrow> None | Some l \<Rightarrow> gl_overture_id l)
      in d\<lparr>geo_regions := remap_regions source_info target_info (geo_regions d),
            geo_localities :=
              delete_locality country_locality_id
                (clear_parents country_locality_overture_id
                   (remap_localities source_info target_info (geo_localities d))),
            geo_countries :=
              filter (\<lambda>c. gc_id c \<noteq> ce_id source_info) (geo_countries d)\<rparr>)"

text \<open>
  The body of the loop over \<^verbatim>\<open>COUNTRY_REMAPPING.items()\<close>; the state is the store and
  \<^verbatim>\<open>country_cache\<close>. An entry whose source or target code is not in the cache is skipped;
  otherwise the store is remapped and \<^verbatim>\<open>del country_cache[source_code]\<close> follows.
\<close>

definition remap_country :: "pystr \<times> pystr \<Rightarrow> db \<times> country_cache \<Rightarrow> db \<times> country_cache" where
  "remap_country entry st =
     (case entry of (source_code, target_code) \<Rightarrow>
      case st of (d, country_cache) \<Rightarrow>
        (case country_cache source_code of
           None \<Rightarrow> st
         | Some source_info \<Rightarrow>
             (case country_cache target_code of
                None \<Rightarrow> st
              | Some target_info \<Rightarrow>
                  (remap_store d source_info target_info,
                   country_cache(source_code := None)))))"

definition remap_disputed_territories :: "db \<Rightarrow> country_cache \<Rightarrow> db \<times> country_cache" where
  "remap_disputed_territories d country_cache =
     (if COUNTRY_REMAPPING = [] then (d, country_cache)
      else fold remap_country COUNTRY_REMAPPING (d, country_cache))"


text \<open>No row of the country, region or locality table carries the country id.\<close>

definition country_gone :: "nat \<Rightarrow> db \<Rightarrow> bool" where
  "country_gone country_id d \<longleftrightarrow>
     (\<forall>c\<in>set (geo_countries d). gc_id c \<noteq> country_id)
     \<and> (\<forall>r\<in>set (geo_regions d). gr_country_id r \<noteq> country_id)
     \<and> (\<forall>l\<in>set (geo_localities d). gl_country_id l \<noteq> country_id)"

text \<open>The second locality row is the first up to its country, its continent and its raw
  parent id, and its raw parent id is that of the first or null.\<close>

definition same_locality :: "locality_row \<Rightarrow> locality_row \<Rightarrow> bool" where
  "same_locality l l' \<longleftrightarrow>
     gl_id l' = gl_id l \<and> gl_locality_type_id l' = gl_locality_type_id l
     \<and> gl_name l' = gl_name l \<and> gl_name_ascii l' = gl_name_ascii l
     \<and> gl_timezone l' = gl_timezone l \<and> gl_population l' = gl_population l
     \<and> gl_source_id l' = gl_source_id l \<and> gl_overture_id l' = gl_overture_id l
     \<and> gl_boundary l' = gl_boundary l
     \<and> (gl_parent_overture_id l' = gl_parent_overture_id l \<or> gl_parent_overture_id l' = None)"

text \<open>What one entry does to a locality row that it keeps.\<close>

definition remap_row :: "cache_entry \<Rightarrow> cache_entry \<Rightarrow> pystr option \<Rightarrow> locality_row \<Rightarrow> locality_row" where
  "remap_row si ti oid l =
     (let l1 = (if gl_country_id l = ce_id si
                then l\<lparr>gl_country_id := ce_id ti, gl_continent_id := ce_continent_id ti\<rparr>
                else l)
      in if truthy oid \<and> gl_parent_overture_id l1 = oid
         then l1\<lparr>gl_parent_overture_id := None\<rparr> else l1)"


section \<open>Step 5d: the Jerusalem override\<close>

text \<open>
  The \<^verbatim>\<open>UPDATE\<close> compares \<^verbatim>\<open>parent_overture_id\<close> with the external id of the Judea and Samaria
  region by SQL equality, which no row satisfies when either side is \<^verbatim>\<open>NULL\<close>, and
  \<^verbatim>\<open>country_id\<close> with the scalar subquery \<^verbatim>\<open>(SELECT id FROM geo_countries WHERE code = 'IL')\<close>,
  which is \<^verbatim>\<open>NULL\<close> when there is no such country; country codes are unique in
  \<^verbatim>\<open>geo_countries\<close> (\<^verbatim>\<open>ON CONFLICT (code)\<close>), so the subquery has at most one row.
\<close>

definition override_jerusalem_region :: "db \<Rightarrow> db" where
  "override_jerusalem_region d =
     (case find (\<lambda>r. gr_code r = ascii ''IL-JERUSALEM-DISTRICT'') (geo_regions d) of
        None \<Rightarrow> d
      | Some jerusalem \<Rightarrow>
          (case find (\<lambda>r. gr_code r = ascii ''IL-JUDEA-SAMARIA'') (geo_regions d) of
             None \<Rightarrow> d
           | Some judea_samaria \<Rightarrow>
               d\<lparr>geo_localities :=
                   map (\<lambda>l.
                          if gl_parent_overture_id l \<noteq> None
                             \<and> gl_parent_overture_id l = gr_overture_id judea_samaria
                             \<and> gl_name l \<in> set [Some (ascii ''Jerusalem''),
                                                  Some (ascii ''East Jerusalem'')]
                             \<and> (case find (\<lambda>c. gc_code c = ascii ''IL'') (geo_countries d) of
                                   None \<Rightarrow> False
                                 | Some il \<Rightarrow> gl_country_id l = gc_id il)
                          then l\<lparr>gl_parent_overture_id := gr_overture_id jerusalem\<rparr>
                          else l)
                     (geo_localities d)\<rparr>))"


text \<open>The invariant of the region table: a region with a parent region has the country of
  every region row carrying the parent's id.\<close>

definition parent_same_country :: "db \<Rightarrow> bool" where
  "parent_same_country d \<longleftrightarrow>
     (\<forall>r\<in>set (geo_regions d). \<forall>pid. gr_parent_region_id r = Some pid \<longrightarrow>
        (\<forall>p\<in>set (geo_regions d). gr_id p = pid \<longrightarrow> gr_country_id p = gr_country_id r))"

text \<open>Every region id and parent region id in the table has been issued by the sequence.\<close>

definition region_ids_issued :: "db \<Rightarrow> bool" where
  "region_ids_issued d \<longleftrightarrow>
     (\<forall>r\<in>set (geo_regions d). gr_id r \<le> geo_regions_id_seq d
        \<and> (\<forall>pid. gr_parent_region_id r = Some pid \<longrightarrow> pid \<le> geo_regions_id_seq d))"

text \<open>The source names, for every sub-region record whose parent id is the id of a
  top-level region record, the same country on both records.\<close>

definition sub_regions_consistent :: "division list \<Rightarrow> bool" where
  "sub_regions_consistent ps \<longleftrightarrow>
     (\<forall>overture_id country_code region subtype name parent_id.
        (overture_id, country_code, region, subtype, name, parent_id) \<in> set (query_sub ps) \<longrightarrow>
        (\<forall>top_id top_country top_region top_name.
           (top_id, top_country, top_region, top_name) \<in> set (query_top ps) \<longrightarrow>
           parent_id = Some top_id \<longrightarrow> country_code = top_country))"

text \<open>The stores after \<^verbatim>\<open>import_regions\<close>, \<^verbatim>\<open>import_localities\<close>, \<^verbatim>\<open>create_synthetic_regions\<close>,
  \<^verbatim>\<open>remap_disputed_territories\<close> and \<^verbatim>\<open>override_jerusalem_region\<close>, called by \<^verbatim>\<open>run_import\<close> in
  this order on one \<^verbatim>\<open>country_cache\<close>.\<close>

definition hierarchy_phases ::
  "(region_row \<Rightarrow> region_row list \<Rightarrow> bool) \<Rightarrow> db \<Rightarrow> division list \<Rightarrow> nat \<Rightarrow> country_cache
   \<Rightarrow> db list" where
  "hierarchy_phases conflict d ps source_id country_cache =
     (let d1 = fst (import_regions conflict d ps source_id country_cache);
          d2 = fst (import_localities d1 ps source_id country_cache);
          d3 = create_synthetic_regions d2 country_cache;
          d4 = fst (remap_disputed_territories d3 country_cache);
          d5 = override_jerusalem_region d4
      in [d1, d2, d3, d4, d5])"

text \<open>Region ids are issued by the sequence and are distinct (the id is the key of the
  table).\<close>

definition regions_wf :: "db \<Rightarrow> bool" where
  "regions_wf d \<longleftrightarrow> region_ids_issued d \<and> distinct (map gr_id (geo_regions d))"

text \<open>Every entry of \<^verbatim>\<open>top_level_map\<close> is the id of a region row written for a top-level record
  with that external id, in the country of that record.\<close>

definition top_level_ok ::
  "(pystr \<times> pystr \<times> pystr option \<times> pystr) list \<Rightarrow> country_cache \<Rightarrow> (pystr \<rightharpoonup> nat) \<Rightarrow> db \<Rightarrow> bool" where
  "top_level_ok tops cache top_level_map d \<longleftrightarrow>
     (\<forall>oid i. top_level_map oid = Some i \<longrightarrow>
        (\<exists>r\<in>set (geo_regions d). gr_id r = i
           \<and> (\<exists>cc reg nm e. (oid, cc, reg, nm) \<in> set tops \<and> cache cc = Some e
                 \<and> gr_country_id r = ce_id e)))"


text \<open>What the loop over the orphan groups has done to a locality row once the localities
  \<open>ids\<close> have been handled: the key and the external id are kept; a row among \<open>ids\<close> has a
  parent id \<open>synthetic:<code>\<close> that is in \<open>regs\<close>, and any other row is unchanged.\<close>

definition reparented :: "pystr set \<Rightarrow> nat set \<Rightarrow> locality_row \<Rightarrow> locality_row \<Rightarrow> bool" where
  "reparented regs ids l l' \<longleftrightarrow>
     gl_id l' = gl_id l \<and> gl_overture_id l' = gl_overture_id l
     \<and> (if gl_id l \<in> ids
         then \<exists>code. gl_parent_overture_id l' = Some (ascii ''synthetic:'' @ code)
                \<and> ascii ''synthetic:'' @ code \<in> regs
         else l' = l)"

text \<open>The locality ids in the groups of \<^verbatim>\<open>orphans_by_country\<close>.\<close>

definition orphan_ids :: "(pystr \<times> nat list) list \<Rightarrow> nat set" where
  "orphan_ids groups = (\<Union>g\<in>set groups. set (snd g))"

text \<open>The rows of \<^verbatim>\<open>locality_parent_rows\<close>, as a function of the locality table.\<close>

definition parent_rows :: "locality_row list \<Rightarrow> (pystr \<times> pystr option) list" where
  "parent_rows ls =
     concat (map (\<lambda>l. case gl_overture_id l of
                         None \<Rightarrow> []
                       | Some oid \<Rightarrow> [(oid, gl_parent_overture_id l)]) ls)"

text \<open>The invariant of the loop over the orphan groups, from the store \<open>d0\<close> on which the
  sweep ran to the current store \<open>d\<close>: the localities are those of \<open>d0\<close>, re-parented where
  handled; the countries are kept; no region id is lost; every region with one of the
  synthetic codes has the synthetic external id; every code in \<^verbatim>\<open>created_regions\<close> is the code
  of a region row.\<close>

definition synth_inv :: "db \<Rightarrow> pystr set \<Rightarrow> nat set \<Rightarrow> db \<Rightarrow> (pystr \<rightharpoonup> nat) \<Rightarrow> bool" where
  "synth_inv d0 codes ids d created \<longleftrightarrow>
     list_all2 (reparented (region_overture_ids d) ids) (geo_localities d0) (geo_localities d)
     \<and> geo_countries d = geo_countries d0
     \<and> region_overture_ids d0 \<subseteq> region_overture_ids d
     \<and> (\<forall>r\<in>set (geo_regions d). gr_code r \<in> codes \<longrightarrow>
           gr_overture_id r = Some (ascii ''synthetic:'' @ gr_code r))
     \<and> (\<forall>code. created code \<noteq> None \<longrightarrow> (\<exists>r\<in>set (geo_regions d). gr_code r = code))"


section \<open>Example data\<close>

text \<open>A store with no rows, and small source records, for the worked examples below.\<close>

definition blank_db :: db where
  "blank_db =
     \<lparr>geo_countries = [], geo_regions = [], geo_localities = [], geo_locality_locations = [],
      geo_region_types = [], geo_locality_types = [], geo_data_sources = [],
      geo_regions_id_seq = 0, geo_localities_id_seq = 0, geo_region_types_id_seq = 0,
      geo_data_sources_id_seq = 0\<rparr>"

text \<open>A source record \<open>id\<close> of the given subtype in the given country, with the given raw
  parent id, named \<open>Name\<close>, at longitude \<open>lng\<close> and latitude \<open>lat\<close>.\<close>

definition example_division ::
  "string \<Rightarrow> string \<Rightarrow> string \<Rightarrow> pystr option \<Rightarrow> real option \<Rightarrow> real option \<Rightarrow> division" where
  "example_division oid subtype country parent lng lat =
     \<lparr>p_id = ascii oid, p_subtype = ascii subtype, p_class = None,
      p_country = Some (ascii country), p_region = None, p_parent_division_id = parent,
      p_names_primary = Some (ascii ''Name''), p_names_common = None,
      p_geometry = Some (lng, lat), p_population = None\<rparr>"

text \<open>A country cache with the codes given, numbered from 1, all on continent 1.\<close>

definition example_cache :: "string list \<Rightarrow> country_cache" where
  "example_cache codes =
     map_of (map (\<lambda>(i, c). (ascii c, \<lparr>ce_id = Suc i, ce_continent_id = Some 1\<rparr>))
               (enumerate 0 codes))"


text \<open>Rows for the examples: a country, a region without a parent and a locality, with
  the columns that matter given and the others at fixed values.\<close>

definition example_country :: "nat \<Rightarrow> string \<Rightarrow> string \<Rightarrow> country_row" where
  "example_country i code name =
     \<lparr>gc_id = i, gc_code = ascii code, gc_name = Some (ascii name), gc_continent_id = Some 1,
      gc_source_id = 7, gc_overture_id = Some (ascii code), gc_boundary = None\<rparr>"

definition example_region :: "nat \<Rightarrow> nat \<Rightarrow> string \<Rightarrow> string \<Rightarrow> region_row" where
  "example_region i country code oid =
     \<lparr>gr_id = i, gr_country_id = country, gr_continent_id = None, gr_parent_region_id = None,
      gr_region_type_id = 1, gr_code = ascii code, gr_name = Some (ascii code),
      gr_overture_id = Some (ascii oid), gr_source_id = 7, gr_boundary = None\<rparr>"

definition example_locality :: "nat \<Rightarrow> nat \<Rightarrow> string \<Rightarrow> string \<Rightarrow> pystr option \<Rightarrow> locality_row" where
  "example_locality i country name oid parent =
     \<lparr>gl_id = i, gl_locality_type_id = 1, gl_name = Some (ascii name),
      gl_name_ascii = Some (ascii name), gl_timezone = ascii ''UTC'', gl_population = None,
      gl_continent_id = Some 1, gl_country_id = country, gl_source_id = 7,
      gl_overture_id = Some (ascii oid), gl_parent_overture_id = parent, gl_boundary = None\<rparr>"

text \<open>Israel with the two synthetic regions of the override, and two localities under
  Judea and Samaria: Jerusalem and Hebron.\<close>

definition jerusalem_db :: db where
  "jerusalem_db =
     blank_db\<lparr>
       geo_countries := [example_country 1 ''IL'' ''Israel''],
       geo_regions :=
         [example_region 1 1 ''IL-JUDEA-SAMARIA'' ''synthetic:IL-JUDEA-SAMARIA'',
          example_region 2 1 ''IL-JERUSALEM-DISTRICT'' ''synthetic:IL-JERUSALEM-DISTRICT''],
       geo_localities :=
         [example_locality 1 1 ''Jerusalem'' ''L1'' (Some (ascii ''synthetic:IL-JUDEA-SAMARIA'')),
          example_locality 2 1 ''Hebron'' ''L2'' (Some (ascii ''synthetic:IL-JUDEA-SAMARIA''))]\<rparr>"


text \<open>Israel and the West Bank, with a region of the West Bank, its country-level locality
  \<open>West Bank\<close>, Hebron below that, and Haifa in Israel.\<close>

definition west_bank_db :: db where
  "west_bank_db =
     blank_db\<lparr>
       geo_countries := [example_country 1 ''IL'' ''Israel'', example_country 2 ''XW'' ''West Bank''],
       geo_regions := [example_region 1 2 ''XW-R'' ''R1''],
       geo_localities :=
         [example_locality 1 2 ''West Bank'' ''P1'' None,
          example_locality 2 2 ''Hebron'' ''L2'' (Some (ascii ''P1'')),
          example_locality 3 1 ''Haifa'' ''L3'' (Some (ascii ''R9''))]\<rparr>"


text \<open>A region and a county below it, in one country.\<close>

definition one_country_source :: "division list" where
  "one_country_source =
     [example_division ''R1'' ''region'' ''AA'' None None None,
      example_division ''R2'' ''county'' ''AA'' (Some (ascii ''R1'')) None None]"

text \<open>A region of one country and a county of another country that names it as parent.\<close>

definition two_country_source :: "division list" where
  "two_country_source =
     [example_division ''R1'' ''region'' ''AA'' None None None,
      example_division ''R2'' ''county'' ''BB'' (Some (ascii ''R1'')) None None]"


text \<open>The West Bank with one locality that has no parent, in a store without Israel.\<close>

definition orphan_db :: db where
  "orphan_db =
     blank_db\<lparr>
       geo_countries := [example_country 1 ''XW'' ''West Bank''],
       geo_localities := [example_locality 1 1 ''Hebron'' ''L1'' None]\<rparr>"

text \<open>Zedland, a country without a policy entry, with one region and three localities: one
  under an id that nothing carries, one under the region, one under the second locality.\<close>

definition unmapped_db :: db where
  "unmapped_db =
     blank_db\<lparr>
       geo_countries := [example_country 1 ''ZZ'' ''Zedland''],
       geo_regions := [example_region 1 1 ''R1'' ''R1''],
       geo_regions_id_seq := 1,
       geo_localities :=
         [example_locality 1 1 ''Lone'' ''L1'' (Some (ascii ''nowhere'')),
          example_locality 2 1 ''Town'' ''L2'' (Some (ascii ''R1'')),
          example_locality 3 1 ''Suburb'' ''L3'' (Some (ascii ''L2''))]\<rparr>"


section \<open>Theorems\<close>

lemma ascii_eq_iff [simp]: "ascii a = ascii b \<longleftrightarrow> a = b"
  unfolding ascii_def by (simp add: inj_on_def)

lemma ascii_Nil [simp]: "ascii [] = []"
  by (simp add: ascii_def)

lemma ascii_eq_Nil_iff [simp]: "ascii s = [] \<longleftrightarrow> s = []" "[] = ascii s \<longleftrightarrow> s = []"
  by (auto simp: ascii_def)

lemma length_ascii [simp]: "length (ascii s) = length s"
  by (simp add: ascii_def)

subsection \<open>Region codes\<close>

text \<open>
  C8 (as stated) fails on the code: an empty region field is present, is not of the
  \<^verbatim>\<open>COUNTRY-CODE\<close> form, and yet is not returned unchanged; the code falls back to the
  prefix of the external id, because \<^verbatim>\<open>if region:\<close> treats the empty string like
  \<^verbatim>\<open>None\<close>.
\<close>

theorem extract_region_code_empty_region:
  "extract_region_code (ascii ''abc'') (Some []) = ascii ''abc''
   \<and> region_code_as_specified (ascii ''abc'') (Some []) = []"
  by (simp add: extract_region_code_def region_code_as_specified_def)

text \<open>
  C8 (amended): for every external id and optional region field, the derived region code
  is: for a present, non-empty region field of length above 3 with a hyphen at index 2,
  the suffix after the hyphen; for any other present, non-empty region field, the field
  unchanged; for an absent or empty region field, the first 8 code points of the
  external id (all of it when it is shorter).
\<close>

theorem extract_region_code_cases:
  "extract_region_code overture_id region =
     (case region of
        Some r \<Rightarrow>
          if r = [] then take 8 overture_id
          else if 3 < length r \<and> r ! 2 = of_char CHR ''-'' then drop 3 r
          else r
      | None \<Rightarrow> take 8 overture_id)"
  by (simp add: extract_region_code_def split: option.split)

subsection \<open>The orphan classifier\<close>

lemma visited_shift:
  "visited po start (Suc k) =
     (case visited po start 0 of None \<Rightarrow> None | Some c \<Rightarrow> visited po (dict_get po c) k)"
  by (induction k) (auto split: option.splits)

lemma visited_falsy: "\<not> truthy start \<Longrightarrow> visited po start k = None"
  by (induction k) auto

lemma visited_None_later:
  "visited po start k = None \<Longrightarrow> k \<le> m \<Longrightarrow> visited po start m = None"
  by (induction m) (auto simp: le_Suc_eq)

lemma chain_walk_iff:
  "chain_walk regs po start n \<longleftrightarrow> (\<exists>k<n. \<exists>c. visited po start k = Some c \<and> c \<in> regs)"
proof (induction n arbitrary: start)
  case 0
  then show ?case by simp
next
  case (Suc n)
  show ?case
  proof (cases "truthy start")
    case False
    then have "chain_walk regs po start (Suc n) = False"
      by (auto simp: truthy_def split: option.splits)
    with False show ?thesis by (simp add: visited_falsy)
  next
    case True
    then obtain c where c: "start = Some c" "c \<noteq> []"
      by (auto simp: truthy_def split: option.splits)
    have v0: "visited po start 0 = Some c"
      using c by (simp add: truthy_def)
    show ?thesis
    proof (cases "c \<in> regs")
      case True
      with c v0 show ?thesis by auto
    next
      case False
      have step: "visited po start (Suc k) = visited po (dict_get po c) k" for k
        using v0 by (simp only: visited_shift option.case)
      have "chain_walk regs po start (Suc n) = chain_walk regs po (dict_get po c) n"
        using c False by simp
      also have "\<dots> \<longleftrightarrow> (\<exists>k<n. \<exists>d. visited po (dict_get po c) k = Some d \<and> d \<in> regs)"
        by (rule Suc.IH)
      also have "\<dots> \<longleftrightarrow> (\<exists>k<n. \<exists>d. visited po start (Suc k) = Some d \<and> d \<in> regs)"
        by (simp only: step)
      also have "\<dots> \<longleftrightarrow> (\<exists>k<Suc n. \<exists>d. visited po start k = Some d \<and> d \<in> regs)"
      proof
        assume "\<exists>k<n. \<exists>d. visited po start (Suc k) = Some d \<and> d \<in> regs"
        then obtain k d where "k < n" "visited po start (Suc k) = Some d" "d \<in> regs"
          by blast
        then have "Suc k < Suc n \<and> visited po start (Suc k) = Some d \<and> d \<in> regs"
          by simp
        then show "\<exists>k<Suc n. \<exists>d. visited po start k = Some d \<and> d \<in> regs"
          by blast
      next
        assume "\<exists>k<Suc n. \<exists>d. visited po start k = Some d \<and> d \<in> regs"
        then obtain k d where k: "k < Suc n" "visited po start k = Some d" "d \<in> regs"
          by blast
        with v0 False have "k \<noteq> 0" by (cases k) auto
        then obtain k' where "k = Suc k'" by (cases k) auto
        with k show "\<exists>k<n. \<exists>d. visited po start (Suc k) = Some d \<and> d \<in> regs"
          by auto
      qed
      finally show ?thesis .
    qed
  qed
qed

text \<open>
  C2: the classifier follows \<open>current = parent_of(current)\<close> from the locality's raw parent
  id. It finds a region (the locality is anchored) exactly when one of the ids visited in
  the first 20 hops is a known region external id; it finds none (orphan) when the chain
  ends at a null, absent or empty parent before any region id was visited, and when no
  region id is visited in 20 hops. The walk is a total function of the region ids, the
  parent map and the start, whatever the parent map holds.
\<close>

theorem orphan_classifier:
  "(found_region regs parent_of start \<longleftrightarrow>
      (\<exists>k<20. \<exists>c. visited parent_of start k = Some c \<and> c \<in> regs))
   \<and> (\<forall>k<20. visited parent_of start k = None
         \<longrightarrow> (\<forall>j<k. \<forall>c. visited parent_of start j = Some c \<longrightarrow> c \<notin> regs)
         \<longrightarrow> \<not> found_region regs parent_of start)
   \<and> ((\<forall>k<20. \<forall>c. visited parent_of start k = Some c \<longrightarrow> c \<notin> regs)
         \<longrightarrow> \<not> found_region regs parent_of start)"
proof (intro conjI allI impI)
  show iff: "found_region regs parent_of start \<longleftrightarrow>
      (\<exists>k<20. \<exists>c. visited parent_of start k = Some c \<and> c \<in> regs)"
    unfolding found_region_def by (rule chain_walk_iff)
  show "\<not> found_region regs parent_of start"
    if "(\<forall>k<20. \<forall>c. visited parent_of start k = Some c \<longrightarrow> c \<notin> regs)"
    using that iff by blast
  show "\<not> found_region regs parent_of start"
    if k: "k < 20" and none: "visited parent_of start k = None"
      and before: "\<forall>j<k. \<forall>c. visited parent_of start j = Some c \<longrightarrow> c \<notin> regs" for k
  proof
    assume "found_region regs parent_of start"
    then obtain m c where m: "m < 20" "visited parent_of start m = Some c" "c \<in> regs"
      using iff by blast
    have "m < k"
    proof (rule ccontr)
      assume "\<not> m < k"
      then have "visited parent_of start m = None"
        using visited_None_later [OF none, of m] by simp
      with m show False by simp
    qed
    with before m show False by blast
  qed
qed

text \<open>
  Three runs of the classifier: a locality whose parent \<open>a\<close> has the region \<open>r\<close> as parent is
  anchored at the second id visited; a locality whose parent \<open>a\<close> is unknown is an orphan
  (the chain ends after one hop); and on the cycle \<open>a \<rightarrow> b \<rightarrow> a\<close> the walk stops after
  20 hops with an orphan.
\<close>

theorem orphan_classifier_witness:
  "(found_region {ascii ''r''} (map_of [(ascii ''a'', Some (ascii ''r''))]) (Some (ascii ''a''))
      \<and> (\<exists>k<20. \<exists>c. visited (map_of [(ascii ''a'', Some (ascii ''r''))]) (Some (ascii ''a'')) k
                        = Some c \<and> c \<in> {ascii ''r''}))
   \<and> (visited Map.empty (Some (ascii ''a'')) 1 = None
      \<and> \<not> found_region {ascii ''r''} Map.empty (Some (ascii ''a'')))
   \<and> \<not> found_region {ascii ''r''}
         (map_of [(ascii ''a'', Some (ascii ''b'')), (ascii ''b'', Some (ascii ''a''))])
         (Some (ascii ''a''))"
proof (intro conjI)
  let ?po = "map_of [(ascii ''a'', Some (ascii ''r''))]"
  show f: "found_region {ascii ''r''} ?po (Some (ascii ''a''))"
    by (simp add: found_region_def dict_get_def eval_nat_numeral)
  show "\<exists>k<20. \<exists>c. visited ?po (Some (ascii ''a'')) k = Some c \<and> c \<in> {ascii ''r''}"
    using f orphan_classifier [of "{ascii ''r''}" ?po "Some (ascii ''a'')"] by blast
next
  show v1: "visited Map.empty (Some (ascii ''a'')) 1 = None"
    by (simp add: truthy_def dict_get_def)
  have v0: "\<forall>j<1. \<forall>c. visited Map.empty (Some (ascii ''a'')) j = Some c
              \<longrightarrow> c \<notin> {ascii ''r''}"
    by (simp add: truthy_def)
  have "(1::nat) < 20" by simp
  with v1 v0 show "\<not> found_region {ascii ''r''} Map.empty (Some (ascii ''a''))"
    using orphan_classifier [of "{ascii ''r''}" Map.empty "Some (ascii ''a'')"] by blast
next
  let ?po = "map_of [(ascii ''a'', Some (ascii ''b'')), (ascii ''b'', Some (ascii ''a''))]"
  have "visited ?po (Some (ascii ''a'')) k
          = (if even k then Some (ascii ''a'') else Some (ascii ''b''))" for k
    by (induction k) (auto simp: truthy_def dict_get_def)
  then have "\<forall>k<20. \<forall>c. visited ?po (Some (ascii ''a'')) k = Some c \<longrightarrow> c \<notin> {ascii ''r''}"
    by auto
  then show "\<not> found_region {ascii ''r''} ?po (Some (ascii ''a''))"
    using orphan_classifier [of "{ascii ''r''}" ?po "Some (ascii ''a'')"] by blast
qed

subsection \<open>Display names\<close>

lemma find_first_index:
  "i < length xs \<Longrightarrow> P (xs ! i) \<Longrightarrow> (\<forall>j<i. \<not> P (xs ! j)) \<Longrightarrow> find P xs = Some (xs ! i)"
  by (auto simp: find_Some_iff)

lemma find_none_set: "(\<forall>x\<in>set xs. \<not> P x) \<Longrightarrow> find P xs = None"
  by (simp add: find_None_iff)

text \<open>
  What the \<^verbatim>\<open>COALESCE\<close> column computes: the English common name \<^verbatim>\<open>names.common['en']\<close>
  when there is one; otherwise the first of the common names, in the order of
  \<^verbatim>\<open>map_values\<close>, that passes the test \<^verbatim>\<open>v ~ '^[A-Za-z]'\<close>, when there is one; otherwise the
  primary name.
\<close>

lemma display_name_cases:
  "(\<forall>e. map_extract common (ascii ''en'') = Some e \<longrightarrow> display_name common primary = e)
   \<and> (\<forall>i v. map_extract common (ascii ''en'') = None
         \<longrightarrow> i < length (map_values common)
         \<longrightarrow> map_values common ! i = Some v
         \<longrightarrow> latin_full_match v
         \<longrightarrow> (\<forall>j<i. \<forall>w. map_values common ! j = Some w \<longrightarrow> \<not> latin_full_match w)
         \<longrightarrow> display_name common primary = v)
   \<and> (map_extract common (ascii ''en'') = None
         \<longrightarrow> (\<forall>w. Some w \<in> set (map_values common) \<longrightarrow> \<not> latin_full_match w)
         \<longrightarrow> display_name common primary = primary)"
proof (intro conjI allI impI)
  fix e
  assume "map_extract common (ascii ''en'') = Some e"
  then show "display_name common primary = e"
    by (simp add: display_name_def)
next
  fix i v
  let ?P = "\<lambda>v. case v of None \<Rightarrow> False | Some s \<Rightarrow> latin_full_match s"
  assume en: "map_extract common (ascii ''en'') = None"
    and i: "i < length (map_values common)"
    and v: "map_values common ! i = Some v"
    and lat: "latin_full_match v"
    and first: "\<forall>j<i. \<forall>w. map_values common ! j = Some w \<longrightarrow> \<not> latin_full_match w"
  have "\<forall>j<i. \<not> ?P (map_values common ! j)"
    using first by (auto split: option.splits)
  moreover have "?P (map_values common ! i)"
    using v lat by simp
  ultimately have "find ?P (map_values common) = Some (map_values common ! i)"
    using i by (intro find_first_index) auto
  then have "first_latin_value common = Some v"
    using v by (simp add: first_latin_value_def)
  with en show "display_name common primary = v"
    by (simp add: display_name_def)
next
  let ?P = "\<lambda>v. case v of None \<Rightarrow> False | Some s \<Rightarrow> latin_full_match s"
  assume en: "map_extract common (ascii ''en'') = None"
    and none: "\<forall>w. Some w \<in> set (map_values common) \<longrightarrow> \<not> latin_full_match w"
  have "\<forall>x\<in>set (map_values common). \<not> ?P x"
    using none by (auto split: option.splits)
  then have "find ?P (map_values common) = None"
    by (rule find_none_set)
  then have "first_latin_value common = None"
    by (simp add: first_latin_value_def)
  with en show "display_name common primary = primary"
    by (simp add: display_name_def)
qed

lemma latin_full_match_iff:
  "latin_full_match v \<longleftrightarrow>
     (\<exists>c. v = [c] \<and> ((of_char CHR ''A'' \<le> c \<and> c \<le> of_char CHR ''Z'')
                      \<or> (of_char CHR ''a'' \<le> c \<and> c \<le> of_char CHR ''z'')))"
  by (cases v) (auto simp: latin_full_match_def)

text \<open>
  C6 does not hold of the code in its second case. The claim, like the comment above each
  query (\<^verbatim>\<open>Name priority: English common > any English name > primary (local) name\<close>),
  takes the first common name that starts with a Latin letter. The test in the queries
  holds of one-letter texts only. A record without an English common name, with the French
  common name \<open>Jaffa\<close> and a Hebrew primary name, gets the primary name and not \<open>Jaffa\<close>, also
  when \<open>Jaffa\<close> is filed under \<open>en-GB\<close>. With an English common name the claim and the code
  agree, and a common name that is the letter \<open>J\<close> alone is taken.
\<close>

theorem display_name_skips_latin_name:
  "display_name (Some [(ascii ''fr'', Some (ascii ''Jaffa''))]) [1497, 1508, 1493]
     = [1497, 1508, 1493]
   \<and> display_name (Some [(ascii ''en-GB'', Some (ascii ''Jaffa''))]) [1497, 1508, 1493]
     = [1497, 1508, 1493]
   \<and> display_name (Some [(ascii ''fr'', Some (ascii ''Allemagne'')),
                         (ascii ''en'', Some (ascii ''Germany''))]) (ascii ''Deutschland'')
     = ascii ''Germany''
   \<and> display_name (Some [(ascii ''he'', Some [1497, 1512]),
                         (ascii ''fr'', Some (ascii ''J''))]) [1497, 1508, 1493]
     = ascii ''J''"
  by (simp add: display_name_def map_extract_def first_latin_value_def map_values_def
      latin_full_match_def ascii_def)

subsection \<open>Locality import: coordinates\<close>

lemma query_localities_append:
  "query_localities (ps @ qs) = query_localities ps @ query_localities qs"
  by (simp add: query_localities_def)

lemma query_localities_Cons:
  "query_localities (p # ps) = query_localities [p] @ query_localities ps"
  by (simp add: query_localities_def)

lemma import_locality_row_skip:
  "q_lat r = None \<or> q_lng r = None \<Longrightarrow>
   import_locality_row country_cache locality_type_cache fallback_type source_id r
       (d, coordinate_data, stats)
     = (d, coordinate_data, count_skipped stats)"
  by (auto simp: import_locality_row_def count_skipped_def Let_def split: option.splits)

lemma import_locality_row_stats:
  "import_locality_row country_cache locality_type_cache fallback_type source_id r
       (d, coordinate_data, count_skipped stats)
     = (case import_locality_row country_cache locality_type_cache fallback_type source_id r
               (d, coordinate_data, stats) of
          (d', coordinate_data', stats') \<Rightarrow> (d', coordinate_data', count_skipped stats'))"
  by (auto simp: import_locality_row_def count_skipped_def Let_def split: option.splits)

lemma import_locality_rows_stats:
  "fold (import_locality_row country_cache locality_type_cache fallback_type source_id) rs
       (d, coordinate_data, count_skipped stats)
     = (case fold (import_locality_row country_cache locality_type_cache fallback_type source_id)
               rs (d, coordinate_data, stats) of
          (d', coordinate_data', stats') \<Rightarrow> (d', coordinate_data', count_skipped stats'))"
proof (induction rs arbitrary: d coordinate_data stats)
  case Nil
  show ?case by simp
next
  case (Cons r rs)
  obtain d1 c1 s1 where step:
    "import_locality_row country_cache locality_type_cache fallback_type source_id r
       (d, coordinate_data, stats) = (d1, c1, s1)"
    by (metis prod_cases3)
  have "import_locality_row country_cache locality_type_cache fallback_type source_id r
       (d, coordinate_data, count_skipped stats) = (d1, c1, count_skipped s1)"
    by (simp add: import_locality_row_stats step)
  then show ?case
    by (simp add: step Cons.IH)
qed

lemma import_locality_rows_skip_one:
  assumes "q_lat r = None \<or> q_lng r = None"
  shows "fold (import_locality_row country_cache locality_type_cache fallback_type source_id)
           (rs1 @ r # rs2) init
         = (case fold (import_locality_row country_cache locality_type_cache fallback_type
                         source_id) (rs1 @ rs2) init of
              (d', coordinate_data', stats') \<Rightarrow> (d', coordinate_data', count_skipped stats'))"
proof -
  let ?step = "import_locality_row country_cache locality_type_cache fallback_type source_id"
  obtain d1 c1 s1 where before: "fold ?step rs1 init = (d1, c1, s1)"
    by (metis prod_cases3)
  have "?step r (d1, c1, s1) = (d1, c1, count_skipped s1)"
    using assms by (rule import_locality_row_skip)
  then show ?thesis
    by (simp add: before import_locality_rows_stats)
qed

text \<open>
  C7 (as stated) fails on the code: the import loop tests the coordinates for \<^verbatim>\<open>None\<close> only.
  A locality at latitude 1000, far outside the range of latitudes, is imported, gets a
  location row with that latitude, and is not counted as skipped.
\<close>

theorem out_of_range_coordinate_imported:
  "map gl_overture_id (geo_localities (fst (import_localities blank_db
       [example_division ''L1'' ''locality'' ''ZZ'' None (Some 0) (Some 1000)] 7
       (example_cache [''ZZ'']))))
     = [Some (ascii ''L1'')]
   \<and> geo_locality_locations (fst (import_localities blank_db
       [example_division ''L1'' ''locality'' ''ZZ'' None (Some 0) (Some 1000)] 7
       (example_cache [''ZZ''])))
     = [\<lparr>ll_locality_id = 1, ll_source_id = 7, ll_latitude = 1000, ll_longitude = 0,
         ll_accuracy_m = 100\<rparr>]
   \<and> skipped (snd (import_localities blank_db
       [example_division ''L1'' ''locality'' ''ZZ'' None (Some 0) (Some 1000)] 7
       (example_cache [''ZZ''])))
     = 0"
  by (simp add: import_localities_def query_localities_def example_division_def
      example_cache_def blank_db_def import_locality_row_def insert_locations_def
      type_cache_def get_default_def dict_update_all_def display_name_def map_extract_def
      first_latin_value_def map_values_def name_ascii_of_def encode_ascii_ignore_def Let_def
      ascii_def)

text \<open>
  C7 (amended): during locality import, every record returned by the locality query whose
  latitude or longitude is missing (\<^verbatim>\<open>NULL\<close>) is left out of the locality and location tables
  and adds one to the skipped count (and one to the processed count), and the import goes
  on with the records after it: the result is that of the import without the record, with
  the two counters one higher. Coordinates that are present are not checked against any
  range.
\<close>

theorem missing_coordinate_skipped:
  assumes "query_localities [p] = [r]" and "q_lat r = None \<or> q_lng r = None"
  shows "import_localities d (ps1 @ p # ps2) source_id country_cache =
           (case import_localities d (ps1 @ ps2) source_id country_cache of
              (d', stats) \<Rightarrow>
                (d', stats\<lparr>skipped := skipped stats + 1, processed := processed stats + 1\<rparr>))"
proof -
  define step where "step = import_locality_row country_cache
      (type_cache (geo_locality_types d))
      (get_default (type_cache (geo_locality_types d)) (ascii ''locality'') 1) source_id"
  define init where "init = (d, [] :: (pystr \<times> real \<times> real) list,
      \<lparr>imported = 0, skipped = 0, processed = 0\<rparr>)"
  have q: "query_localities (ps1 @ p # ps2)
             = query_localities ps1 @ r # query_localities ps2"
    using assms(1) query_localities_Cons [of p ps2] by (simp add: query_localities_append)
  obtain d2 c2 s2 where without_p:
    "fold step (query_localities ps1 @ query_localities ps2) init = (d2, c2, s2)"
    by (metis prod_cases3)
  have with_p:
    "fold step (query_localities ps1 @ r # query_localities ps2) init
       = (d2, c2, count_skipped s2)"
    using import_locality_rows_skip_one [OF assms(2), of country_cache
        "type_cache (geo_locality_types d)"
        "get_default (type_cache (geo_locality_types d)) (ascii ''locality'') 1" source_id
        "query_localities ps1" "query_localities ps2" init] without_p
    unfolding step_def by simp
  have "import_localities d (ps1 @ p # ps2) source_id country_cache
          = (insert_locations source_id c2 d2, count_skipped s2)"
    unfolding import_localities_def Let_def q
    using with_p unfolding step_def init_def by simp
  moreover have "import_localities d (ps1 @ ps2) source_id country_cache
          = (insert_locations source_id c2 d2, s2)"
    unfolding import_localities_def Let_def query_localities_append
    using without_p unfolding step_def init_def by simp
  ultimately show ?thesis
    by (simp add: count_skipped_def)
qed

text \<open>A record with a longitude and no latitude, alone in the source: nothing is stored and
  the skipped count is 1.\<close>

theorem missing_coordinate_skipped_witness:
  "import_localities blank_db
       ([] @ example_division ''L1'' ''locality'' ''ZZ'' None (Some 5) None # []) 7
       (example_cache [''ZZ''])
     = (blank_db, \<lparr>imported = 0, skipped = 1, processed = 1\<rparr>)"
proof -
  let ?p = "example_division ''L1'' ''locality'' ''ZZ'' None (Some 5) None"
  let ?r = "\<lparr>q_overture_id = ascii ''L1'', q_parent_overture_id = None,
             q_country_code = Some (ascii ''ZZ''), q_subtype = ascii ''locality'',
             q_type_lookup = ascii ''locality'', q_name = ascii ''Name'',
             q_local_name = ascii ''Name'', q_lng = Some 5, q_lat = None,
             q_population = None\<rparr>"
  have q: "query_localities [?p] = [?r]"
    by (simp add: query_localities_def example_division_def display_name_def map_extract_def
        first_latin_value_def map_values_def)
  have m: "q_lat ?r = None \<or> q_lng ?r = None"
    by simp
  have e: "import_localities blank_db [] 7 (example_cache [''ZZ''])
             = (blank_db, \<lparr>imported = 0, skipped = 0, processed = 0\<rparr>)"
    by (simp add: import_localities_def query_localities_def insert_locations_def
        dict_update_all_def blank_db_def Let_def)
  show ?thesis
    using missing_coordinate_skipped [OF q m, of blank_db "[]" "[]" 7 "example_cache [''ZZ'']"]
    by (simp add: e)
qed

subsection \<open>Locality import: the ASCII name\<close>

lemma name_ascii_of_nonempty: "name \<noteq> [] \<Longrightarrow> name_ascii_of name local_name \<noteq> []"
  by (simp add: name_ascii_of_def)

lemma import_locality_row_localities:
  assumes "import_locality_row country_cache locality_type_cache fallback_type source_id r
             (d, coordinate_data, stats) = (d', coordinate_data', stats')"
  shows "geo_localities d' = geo_localities d
         \<or> (\<exists>l. geo_localities d' = geo_localities d @ [l]
                 \<and> gl_overture_id l = Some (q_overture_id r)
                 \<and> gl_name l = Some (q_name r)
                 \<and> gl_name_ascii l = Some (name_ascii_of (q_name r) (q_local_name r)))"
  using assms
  by (auto simp: import_locality_row_def Let_def split: option.splits if_splits)

lemma import_locality_rows_localities:
  assumes "fold (import_locality_row country_cache locality_type_cache fallback_type source_id)
             rs (d, coordinate_data, stats) = (d', coordinate_data', stats')"
  shows "\<exists>new. geo_localities d' = geo_localities d @ new
           \<and> (\<forall>l\<in>set new. \<exists>r\<in>set rs.
                  gl_overture_id l = Some (q_overture_id r)
                  \<and> gl_name l = Some (q_name r)
                  \<and> gl_name_ascii l = Some (name_ascii_of (q_name r) (q_local_name r)))"
  using assms
proof (induction rs arbitrary: d coordinate_data stats)
  case Nil
  then show ?case by simp
next
  case (Cons r rs)
  obtain d1 c1 s1 where step:
    "import_locality_row country_cache locality_type_cache fallback_type source_id r
       (d, coordinate_data, stats) = (d1, c1, s1)"
    by (metis prod_cases3)
  with Cons.prems have rest:
    "fold (import_locality_row country_cache locality_type_cache fallback_type source_id)
       rs (d1, c1, s1) = (d', coordinate_data', stats')"
    by simp
  from Cons.IH [OF rest] obtain new where new:
    "geo_localities d' = geo_localities d1 @ new"
    "\<forall>l\<in>set new. \<exists>r\<in>set rs.
        gl_overture_id l = Some (q_overture_id r)
        \<and> gl_name l = Some (q_name r)
        \<and> gl_name_ascii l = Some (name_ascii_of (q_name r) (q_local_name r))"
    by blast
  from import_locality_row_localities [OF step] show ?case
  proof
    assume "geo_localities d1 = geo_localities d"
    with new show ?thesis by auto
  next
    assume "\<exists>l. geo_localities d1 = geo_localities d @ [l]
                 \<and> gl_overture_id l = Some (q_overture_id r)
                 \<and> gl_name l = Some (q_name r)
                 \<and> gl_name_ascii l = Some (name_ascii_of (q_name r) (q_local_name r))"
    then obtain l where l: "geo_localities d1 = geo_localities d @ [l]"
      "gl_overture_id l = Some (q_overture_id r)" "gl_name l = Some (q_name r)"
      "gl_name_ascii l = Some (name_ascii_of (q_name r) (q_local_name r))"
      by blast
    have "geo_localities d' = geo_localities d @ (l # new)"
      using new(1) l(1) by simp
    moreover have "\<forall>l'\<in>set (l # new). \<exists>r'\<in>set (r # rs).
        gl_overture_id l' = Some (q_overture_id r')
        \<and> gl_name l' = Some (q_name r')
        \<and> gl_name_ascii l' = Some (name_ascii_of (q_name r') (q_local_name r'))"
      using new(2) l(2-4) by auto
    ultimately show ?thesis by blast
  qed
qed

lemma insert_locations_localities [simp]:
  "geo_localities (insert_locations source_id coordinate_data d) = geo_localities d"
  by (simp add: insert_locations_def Let_def)

text \<open>
  C10: every locality row that the import adds was written for a row of the locality
  query, with that row's display name, and its ASCII name is the display name without its
  non-ASCII characters when that is not empty, else the primary (local) name without its
  non-ASCII characters when that is not empty, else the display name itself; so the ASCII
  name is not empty when the display name is not.
\<close>

theorem name_ascii_fallback:
  assumes "import_localities d ps source_id country_cache = (d', stats)"
  shows "\<exists>new. geo_localities d' = geo_localities d @ new
           \<and> (\<forall>l\<in>set new. \<exists>r\<in>set (query_localities ps).
                  gl_overture_id l = Some (q_overture_id r)
                  \<and> gl_name l = Some (q_name r)
                  \<and> gl_name_ascii l =
                      Some (if filter (\<lambda>c. c < 128) (q_name r) \<noteq> []
                            then filter (\<lambda>c. c < 128) (q_name r)
                            else if filter (\<lambda>c. c < 128) (q_local_name r) \<noteq> []
                            then filter (\<lambda>c. c < 128) (q_local_name r)
                            else q_name r)
                  \<and> (q_name r \<noteq> [] \<longrightarrow> gl_name_ascii l \<noteq> Some []))"
proof -
  let ?step = "import_locality_row country_cache (type_cache (geo_locality_types d))
                 (get_default (type_cache (geo_locality_types d)) (ascii ''locality'') 1)
                 source_id"
  obtain d1 c1 s1 where run:
    "fold ?step (query_localities ps) (d, [], \<lparr>imported = 0, skipped = 0, processed = 0\<rparr>)
       = (d1, c1, s1)"
    by (metis prod_cases3)
  with assms have d': "d' = insert_locations source_id c1 d1"
    by (simp add: import_localities_def Let_def)
  from import_locality_rows_localities [OF run] obtain new where new:
    "geo_localities d1 = geo_localities d @ new"
    "\<forall>l\<in>set new. \<exists>r\<in>set (query_localities ps).
        gl_overture_id l = Some (q_overture_id r)
        \<and> gl_name l = Some (q_name r)
        \<and> gl_name_ascii l = Some (name_ascii_of (q_name r) (q_local_name r))"
    by blast
  have "\<forall>l\<in>set new. \<exists>r\<in>set (query_localities ps).
          gl_overture_id l = Some (q_overture_id r)
          \<and> gl_name l = Some (q_name r)
          \<and> gl_name_ascii l =
              Some (if filter (\<lambda>c. c < 128) (q_name r) \<noteq> []
                    then filter (\<lambda>c. c < 128) (q_name r)
                    else if filter (\<lambda>c. c < 128) (q_local_name r) \<noteq> []
                    then filter (\<lambda>c. c < 128) (q_local_name r)
                    else q_name r)
          \<and> (q_name r \<noteq> [] \<longrightarrow> gl_name_ascii l \<noteq> Some [])"
  proof
    fix l assume "l \<in> set new"
    with new(2) obtain r where r: "r \<in> set (query_localities ps)"
      "gl_overture_id l = Some (q_overture_id r)" "gl_name l = Some (q_name r)"
      "gl_name_ascii l = Some (name_ascii_of (q_name r) (q_local_name r))"
      by blast
    have "q_name r \<noteq> [] \<longrightarrow> gl_name_ascii l \<noteq> Some []"
      using r(4) name_ascii_of_nonempty [of "q_name r" "q_local_name r"] by simp
    moreover have "gl_name_ascii l =
              Some (if filter (\<lambda>c. c < 128) (q_name r) \<noteq> []
                    then filter (\<lambda>c. c < 128) (q_name r)
                    else if filter (\<lambda>c. c < 128) (q_local_name r) \<noteq> []
                    then filter (\<lambda>c. c < 128) (q_local_name r)
                    else q_name r)"
      using r(4) by (simp add: name_ascii_of_def encode_ascii_ignore_def)
    ultimately show "\<exists>r\<in>set (query_localities ps).
          gl_overture_id l = Some (q_overture_id r)
          \<and> gl_name l = Some (q_name r)
          \<and> gl_name_ascii l =
              Some (if filter (\<lambda>c. c < 128) (q_name r) \<noteq> []
                    then filter (\<lambda>c. c < 128) (q_name r)
                    else if filter (\<lambda>c. c < 128) (q_local_name r) \<noteq> []
                    then filter (\<lambda>c. c < 128) (q_local_name r)
                    else q_name r)
          \<and> (q_name r \<noteq> [] \<longrightarrow> gl_name_ascii l \<noteq> Some [])"
      using r(1-3) by blast
  qed
  with new(1) d' show ?thesis by auto
qed

text \<open>A locality whose only name is Hebrew: the row is stored under that name and its ASCII
  name is not empty.\<close>

theorem name_ascii_fallback_witness:
  "map gl_name (geo_localities (fst (import_localities blank_db
       [(example_division ''L1'' ''locality'' ''ZZ'' None (Some 1) (Some 2))
          \<lparr>p_names_primary := Some [1497, 1512]\<rparr>] 7 (example_cache [''ZZ'']))))
     = [Some [1497, 1512]]
   \<and> Some [] \<notin> set (map gl_name_ascii (geo_localities (fst (import_localities blank_db
       [(example_division ''L1'' ''locality'' ''ZZ'' None (Some 1) (Some 2))
          \<lparr>p_names_primary := Some [1497, 1512]\<rparr>] 7 (example_cache [''ZZ''])))))"
proof -
  let ?p = "(example_division ''L1'' ''locality'' ''ZZ'' None (Some 1) (Some 2))
              \<lparr>p_names_primary := Some [1497, 1512]\<rparr>"
  obtain d' stats where run:
    "import_localities blank_db [?p] 7 (example_cache [''ZZ'']) = (d', stats)"
    by (metis surj_pair)
  have names: "map gl_name (geo_localities d') = [Some [1497, 1512]]"
    using run
    by (auto simp: import_localities_def query_localities_def example_division_def
        example_cache_def blank_db_def import_locality_row_def insert_locations_def
        type_cache_def get_default_def dict_update_all_def display_name_def map_extract_def
        first_latin_value_def map_values_def Let_def)
  from name_ascii_fallback [OF run] obtain new where new:
    "geo_localities d' = geo_localities blank_db @ new"
    "\<forall>l\<in>set new. \<exists>r\<in>set (query_localities [?p]).
        gl_overture_id l = Some (q_overture_id r)
        \<and> gl_name l = Some (q_name r)
        \<and> gl_name_ascii l =
            Some (if filter (\<lambda>c. c < 128) (q_name r) \<noteq> []
                  then filter (\<lambda>c. c < 128) (q_name r)
                  else if filter (\<lambda>c. c < 128) (q_local_name r) \<noteq> []
                  then filter (\<lambda>c. c < 128) (q_local_name r)
                  else q_name r)
        \<and> (q_name r \<noteq> [] \<longrightarrow> gl_name_ascii l \<noteq> Some [])"
    by blast
  have all: "geo_localities d' = new"
    using new(1) by (simp add: blank_db_def)
  have "gl_name_ascii l \<noteq> Some []" if "l \<in> set new" for l
  proof -
    from that new(2) obtain r :: locality_result where r: "gl_name l = Some (q_name r)"
      "q_name r \<noteq> [] \<longrightarrow> gl_name_ascii l \<noteq> Some []"
      by blast
    have "gl_name l \<in> set (map gl_name (geo_localities d'))"
      using that all by simp
    then have "gl_name l = Some [1497, 1512]"
      using names by simp
    with r show ?thesis by auto
  qed
  then have "Some [] \<notin> set (map gl_name_ascii (geo_localities d'))"
    unfolding all by (metis (no_types, lifting) in_set_conv_nth length_map nth_map)
  with names run show ?thesis by simp
qed

subsection \<open>The Jerusalem override\<close>

text \<open>
  C9: the override is the identity on the store when the Jerusalem District region or the
  Judea and Samaria region does not exist. When both exist, it changes no table but the
  localities, keeps every locality row in its place, and for each of them: if its name is
  \<^verbatim>\<open>Jerusalem\<close> or \<^verbatim>\<open>East Jerusalem\<close>, its country is the country with code \<^verbatim>\<open>IL\<close>, and its
  raw parent id is the external id of the Judea and Samaria region, then only its raw
  parent id changes, to the external id of the Jerusalem District region; otherwise the row
  is unchanged.
\<close>

theorem override_jerusalem_frame:
  "((find (\<lambda>r. gr_code r = ascii ''IL-JERUSALEM-DISTRICT'') (geo_regions d) = None
      \<or> find (\<lambda>r. gr_code r = ascii ''IL-JUDEA-SAMARIA'') (geo_regions d) = None)
     \<longrightarrow> override_jerusalem_region d = d)
   \<and> (\<forall>jerusalem judea_samaria.
         find (\<lambda>r. gr_code r = ascii ''IL-JERUSALEM-DISTRICT'') (geo_regions d) = Some jerusalem
         \<longrightarrow> find (\<lambda>r. gr_code r = ascii ''IL-JUDEA-SAMARIA'') (geo_regions d)
               = Some judea_samaria
         \<longrightarrow> (override_jerusalem_region d)\<lparr>geo_localities := geo_localities d\<rparr> = d
             \<and> length (geo_localities (override_jerusalem_region d)) = length (geo_localities d)
             \<and> (\<forall>i<length (geo_localities d).
                   geo_localities (override_jerusalem_region d) ! i =
                     (if gl_name (geo_localities d ! i)
                           \<in> {Some (ascii ''Jerusalem''), Some (ascii ''East Jerusalem'')}
                         \<and> (\<exists>il. find (\<lambda>c. gc_code c = ascii ''IL'') (geo_countries d) = Some il
                                \<and> gl_country_id (geo_localities d ! i) = gc_id il)
                         \<and> (\<exists>oid. gl_parent_overture_id (geo_localities d ! i) = Some oid
                                \<and> gr_overture_id judea_samaria = Some oid)
                      then (geo_localities d ! i)
                             \<lparr>gl_parent_overture_id := gr_overture_id jerusalem\<rparr>
                      else geo_localities d ! i)))"
proof (intro conjI allI impI)
  assume "find (\<lambda>r. gr_code r = ascii ''IL-JERUSALEM-DISTRICT'') (geo_regions d) = None
      \<or> find (\<lambda>r. gr_code r = ascii ''IL-JUDEA-SAMARIA'') (geo_regions d) = None"
  then show "override_jerusalem_region d = d"
    by (auto simp: override_jerusalem_region_def split: option.splits)
next
  fix jerusalem judea_samaria
  assume j: "find (\<lambda>r. gr_code r = ascii ''IL-JERUSALEM-DISTRICT'') (geo_regions d)
               = Some jerusalem"
    and s: "find (\<lambda>r. gr_code r = ascii ''IL-JUDEA-SAMARIA'') (geo_regions d)
               = Some judea_samaria"
  show "(override_jerusalem_region d)\<lparr>geo_localities := geo_localities d\<rparr> = d"
    by (simp add: override_jerusalem_region_def j s)
  show "length (geo_localities (override_jerusalem_region d)) = length (geo_localities d)"
    by (simp add: override_jerusalem_region_def j s)
  fix i
  assume i: "i < length (geo_localities d)"
  let ?l = "geo_localities d ! i"
  have parent: "(gl_parent_overture_id ?l \<noteq> None
                  \<and> gl_parent_overture_id ?l = gr_overture_id judea_samaria)
                \<longleftrightarrow> (\<exists>oid. gl_parent_overture_id ?l = Some oid
                          \<and> gr_overture_id judea_samaria = Some oid)"
    by (cases "gl_parent_overture_id ?l") auto
  have country: "(case find (\<lambda>c. gc_code c = ascii ''IL'') (geo_countries d) of
                    None \<Rightarrow> False
                  | Some il \<Rightarrow> gl_country_id ?l = gc_id il)
                 \<longleftrightarrow> (\<exists>il. find (\<lambda>c. gc_code c = ascii ''IL'') (geo_countries d) = Some il
                           \<and> gl_country_id ?l = gc_id il)"
    by (cases "find (\<lambda>c. gc_code c = ascii ''IL'') (geo_countries d)") auto
  have name: "gl_name ?l \<in> set [Some (ascii ''Jerusalem''), Some (ascii ''East Jerusalem'')]
              \<longleftrightarrow> gl_name ?l \<in> {Some (ascii ''Jerusalem''), Some (ascii ''East Jerusalem'')}"
    by simp
  have "geo_localities (override_jerusalem_region d) ! i =
          (if gl_parent_overture_id ?l \<noteq> None
              \<and> gl_parent_overture_id ?l = gr_overture_id judea_samaria
              \<and> gl_name ?l \<in> set [Some (ascii ''Jerusalem''), Some (ascii ''East Jerusalem'')]
              \<and> (case find (\<lambda>c. gc_code c = ascii ''IL'') (geo_countries d) of
                    None \<Rightarrow> False
                  | Some il \<Rightarrow> gl_country_id ?l = gc_id il)
           then ?l\<lparr>gl_parent_overture_id := gr_overture_id jerusalem\<rparr>
           else ?l)"
    using i by (simp add: override_jerusalem_region_def j s del: set_simps)
  also have "\<dots> =
          (if gl_name ?l \<in> {Some (ascii ''Jerusalem''), Some (ascii ''East Jerusalem'')}
              \<and> (\<exists>il. find (\<lambda>c. gc_code c = ascii ''IL'') (geo_countries d) = Some il
                     \<and> gl_country_id ?l = gc_id il)
              \<and> (\<exists>oid. gl_parent_overture_id ?l = Some oid
                     \<and> gr_overture_id judea_samaria = Some oid)
           then ?l\<lparr>gl_parent_overture_id := gr_overture_id jerusalem\<rparr>
           else ?l)"
    using parent country name by (intro if_cong refl) blast
  finally show "geo_localities (override_jerusalem_region d) ! i =
          (if gl_name ?l \<in> {Some (ascii ''Jerusalem''), Some (ascii ''East Jerusalem'')}
              \<and> (\<exists>il. find (\<lambda>c. gc_code c = ascii ''IL'') (geo_countries d) = Some il
                     \<and> gl_country_id ?l = gc_id il)
              \<and> (\<exists>oid. gl_parent_overture_id ?l = Some oid
                     \<and> gr_overture_id judea_samaria = Some oid)
           then ?l\<lparr>gl_parent_overture_id := gr_overture_id jerusalem\<rparr>
           else ?l)" .
qed

text \<open>
  On the example store both regions exist; Jerusalem moves to the Jerusalem District
  region, Hebron stays under Judea and Samaria, and nothing else changes. Without any
  region the override changes nothing.
\<close>

theorem override_jerusalem_frame_witness:
  "override_jerusalem_region jerusalem_db =
     jerusalem_db\<lparr>geo_localities :=
       [example_locality 1 1 ''Jerusalem'' ''L1''
          (Some (ascii ''synthetic:IL-JERUSALEM-DISTRICT'')),
        example_locality 2 1 ''Hebron'' ''L2'' (Some (ascii ''synthetic:IL-JUDEA-SAMARIA''))]\<rparr>
   \<and> override_jerusalem_region blank_db = blank_db"
proof
  let ?jd = "example_region 2 1 ''IL-JERUSALEM-DISTRICT'' ''synthetic:IL-JERUSALEM-DISTRICT''"
  let ?js = "example_region 1 1 ''IL-JUDEA-SAMARIA'' ''synthetic:IL-JUDEA-SAMARIA''"
  let ?d' = "override_jerusalem_region jerusalem_db"
  have j: "find (\<lambda>r. gr_code r = ascii ''IL-JERUSALEM-DISTRICT'') (geo_regions jerusalem_db)
             = Some ?jd"
    and s: "find (\<lambda>r. gr_code r = ascii ''IL-JUDEA-SAMARIA'') (geo_regions jerusalem_db)
             = Some ?js"
    by (simp_all add: jerusalem_db_def blank_db_def example_region_def)
  have il: "find (\<lambda>c. gc_code c = ascii ''IL'') (geo_countries jerusalem_db)
              = Some (example_country 1 ''IL'' ''Israel'')"
    by (simp add: jerusalem_db_def blank_db_def example_country_def)
  have locs: "geo_localities jerusalem_db =
      [example_locality 1 1 ''Jerusalem'' ''L1'' (Some (ascii ''synthetic:IL-JUDEA-SAMARIA'')),
       example_locality 2 1 ''Hebron'' ''L2'' (Some (ascii ''synthetic:IL-JUDEA-SAMARIA''))]"
    by (simp add: jerusalem_db_def blank_db_def)
  from override_jerusalem_frame [of jerusalem_db] j s
  have frame: "?d'\<lparr>geo_localities := geo_localities jerusalem_db\<rparr> = jerusalem_db"
    and len: "length (geo_localities ?d') = length (geo_localities jerusalem_db)"
    and rows: "\<forall>i<length (geo_localities jerusalem_db).
       geo_localities ?d' ! i =
         (if gl_name (geo_localities jerusalem_db ! i)
               \<in> {Some (ascii ''Jerusalem''), Some (ascii ''East Jerusalem'')}
             \<and> (\<exists>il. find (\<lambda>c. gc_code c = ascii ''IL'') (geo_countries jerusalem_db) = Some il
                    \<and> gl_country_id (geo_localities jerusalem_db ! i) = gc_id il)
             \<and> (\<exists>oid. gl_parent_overture_id (geo_localities jerusalem_db ! i) = Some oid
                    \<and> gr_overture_id ?js = Some oid)
          then (geo_localities jerusalem_db ! i)\<lparr>gl_parent_overture_id := gr_overture_id ?jd\<rparr>
          else geo_localities jerusalem_db ! i)"
    by blast+
  have r0: "geo_localities ?d' ! 0 =
      example_locality 1 1 ''Jerusalem'' ''L1'' (Some (ascii ''synthetic:IL-JERUSALEM-DISTRICT''))"
    using rows [rule_format, of 0]
    by (simp add: locs il example_locality_def example_region_def example_country_def)
  have r1: "geo_localities ?d' ! 1 =
      example_locality 2 1 ''Hebron'' ''L2'' (Some (ascii ''synthetic:IL-JUDEA-SAMARIA''))"
    using rows [rule_format, of 1]
    by (simp add: locs il example_locality_def example_region_def example_country_def)
  have "length (geo_localities ?d') = 2"
    using len by (simp add: locs)
  then have "geo_localities ?d' = [geo_localities ?d' ! 0, geo_localities ?d' ! 1]"
    by (cases "geo_localities ?d'"; cases "tl (geo_localities ?d')") auto
  then have got: "geo_localities ?d' =
      [example_locality 1 1 ''Jerusalem'' ''L1''
         (Some (ascii ''synthetic:IL-JERUSALEM-DISTRICT'')),
       example_locality 2 1 ''Hebron'' ''L2'' (Some (ascii ''synthetic:IL-JUDEA-SAMARIA''))]"
    using r0 r1 by simp
  have "?d' = (?d'\<lparr>geo_localities := geo_localities jerusalem_db\<rparr>)
                \<lparr>geo_localities := geo_localities ?d'\<rparr>"
    by simp
  then show "?d' = jerusalem_db\<lparr>geo_localities :=
       [example_locality 1 1 ''Jerusalem'' ''L1''
          (Some (ascii ''synthetic:IL-JERUSALEM-DISTRICT'')),
        example_locality 2 1 ''Hebron'' ''L2'' (Some (ascii ''synthetic:IL-JUDEA-SAMARIA''))]\<rparr>"
    using frame got by simp
next
  have "find (\<lambda>r. gr_code r = ascii ''IL-JERUSALEM-DISTRICT'') (geo_regions blank_db) = None"
    by (simp add: blank_db_def)
  then show "override_jerusalem_region blank_db = blank_db"
    using override_jerusalem_frame [of blank_db] by blast
qed

subsection \<open>Remapping disputed territories\<close>

lemma remap_store_countries [simp]:
  "geo_countries (remap_store d si ti) = filter (\<lambda>c. gc_id c \<noteq> ce_id si) (geo_countries d)"
  by (simp add: remap_store_def Let_def)

lemma remap_store_regions [simp]:
  "geo_regions (remap_store d si ti) = remap_regions si ti (geo_regions d)"
  by (simp add: remap_store_def Let_def)

lemma remap_store_localities:
  "geo_localities (remap_store d si ti) =
     delete_locality
       (case country_level_locality d si ti of None \<Rightarrow> None | Some l \<Rightarrow> Some (gl_id l))
       (clear_parents
          (case country_level_locality d si ti of None \<Rightarrow> None | Some l \<Rightarrow> gl_overture_id l)
          (remap_localities si ti (geo_localities d)))"
  by (simp add: remap_store_def Let_def)

lemma delete_locality_subset: "set (delete_locality i rows) \<subseteq> set rows"
  by (auto simp: delete_locality_def split: option.splits)

lemma clear_parents_country:
  "l' \<in> set (clear_parents oid rows) \<Longrightarrow>
     \<exists>l\<in>set rows. gl_country_id l' = gl_country_id l \<and> gl_id l' = gl_id l
        \<and> (gl_parent_overture_id l' = gl_parent_overture_id l \<or> gl_parent_overture_id l' = None)"
  by (auto simp: clear_parents_def split: if_splits)

lemma remap_localities_country:
  "l' \<in> set (remap_localities si ti rows) \<Longrightarrow>
     \<exists>l\<in>set rows. gl_id l' = gl_id l \<and> gl_parent_overture_id l' = gl_parent_overture_id l
        \<and> (if gl_country_id l = ce_id si then gl_country_id l' = ce_id ti
            else gl_country_id l' = gl_country_id l)"
  by (auto simp: remap_localities_def)

lemma remap_store_locality_origin:
  assumes "l' \<in> set (geo_localities (remap_store d si ti))"
  shows "\<exists>l\<in>set (geo_localities d). gl_id l' = gl_id l
        \<and> (gl_parent_overture_id l' = gl_parent_overture_id l \<or> gl_parent_overture_id l' = None)
        \<and> (if gl_country_id l = ce_id si then gl_country_id l' = ce_id ti
            else gl_country_id l' = gl_country_id l)"
proof -
  from assms have "l' \<in> set (clear_parents
          (case country_level_locality d si ti of None \<Rightarrow> None | Some l \<Rightarrow> gl_overture_id l)
          (remap_localities si ti (geo_localities d)))"
    using delete_locality_subset unfolding remap_store_localities by blast
  then obtain l1 where l1: "l1 \<in> set (remap_localities si ti (geo_localities d))"
    "gl_country_id l' = gl_country_id l1" "gl_id l' = gl_id l1"
    "gl_parent_overture_id l' = gl_parent_overture_id l1 \<or> gl_parent_overture_id l' = None"
    using clear_parents_country by blast
  from remap_localities_country [OF l1(1)] obtain l where
    "l \<in> set (geo_localities d)" "gl_id l1 = gl_id l"
    "gl_parent_overture_id l1 = gl_parent_overture_id l"
    "if gl_country_id l = ce_id si then gl_country_id l1 = ce_id ti
            else gl_country_id l1 = gl_country_id l"
    by blast
  with l1 show ?thesis by (intro bexI [of _ l]) auto
qed

lemma remap_regions_country:
  "r' \<in> set (remap_regions si ti rows) \<Longrightarrow>
     \<exists>r\<in>set rows. (if gr_country_id r = ce_id si then gr_country_id r' = ce_id ti
            else gr_country_id r' = gr_country_id r)"
  by (auto simp: remap_regions_def)

lemma remap_store_gone:
  assumes "ce_id si \<noteq> ce_id ti"
  shows "country_gone (ce_id si) (remap_store d si ti)"
  unfolding country_gone_def
proof (intro conjI ballI)
  fix c assume "c \<in> set (geo_countries (remap_store d si ti))"
  then show "gc_id c \<noteq> ce_id si" by simp
next
  fix r assume "r \<in> set (geo_regions (remap_store d si ti))"
  then show "gr_country_id r \<noteq> ce_id si"
    using assms remap_regions_country [of r si ti "geo_regions d"] by (auto split: if_splits)
next
  fix l assume "l \<in> set (geo_localities (remap_store d si ti))"
  then show "gl_country_id l \<noteq> ce_id si"
    using assms remap_store_locality_origin [of l d si ti] by (auto split: if_splits)
qed

lemma remap_store_keeps_gone:
  assumes "country_gone x d" and "x \<noteq> ce_id ti"
  shows "country_gone x (remap_store d si ti)"
  unfolding country_gone_def
proof (intro conjI ballI)
  fix c assume "c \<in> set (geo_countries (remap_store d si ti))"
  then show "gc_id c \<noteq> x" using assms(1) by (simp add: country_gone_def)
next
  fix r assume "r \<in> set (geo_regions (remap_store d si ti))"
  then show "gr_country_id r \<noteq> x"
    using assms remap_regions_country [of r si ti "geo_regions d"]
    by (auto simp: country_gone_def split: if_splits)
next
  fix l assume "l \<in> set (geo_localities (remap_store d si ti))"
  then show "gl_country_id l \<noteq> x"
    using assms remap_store_locality_origin [of l d si ti]
    by (auto simp: country_gone_def split: if_splits)
qed

lemma remap_store_keeps_no_id:
  assumes "\<forall>l\<in>set (geo_localities d). gl_id l \<noteq> x"
  shows "\<forall>l\<in>set (geo_localities (remap_store d si ti)). gl_id l \<noteq> x"
  using assms remap_store_locality_origin [of _ d si ti] by metis

lemma remap_store_keeps_no_parent:
  assumes "\<forall>l\<in>set (geo_localities d). gl_parent_overture_id l \<noteq> Some oid"
  shows "\<forall>l\<in>set (geo_localities (remap_store d si ti)). gl_parent_overture_id l \<noteq> Some oid"
proof
  fix l' assume "l' \<in> set (geo_localities (remap_store d si ti))"
  from remap_store_locality_origin [OF this] obtain l where
    "l \<in> set (geo_localities d)"
    "gl_parent_overture_id l' = gl_parent_overture_id l \<or> gl_parent_overture_id l' = None"
    by blast
  with assms show "gl_parent_overture_id l' \<noteq> Some oid" by auto
qed

lemma remap_store_placeholder_deleted:
  assumes "country_level_locality d si ti = Some pl" and "gl_id pl \<noteq> 0"
  shows "\<forall>l\<in>set (geo_localities (remap_store d si ti)). gl_id l \<noteq> gl_id pl"
  using assms by (simp add: remap_store_localities delete_locality_def)

lemma clear_parents_cleared:
  "oid \<noteq> [] \<Longrightarrow> \<forall>l\<in>set (clear_parents (Some oid) rows). gl_parent_overture_id l \<noteq> Some oid"
  by (auto simp: clear_parents_def truthy_def)

lemma remap_store_placeholder_unreferenced:
  assumes "country_level_locality d si ti = Some pl"
    and "gl_overture_id pl = Some oid" and "oid \<noteq> []"
  shows "\<forall>l\<in>set (geo_localities (remap_store d si ti)). gl_parent_overture_id l \<noteq> Some oid"
  using assms clear_parents_cleared [of oid "remap_localities si ti (geo_localities d)"]
    delete_locality_subset
  unfolding remap_store_localities by (simp add: subset_iff)

lemma remap_regions_length [simp]: "length (remap_regions si ti rows) = length rows"
  by (simp add: remap_regions_def)

lemma remap_regions_nth_source:
  "i < length rows \<Longrightarrow> gr_country_id (rows ! i) = ce_id si \<Longrightarrow>
   gr_country_id (remap_regions si ti rows ! i) = ce_id ti
   \<and> gr_continent_id (remap_regions si ti rows ! i) = ce_continent_id ti"
  by (simp add: remap_regions_def)

lemma remap_regions_nth_other:
  "i < length rows \<Longrightarrow> gr_country_id (rows ! i) \<noteq> ce_id si \<Longrightarrow>
   remap_regions si ti rows ! i = rows ! i"
  by (simp add: remap_regions_def)

text \<open>One entry of the policy list: skipped, or run on the store.\<close>

lemma remap_country_cases:
  obtains (skipped) "remap_country (s, t) (d, cache) = (d, cache)"
      and "cache s = None \<or> cache t = None"
  | (run) si ti where "cache s = Some si" and "cache t = Some ti"
      and "remap_country (s, t) (d, cache) = (remap_store d si ti, cache(s := None))"
  by (cases "cache s"; cases "cache t") (auto simp: remap_country_def)

lemma remap_fold_keeps_gone:
  assumes "country_gone x d"
    and "\<forall>(s, t)\<in>set pol. \<forall>e. cache t = Some e \<longrightarrow> ce_id e \<noteq> x"
  shows "country_gone x (fst (fold remap_country pol (d, cache)))"
  using assms
proof (induction pol arbitrary: d cache)
  case Nil
  then show ?case by simp
next
  case (Cons e pol)
  obtain s t where e: "e = (s, t)" by (cases e)
  show ?case
  proof (cases rule: remap_country_cases [of s t d cache])
    case skipped
    with Cons show ?thesis by (simp add: e)
  next
    case (run si ti)
    have "x \<noteq> ce_id ti"
      using Cons.prems(2) run(2) by (auto simp: e)
    with Cons.prems(1) have g: "country_gone x (remap_store d si ti)"
      by (rule remap_store_keeps_gone)
    have "\<forall>(s', t')\<in>set pol. \<forall>e. (cache(s := None)) t' = Some e \<longrightarrow> ce_id e \<noteq> x"
      using Cons.prems(2) by (auto split: if_splits)
    from Cons.IH [OF g this]
    have "country_gone x (fst (fold remap_country pol (remap_store d si ti, cache(s := None))))" .
    moreover have "fold remap_country (e # pol) (d, cache)
        = fold remap_country pol (remap_store d si ti, cache(s := None))"
      by (simp add: e run(3))
    ultimately show ?thesis by (simp only:)
  qed
qed

lemma remap_fold_keeps_no_id:
  assumes "\<forall>l\<in>set (geo_localities d). gl_id l \<noteq> x"
  shows "\<forall>l\<in>set (geo_localities (fst (fold remap_country pol (d, cache)))). gl_id l \<noteq> x"
  using assms
proof (induction pol arbitrary: d cache)
  case Nil
  then show ?case by simp
next
  case (Cons e pol)
  obtain s t where e: "e = (s, t)" by (cases e)
  show ?case
  proof (cases rule: remap_country_cases [of s t d cache])
    case skipped
    with Cons show ?thesis by (simp add: e)
  next
    case (run si ti)
    have "fold remap_country (e # pol) (d, cache)
        = fold remap_country pol (remap_store d si ti, cache(s := None))"
      by (simp add: e run(3))
    with Cons.IH [OF remap_store_keeps_no_id [OF Cons.prems, of si ti], of "cache(s := None)"]
    show ?thesis by (simp only:)
  qed
qed

lemma remap_fold_keeps_no_parent:
  assumes "\<forall>l\<in>set (geo_localities d). gl_parent_overture_id l \<noteq> Some oid"
  shows "\<forall>l\<in>set (geo_localities (fst (fold remap_country pol (d, cache)))).
           gl_parent_overture_id l \<noteq> Some oid"
  using assms
proof (induction pol arbitrary: d cache)
  case Nil
  then show ?case by simp
next
  case (Cons e pol)
  obtain s t where e: "e = (s, t)" by (cases e)
  show ?case
  proof (cases rule: remap_country_cases [of s t d cache])
    case skipped
    with Cons show ?thesis by (simp add: e)
  next
    case (run si ti)
    have "fold remap_country (e # pol) (d, cache)
        = fold remap_country pol (remap_store d si ti, cache(s := None))"
      by (simp add: e run(3))
    with Cons.IH [OF remap_store_keeps_no_parent [OF Cons.prems, of si ti], of "cache(s := None)"]
    show ?thesis by (simp only:)
  qed
qed

text \<open>The cache only loses entries, and only those of source codes.\<close>

lemma remap_fold_cache_sub:
  "snd (fold remap_country pol (d, cache)) k = Some e \<Longrightarrow> cache k = Some e"
proof (induction pol arbitrary: d cache)
  case Nil
  then show ?case by simp
next
  case (Cons en pol)
  obtain s t where en: "en = (s, t)" by (cases en)
  show ?case
  proof (cases rule: remap_country_cases [of s t d cache])
    case skipped
    with Cons show ?thesis by (simp add: en)
  next
    case (run si ti)
    have step: "fold remap_country (en # pol) (d, cache)
        = fold remap_country pol (remap_store d si ti, cache(s := None))"
      by (simp add: en run(3))
    have "snd (fold remap_country pol (remap_store d si ti, cache(s := None))) k = Some e"
      using Cons.prems by (simp only: step)
    then have "(cache(s := None)) k = Some e"
      by (rule Cons.IH)
    then show ?thesis
      by (cases "k = s") simp_all
  qed
qed

lemma remap_fold_cache_other:
  "k \<notin> fst ` set pol \<Longrightarrow> snd (fold remap_country pol (d, cache)) k = cache k"
proof (induction pol arbitrary: d cache)
  case Nil
  then show ?case by simp
next
  case (Cons en pol)
  obtain s t where en: "en = (s, t)" by (cases en)
  have k: "k \<notin> fst ` set pol" "k \<noteq> s"
    using Cons.prems by (auto simp: en)
  show ?case
  proof (cases rule: remap_country_cases [of s t d cache])
    case skipped
    with Cons.IH [OF k(1), of d cache] show ?thesis by (simp add: en)
  next
    case (run si ti)
    have step: "fold remap_country (en # pol) (d, cache)
        = fold remap_country pol (remap_store d si ti, cache(s := None))"
      by (simp add: en run(3))
    have "snd (fold remap_country pol (remap_store d si ti, cache(s := None))) k
            = (cache(s := None)) k"
      using k(1) by (rule Cons.IH)
    also have "\<dots> = cache k"
      using k(2) by simp
    finally show ?thesis
      by (simp only: step)
  qed
qed

lemma remap_fold_region_kept:
  assumes "i < length (geo_regions d)"
    and "gr_country_id (geo_regions d ! i) = y"
    and "\<forall>(s, t)\<in>set pol. \<forall>e. cache s = Some e \<longrightarrow> ce_id e \<noteq> y"
  shows "length (geo_regions (fst (fold remap_country pol (d, cache)))) = length (geo_regions d)
         \<and> geo_regions (fst (fold remap_country pol (d, cache))) ! i = geo_regions d ! i"
  using assms
proof (induction pol arbitrary: d cache)
  case Nil
  then show ?case by simp
next
  case (Cons en pol)
  obtain s t where en: "en = (s, t)" by (cases en)
  show ?case
  proof (cases rule: remap_country_cases [of s t d cache])
    case skipped
    with Cons.IH [of d cache] Cons.prems show ?thesis by (simp add: en)
  next
    case (run si ti)
    have "ce_id si \<noteq> y"
      using Cons.prems(3) run(1) by (auto simp: en)
    then have same: "geo_regions (remap_store d si ti) ! i = geo_regions d ! i"
      using Cons.prems(1,2) by (simp add: remap_regions_nth_other)
    have rest: "\<forall>(s', t')\<in>set pol. \<forall>e. (cache(s := None)) s' = Some e \<longrightarrow> ce_id e \<noteq> y"
      using Cons.prems(3) by (auto split: if_splits)
    have "length (geo_regions (fst (fold remap_country pol (remap_store d si ti, cache(s := None)))))
            = length (geo_regions (remap_store d si ti))
          \<and> geo_regions (fst (fold remap_country pol (remap_store d si ti, cache(s := None)))) ! i
            = geo_regions (remap_store d si ti) ! i"
      using Cons.prems(1,2) same rest by (intro Cons.IH) simp_all
    moreover have "fold remap_country (en # pol) (d, cache)
        = fold remap_country pol (remap_store d si ti, cache(s := None))"
      by (simp add: en run(3))
    moreover have "length (geo_regions (remap_store d si ti)) = length (geo_regions d)"
      by simp
    ultimately show ?thesis
      using same by (simp only:)
  qed
qed

lemma remap_fold_regions_length:
  "length (geo_regions (fst (fold remap_country pol (d, cache)))) = length (geo_regions d)"
proof (induction pol arbitrary: d cache)
  case Nil
  then show ?case by simp
next
  case (Cons en pol)
  obtain s t where en: "en = (s, t)" by (cases en)
  show ?case
  proof (cases rule: remap_country_cases [of s t d cache])
    case skipped
    with Cons [of d cache] show ?thesis by (simp add: en)
  next
    case (run si ti)
    have "length (geo_regions (fst (fold remap_country pol
             (remap_store d si ti, cache(s := None)))))
          = length (geo_regions (remap_store d si ti))"
      by (rule Cons)
    moreover have "fold remap_country (en # pol) (d, cache)
        = fold remap_country pol (remap_store d si ti, cache(s := None))"
      by (simp add: en run(3))
    moreover have "length (geo_regions (remap_store d si ti)) = length (geo_regions d)"
      by simp
    ultimately show ?thesis
      by (simp only:)
  qed
qed

subsection \<open>The shape of the locality table after remapping\<close>

lemma same_locality_refl [simp]: "same_locality l l"
  by (simp add: same_locality_def)

lemma same_locality_trans:
  "same_locality l l' \<Longrightarrow> same_locality l' l'' \<Longrightarrow> same_locality l l''"
  unfolding same_locality_def by auto

lemma remap_row_same: "same_locality l (remap_row si ti oid l)"
  by (simp add: remap_row_def same_locality_def Let_def)

lemma remap_row_source:
  "gl_country_id l = ce_id si \<Longrightarrow>
   gl_country_id (remap_row si ti oid l) = ce_id ti
   \<and> gl_continent_id (remap_row si ti oid l) = ce_continent_id ti"
  by (simp add: remap_row_def Let_def)

lemma remap_row_other:
  "gl_country_id l \<noteq> ce_id si \<Longrightarrow>
   gl_country_id (remap_row si ti oid l) = gl_country_id l
   \<and> gl_continent_id (remap_row si ti oid l) = gl_continent_id l"
  by (simp add: remap_row_def Let_def)

lemma clear_remap_rows:
  "clear_parents oid (remap_localities si ti rows) = map (remap_row si ti oid) rows"
  by (simp add: clear_parents_def remap_localities_def remap_row_def Let_def)

lemma delete_locality_filter:
  "delete_locality i rows =
     filter (\<lambda>l. case i of None \<Rightarrow> True | Some j \<Rightarrow> j = 0 \<or> gl_id l \<noteq> j) rows"
  by (simp add: delete_locality_def split: option.splits)

lemma remap_store_shape:
  "\<exists>g keep. geo_localities (remap_store d si ti) = map g (filter keep (geo_localities d))
     \<and> (\<forall>l. same_locality l (g l)
            \<and> (gl_country_id l = ce_id si \<longrightarrow>
                 gl_country_id (g l) = ce_id ti \<and> gl_continent_id (g l) = ce_continent_id ti)
            \<and> (gl_country_id l \<noteq> ce_id si \<longrightarrow>
                 gl_country_id (g l) = gl_country_id l
                 \<and> gl_continent_id (g l) = gl_continent_id l))"
proof -
  let ?oid = "case country_level_locality d si ti of None \<Rightarrow> None | Some l \<Rightarrow> gl_overture_id l"
  let ?i = "case country_level_locality d si ti of None \<Rightarrow> None | Some l \<Rightarrow> Some (gl_id l)"
  let ?g = "remap_row si ti ?oid"
  let ?k = "\<lambda>l. case ?i of None \<Rightarrow> True | Some j \<Rightarrow> j = 0 \<or> gl_id l \<noteq> j"
  have "geo_localities (remap_store d si ti) = filter ?k (map ?g (geo_localities d))"
    unfolding remap_store_localities clear_remap_rows delete_locality_filter ..
  also have "\<dots> = map ?g (filter (?k \<circ> ?g) (geo_localities d))"
    by (rule filter_map)
  finally have "geo_localities (remap_store d si ti)
      = map ?g (filter (?k \<circ> ?g) (geo_localities d))" .
  moreover have "\<forall>l. same_locality l (?g l)
            \<and> (gl_country_id l = ce_id si \<longrightarrow>
                 gl_country_id (?g l) = ce_id ti \<and> gl_continent_id (?g l) = ce_continent_id ti)
            \<and> (gl_country_id l \<noteq> ce_id si \<longrightarrow>
                 gl_country_id (?g l) = gl_country_id l
                 \<and> gl_continent_id (?g l) = gl_continent_id l)"
    using remap_row_same remap_row_source remap_row_other by blast
  ultimately show ?thesis by blast
qed

lemma shape_compose:
  assumes "ys = map g1 (filter k1 xs)" and "zs = map g2 (filter k2 ys)"
  shows "zs = map (g2 \<circ> g1) (filter (\<lambda>x. k1 x \<and> k2 (g1 x)) xs)"
  using assms by (simp add: filter_map comp_def conj_commute)

lemma remap_fold_shape:
  assumes "\<forall>(s, t)\<in>set pol. \<forall>e. cache s = Some e \<longrightarrow> ce_id e \<noteq> y"
  shows "\<exists>g keep. geo_localities (fst (fold remap_country pol (d, cache)))
                    = map g (filter keep (geo_localities d))
     \<and> (\<forall>l. same_locality l (g l)
            \<and> (gl_country_id l = y \<longrightarrow>
                 gl_country_id (g l) = y \<and> gl_continent_id (g l) = gl_continent_id l))"
  using assms
proof (induction pol arbitrary: d cache)
  case Nil
  have "geo_localities d = map id (filter (\<lambda>_. True) (geo_localities d))" by simp
  moreover have "\<forall>l. same_locality l (id l)
            \<and> (gl_country_id l = y \<longrightarrow>
                 gl_country_id (id l) = y \<and> gl_continent_id (id l) = gl_continent_id l)"
    by simp
  ultimately show ?case
    by (metis fold_simps(1) fst_conv)
next
  case (Cons en pol)
  obtain s t where en: "en = (s, t)" by (cases en)
  show ?case
  proof (cases rule: remap_country_cases [of s t d cache])
    case skipped
    have "\<forall>(s', t')\<in>set pol. \<forall>e. cache s' = Some e \<longrightarrow> ce_id e \<noteq> y"
      using Cons.prems by auto
    from Cons.IH [OF this, of d] show ?thesis
      by (simp add: en skipped(1))
  next
    case (run si ti)
    have step: "fold remap_country (en # pol) (d, cache)
        = fold remap_country pol (remap_store d si ti, cache(s := None))"
      by (simp add: en run(3))
    have y: "ce_id si \<noteq> y"
      using Cons.prems run(1) by (auto simp: en)
    have rest: "\<forall>(s', t')\<in>set pol. \<forall>e. (cache(s := None)) s' = Some e \<longrightarrow> ce_id e \<noteq> y"
      using Cons.prems by (auto split: if_splits)
    from remap_store_shape [of d si ti] obtain g1 k1 where s1:
      "geo_localities (remap_store d si ti) = map g1 (filter k1 (geo_localities d))"
      "\<forall>l. same_locality l (g1 l)
            \<and> (gl_country_id l = ce_id si \<longrightarrow>
                 gl_country_id (g1 l) = ce_id ti \<and> gl_continent_id (g1 l) = ce_continent_id ti)
            \<and> (gl_country_id l \<noteq> ce_id si \<longrightarrow>
                 gl_country_id (g1 l) = gl_country_id l
                 \<and> gl_continent_id (g1 l) = gl_continent_id l)"
      by blast
    from Cons.IH [OF rest, of "remap_store d si ti"] obtain g2 k2 where s2:
      "geo_localities (fst (fold remap_country pol (remap_store d si ti, cache(s := None))))
         = map g2 (filter k2 (geo_localities (remap_store d si ti)))"
      "\<forall>l. same_locality l (g2 l)
            \<and> (gl_country_id l = y \<longrightarrow>
                 gl_country_id (g2 l) = y \<and> gl_continent_id (g2 l) = gl_continent_id l)"
      by blast
    have shape: "geo_localities (fst (fold remap_country (en # pol) (d, cache)))
        = map (g2 \<circ> g1) (filter (\<lambda>x. k1 x \<and> k2 (g1 x)) (geo_localities d))"
      unfolding step using s1(1) s2(1) by (rule shape_compose)
    have "\<forall>l. same_locality l ((g2 \<circ> g1) l)
            \<and> (gl_country_id l = y \<longrightarrow>
                 gl_country_id ((g2 \<circ> g1) l) = y
                 \<and> gl_continent_id ((g2 \<circ> g1) l) = gl_continent_id l)"
    proof
      fix l
      have a: "same_locality l (g1 l)" and b: "same_locality (g1 l) (g2 (g1 l))"
        using s1(2) s2(2) by blast+
      have "gl_country_id (g2 (g1 l)) = y \<and> gl_continent_id (g2 (g1 l)) = gl_continent_id l"
        if "gl_country_id l = y"
      proof -
        from that y have "gl_country_id l \<noteq> ce_id si" by simp
        with s1(2) have "gl_country_id (g1 l) = gl_country_id l"
          "gl_continent_id (g1 l) = gl_continent_id l" by blast+
        with that s2(2) show ?thesis by metis
      qed
      with same_locality_trans [OF a b]
      show "same_locality l ((g2 \<circ> g1) l)
            \<and> (gl_country_id l = y \<longrightarrow>
                 gl_country_id ((g2 \<circ> g1) l) = y
                 \<and> gl_continent_id ((g2 \<circ> g1) l) = gl_continent_id l)"
        by simp
    qed
    with shape show ?thesis by blast
  qed
qed

subsection \<open>One entry of the policy, after the whole loop\<close>

lemma remap_fold_entry:
  assumes dist: "distinct (map fst pol)"
    and disj: "fst ` set pol \<inter> snd ` set pol = {}"
    and mem: "(s, t) \<in> set pol"
    and cs: "cache s = Some si" and ct: "cache t = Some ti"
    and inj: "\<forall>a b ea eb. cache a = Some ea \<longrightarrow> cache b = Some eb \<longrightarrow> a \<noteq> b
                \<longrightarrow> ce_id ea \<noteq> ce_id eb"
    and run: "fold remap_country pol (d, cache) = (d', cache')"
  shows "country_gone (ce_id si) d'"
    and "cache' s = None"
    and "\<forall>i<length (geo_regions d). gr_country_id (geo_regions d ! i) = ce_id si \<longrightarrow>
           gr_country_id (geo_regions d' ! i) = ce_id ti
           \<and> gr_continent_id (geo_regions d' ! i) = ce_continent_id ti"
    and "\<exists>g keep. geo_localities d' = map g (filter keep (geo_localities d))
           \<and> (\<forall>l. same_locality l (g l)
                  \<and> (gl_country_id l = ce_id si \<longrightarrow>
                       gl_country_id (g l) = ce_id ti
                       \<and> gl_continent_id (g l) = ce_continent_id ti))"
    and "\<forall>pl. country_level_locality
                 (fst (fold remap_country (takeWhile (\<lambda>e. fst e \<noteq> s) pol) (d, cache))) si ti
               = Some pl \<longrightarrow>
           (gl_id pl \<noteq> 0 \<longrightarrow> (\<forall>l\<in>set (geo_localities d'). gl_id l \<noteq> gl_id pl))
           \<and> (\<forall>oid. gl_overture_id pl = Some oid \<longrightarrow> oid \<noteq> [] \<longrightarrow>
                  (\<forall>l\<in>set (geo_localities d'). gl_parent_overture_id l \<noteq> Some oid))"
proof -
  from mem obtain pre post where pol: "pol = pre @ (s, t) # post"
    by (meson split_list)
  have s_pre: "s \<notin> fst ` set pre" and s_post: "s \<notin> fst ` set post"
    using dist by (auto simp: pol)
  have t_src: "t \<notin> fst ` set pol"
    using disj mem by (metis disjoint_iff image_eqI snd_conv)
  have st: "s \<noteq> t"
    using t_src mem by (metis fst_conv image_eqI)
  have src_not_t: "s' \<noteq> t" if "(s', t') \<in> set pol" for s' t'
    using t_src that by (metis fst_conv image_eqI)
  have tgt_not_s: "t' \<noteq> s" if "(s', t') \<in> set pol" for s' t'
    using disj that mem by (metis disjoint_iff fst_conv image_eqI snd_conv)
  have src_pre_not_s: "s' \<noteq> s" if "(s', t') \<in> set pre" for s' t'
    using s_pre that by (metis fst_conv image_eqI)
  have tw: "takeWhile (\<lambda>e. fst e \<noteq> s) pol = pre"
    unfolding pol using s_pre by (subst takeWhile_append2) auto
  obtain d1 c1 where pre: "fold remap_country pre (d, cache) = (d1, c1)"
    by (metis surj_pair)
  have c1_sub: "cache k = Some e" if "c1 k = Some e" for k e
    using remap_fold_cache_sub [of pre d cache k e] that pre by simp
  have c1s: "c1 s = Some si"
    using remap_fold_cache_other [OF s_pre, of d cache] pre cs by simp
  have "t \<notin> fst ` set pre"
    using t_src by (auto simp: pol)
  then have c1t: "c1 t = Some ti"
    using remap_fold_cache_other [of t pre d cache] pre ct by simp
  define d2 where "d2 = remap_store d1 si ti"
  define c2 where "c2 = c1(s := None)"
  have step: "remap_country (s, t) (d1, c1) = (d2, c2)"
    by (simp add: remap_country_def c1s c1t d2_def c2_def)
  have post: "fold remap_country post (d2, c2) = (d', cache')"
    using run by (simp add: pol pre step)
  have c2_sub: "cache k = Some e" if "c2 k = Some e" for k e
    using that c1_sub by (auto simp: c2_def split: if_splits)
  have ids: "ce_id si \<noteq> ce_id ti"
    using inj cs ct st by blast
  \<comment> \<open>the source country is gone\<close>
  have "country_gone (ce_id si) d2"
    unfolding d2_def using ids by (rule remap_store_gone)
  moreover have "\<forall>(s', t')\<in>set post. \<forall>e. c2 t' = Some e \<longrightarrow> ce_id e \<noteq> ce_id si"
  proof (intro ballI, clarify)
    fix s' t' e assume m: "(s', t') \<in> set post" and e: "c2 t' = Some e"
      and eq: "ce_id e = ce_id si"
    have "t' \<noteq> s" using tgt_not_s [of s' t'] m by (simp add: pol)
    with inj c2_sub [OF e] cs have "ce_id e \<noteq> ce_id si" by blast
    with eq show False by simp
  qed
  ultimately have "country_gone (ce_id si) (fst (fold remap_country post (d2, c2)))"
    by (rule remap_fold_keeps_gone)
  then show "country_gone (ce_id si) d'"
    by (simp add: post)
  \<comment> \<open>the cache\<close>
  show "cache' s = None"
  proof (cases "cache' s")
    case (Some e)
    then have "c2 s = Some e"
      using remap_fold_cache_sub [of post d2 c2 s e] post by simp
    then show ?thesis by (simp add: c2_def)
  qed simp
  \<comment> \<open>the regions\<close>
  show "\<forall>i<length (geo_regions d). gr_country_id (geo_regions d ! i) = ce_id si \<longrightarrow>
           gr_country_id (geo_regions d' ! i) = ce_id ti
           \<and> gr_continent_id (geo_regions d' ! i) = ce_continent_id ti"
  proof (intro allI impI)
    fix i assume i: "i < length (geo_regions d)"
      and src: "gr_country_id (geo_regions d ! i) = ce_id si"
    have "\<forall>(s', t')\<in>set pre. \<forall>e. cache s' = Some e \<longrightarrow> ce_id e \<noteq> ce_id si"
    proof (intro ballI, clarify)
      fix s' t' e assume m: "(s', t') \<in> set pre" and e: "cache s' = Some e"
        and eq: "ce_id e = ce_id si"
      from src_pre_not_s [OF m] inj e cs have "ce_id e \<noteq> ce_id si" by blast
      with eq show False by simp
    qed
    from remap_fold_region_kept [OF i src this]
    have r1: "length (geo_regions d1) = length (geo_regions d)"
      "geo_regions d1 ! i = geo_regions d ! i"
      by (simp_all add: pre)
    have i1: "i < length (geo_regions d1)" using i r1 by simp
    have src1: "gr_country_id (geo_regions d1 ! i) = ce_id si" using src r1 by simp
    have r2: "gr_country_id (geo_regions d2 ! i) = ce_id ti"
      "gr_continent_id (geo_regions d2 ! i) = ce_continent_id ti"
      using remap_regions_nth_source [OF i1 src1, of ti] by (simp_all add: d2_def)
    have i2: "i < length (geo_regions d2)" using i1 by (simp add: d2_def)
    have "\<forall>(s', t')\<in>set post. \<forall>e. c2 s' = Some e \<longrightarrow> ce_id e \<noteq> ce_id ti"
    proof (intro ballI, clarify)
      fix s' t' e assume m: "(s', t') \<in> set post" and e: "c2 s' = Some e"
        and eq: "ce_id e = ce_id ti"
      have "s' \<noteq> t" using src_not_t [of s' t'] m by (simp add: pol)
      with inj c2_sub [OF e] ct have "ce_id e \<noteq> ce_id ti" by blast
      with eq show False by simp
    qed
    from remap_fold_region_kept [OF i2 r2(1) this]
    have "geo_regions d' ! i = geo_regions d2 ! i"
      by (simp add: post)
    with r2 show "gr_country_id (geo_regions d' ! i) = ce_id ti
           \<and> gr_continent_id (geo_regions d' ! i) = ce_continent_id ti"
      by simp
  qed
  \<comment> \<open>the localities\<close>
  show "\<exists>g keep. geo_localities d' = map g (filter keep (geo_localities d))
           \<and> (\<forall>l. same_locality l (g l)
                  \<and> (gl_country_id l = ce_id si \<longrightarrow>
                       gl_country_id (g l) = ce_id ti
                       \<and> gl_continent_id (g l) = ce_continent_id ti))"
  proof -
    have "\<forall>(s', t')\<in>set pre. \<forall>e. cache s' = Some e \<longrightarrow> ce_id e \<noteq> ce_id si"
    proof (intro ballI, clarify)
      fix s' t' e assume m: "(s', t') \<in> set pre" and e: "cache s' = Some e"
        and eq: "ce_id e = ce_id si"
      from src_pre_not_s [OF m] inj e cs have "ce_id e \<noteq> ce_id si" by blast
      with eq show False by simp
    qed
    from remap_fold_shape [OF this, of d] obtain g1 k1 where s1:
      "geo_localities d1 = map g1 (filter k1 (geo_localities d))"
      "\<forall>l. same_locality l (g1 l)
            \<and> (gl_country_id l = ce_id si \<longrightarrow>
                 gl_country_id (g1 l) = ce_id si \<and> gl_continent_id (g1 l) = gl_continent_id l)"
      unfolding pre fst_conv by blast
    from remap_store_shape [of d1 si ti] obtain g2 k2 where s2:
      "geo_localities d2 = map g2 (filter k2 (geo_localities d1))"
      "\<forall>l. same_locality l (g2 l)
            \<and> (gl_country_id l = ce_id si \<longrightarrow>
                 gl_country_id (g2 l) = ce_id ti \<and> gl_continent_id (g2 l) = ce_continent_id ti)
            \<and> (gl_country_id l \<noteq> ce_id si \<longrightarrow>
                 gl_country_id (g2 l) = gl_country_id l
                 \<and> gl_continent_id (g2 l) = gl_continent_id l)"
      unfolding d2_def by blast
    have "\<forall>(s', t')\<in>set post. \<forall>e. c2 s' = Some e \<longrightarrow> ce_id e \<noteq> ce_id ti"
    proof (intro ballI, clarify)
      fix s' t' e assume m: "(s', t') \<in> set post" and e: "c2 s' = Some e"
        and eq: "ce_id e = ce_id ti"
      have "s' \<noteq> t" using src_not_t [of s' t'] m by (simp add: pol)
      with inj c2_sub [OF e] ct have "ce_id e \<noteq> ce_id ti" by blast
      with eq show False by simp
    qed
    from remap_fold_shape [OF this, of d2] obtain g3 k3 where s3:
      "geo_localities d' = map g3 (filter k3 (geo_localities d2))"
      "\<forall>l. same_locality l (g3 l)
            \<and> (gl_country_id l = ce_id ti \<longrightarrow>
                 gl_country_id (g3 l) = ce_id ti \<and> gl_continent_id (g3 l) = gl_continent_id l)"
      unfolding post fst_conv by blast
    have s12: "geo_localities d2
        = map (g2 \<circ> g1) (filter (\<lambda>x. k1 x \<and> k2 (g1 x)) (geo_localities d))"
      using s1(1) s2(1) by (rule shape_compose)
    have shape: "geo_localities d'
        = map (g3 \<circ> (g2 \<circ> g1))
            (filter (\<lambda>x. (k1 x \<and> k2 (g1 x)) \<and> k3 ((g2 \<circ> g1) x)) (geo_localities d))"
      using s12 s3(1) by (rule shape_compose)
    have "\<forall>l. same_locality l ((g3 \<circ> (g2 \<circ> g1)) l)
                  \<and> (gl_country_id l = ce_id si \<longrightarrow>
                       gl_country_id ((g3 \<circ> (g2 \<circ> g1)) l) = ce_id ti
                       \<and> gl_continent_id ((g3 \<circ> (g2 \<circ> g1)) l) = ce_continent_id ti)"
    proof
      fix l
      have a: "same_locality l (g1 l)" and b: "same_locality (g1 l) (g2 (g1 l))"
        and c: "same_locality (g2 (g1 l)) (g3 (g2 (g1 l)))"
        using s1(2) s2(2) s3(2) by blast+
      have same: "same_locality l (g3 (g2 (g1 l)))"
        using same_locality_trans [OF same_locality_trans [OF a b] c] .
      have "gl_country_id (g3 (g2 (g1 l))) = ce_id ti
            \<and> gl_continent_id (g3 (g2 (g1 l))) = ce_continent_id ti"
        if "gl_country_id l = ce_id si"
      proof -
        from that s1(2) have "gl_country_id (g1 l) = ce_id si" by blast
        with s2(2) have "gl_country_id (g2 (g1 l)) = ce_id ti"
          "gl_continent_id (g2 (g1 l)) = ce_continent_id ti" by blast+
        with s3(2) show ?thesis by metis
      qed
      with same show "same_locality l ((g3 \<circ> (g2 \<circ> g1)) l)
                  \<and> (gl_country_id l = ce_id si \<longrightarrow>
                       gl_country_id ((g3 \<circ> (g2 \<circ> g1)) l) = ce_id ti
                       \<and> gl_continent_id ((g3 \<circ> (g2 \<circ> g1)) l) = ce_continent_id ti)"
        by simp
    qed
    with shape show ?thesis by blast
  qed
  \<comment> \<open>the country-level locality\<close>
  show "\<forall>pl. country_level_locality
                 (fst (fold remap_country (takeWhile (\<lambda>e. fst e \<noteq> s) pol) (d, cache))) si ti
               = Some pl \<longrightarrow>
           (gl_id pl \<noteq> 0 \<longrightarrow> (\<forall>l\<in>set (geo_localities d'). gl_id l \<noteq> gl_id pl))
           \<and> (\<forall>oid. gl_overture_id pl = Some oid \<longrightarrow> oid \<noteq> [] \<longrightarrow>
                  (\<forall>l\<in>set (geo_localities d'). gl_parent_overture_id l \<noteq> Some oid))"
  proof (intro allI impI conjI)
    fix pl
    assume "country_level_locality
              (fst (fold remap_country (takeWhile (\<lambda>e. fst e \<noteq> s) pol) (d, cache))) si ti
            = Some pl"
    then have pl: "country_level_locality d1 si ti = Some pl"
      by (simp add: tw pre)
    {
      assume "gl_id pl \<noteq> 0"
      with pl have "\<forall>l\<in>set (geo_localities d2). gl_id l \<noteq> gl_id pl"
        unfolding d2_def by (rule remap_store_placeholder_deleted)
      then have "\<forall>l\<in>set (geo_localities (fst (fold remap_country post (d2, c2)))).
                   gl_id l \<noteq> gl_id pl"
        by (rule remap_fold_keeps_no_id)
      then show "\<forall>l\<in>set (geo_localities d'). gl_id l \<noteq> gl_id pl"
        by (simp add: post)
    }
    {
      fix oid assume "gl_overture_id pl = Some oid" and "oid \<noteq> []"
      with pl have "\<forall>l\<in>set (geo_localities d2). gl_parent_overture_id l \<noteq> Some oid"
        unfolding d2_def by (rule remap_store_placeholder_unreferenced)
      then have "\<forall>l\<in>set (geo_localities (fst (fold remap_country post (d2, c2)))).
                   gl_parent_overture_id l \<noteq> Some oid"
        by (rule remap_fold_keeps_no_parent)
      then show "\<forall>l\<in>set (geo_localities d'). gl_parent_overture_id l \<noteq> Some oid"
        by (simp add: post)
    }
  qed
qed

text \<open>
  C3: for every entry (source code, target code) of the remap policy whose two countries
  are in the country cache (the cache giving different codes different ids, as it does
  when built from the country table), after the remap step: the country table, the
  region table and the locality table have no row with the source country's id, and the
  source code is not in the cache; every region that had the source country's id has the
  target country's id and continent, in the same place of the table; the locality table
  is the one before with some rows deleted and the others kept up to their country,
  continent and raw parent id (the parent id kept or cleared), each row of the source
  country now having the target country's id and continent; and the country-level
  locality found when the loop reached the entry (no raw parent id, named like the source
  country, under the target country) is no longer in the table, nor does any row have its
  external id as raw parent id. The last two read the id and the external id found with
  Python truth tests, so they are stated for an id other than 0 and a non-empty external
  id.
\<close>

theorem remap_disputed_territories_effect:
  assumes "(source_code, target_code) \<in> set COUNTRY_REMAPPING"
    and "country_cache source_code = Some source_info"
    and "country_cache target_code = Some target_info"
    and "\<forall>a b ea eb. country_cache a = Some ea \<longrightarrow> country_cache b = Some eb \<longrightarrow> a \<noteq> b
           \<longrightarrow> ce_id ea \<noteq> ce_id eb"
    and "remap_disputed_territories d country_cache = (d', country_cache')"
  shows "country_gone (ce_id source_info) d'
    \<and> country_cache' source_code = None
    \<and> (\<forall>i<length (geo_regions d).
          gr_country_id (geo_regions d ! i) = ce_id source_info \<longrightarrow>
            gr_country_id (geo_regions d' ! i) = ce_id target_info
            \<and> gr_continent_id (geo_regions d' ! i) = ce_continent_id target_info)
    \<and> (\<exists>g keep. geo_localities d' = map g (filter keep (geo_localities d))
          \<and> (\<forall>l. same_locality l (g l)
                 \<and> (gl_country_id l = ce_id source_info \<longrightarrow>
                      gl_country_id (g l) = ce_id target_info
                      \<and> gl_continent_id (g l) = ce_continent_id target_info)))
    \<and> (\<forall>pl. country_level_locality
                (fst (fold remap_country
                        (takeWhile (\<lambda>e. fst e \<noteq> source_code) COUNTRY_REMAPPING)
                        (d, country_cache)))
                source_info target_info = Some pl \<longrightarrow>
          (gl_id pl \<noteq> 0 \<longrightarrow> (\<forall>l\<in>set (geo_localities d'). gl_id l \<noteq> gl_id pl))
          \<and> (\<forall>oid. gl_overture_id pl = Some oid \<longrightarrow> oid \<noteq> [] \<longrightarrow>
                 (\<forall>l\<in>set (geo_localities d'). gl_parent_overture_id l \<noteq> Some oid)))"
proof -
  have dist: "distinct (map fst COUNTRY_REMAPPING)"
    and disj: "fst ` set COUNTRY_REMAPPING \<inter> snd ` set COUNTRY_REMAPPING = {}"
    by (simp_all add: COUNTRY_REMAPPING_def)
  have run: "fold remap_country COUNTRY_REMAPPING (d, country_cache) = (d', country_cache')"
    using assms(5) by (simp add: remap_disputed_territories_def split: if_splits)
  from remap_fold_entry [OF dist disj assms(1-4) run] show ?thesis
    by (intro conjI)
qed

text \<open>
  The West Bank (id 2) is remapped to Israel (id 1): its country row, its region and its
  localities no longer carry the id 2, its code has left the cache, the country-level
  locality \<open>West Bank\<close> (id 1) is deleted and Hebron, which pointed at it, has no raw
  parent id.
\<close>

theorem remap_disputed_territories_effect_witness:
  "country_gone 2 (fst (remap_disputed_territories west_bank_db (example_cache [''IL'', ''XW''])))
   \<and> snd (remap_disputed_territories west_bank_db (example_cache [''IL'', ''XW'']))
       (ascii ''XW'') = None
   \<and> map gc_code (geo_countries
        (fst (remap_disputed_territories west_bank_db (example_cache [''IL'', ''XW'']))))
       = [ascii ''IL'']
   \<and> map gr_country_id (geo_regions
        (fst (remap_disputed_territories west_bank_db (example_cache [''IL'', ''XW'']))))
       = [1]
   \<and> geo_localities
        (fst (remap_disputed_territories west_bank_db (example_cache [''IL'', ''XW''])))
       = [example_locality 2 1 ''Hebron'' ''L2'' None,
          example_locality 3 1 ''Haifa'' ''L3'' (Some (ascii ''R9''))]"
proof -
  let ?cache = "example_cache [''IL'', ''XW'']"
  obtain d' cache' where run: "remap_disputed_territories west_bank_db ?cache = (d', cache')"
    by (metis surj_pair)
  have m: "(ascii ''XW'', ascii ''IL'') \<in> set COUNTRY_REMAPPING"
    by (simp add: COUNTRY_REMAPPING_def)
  have cs: "?cache (ascii ''XW'') = Some \<lparr>ce_id = 2, ce_continent_id = Some 1\<rparr>"
    and ct: "?cache (ascii ''IL'') = Some \<lparr>ce_id = 1, ce_continent_id = Some 1\<rparr>"
    by (simp_all add: example_cache_def)
  have inj: "\<forall>a b ea eb. ?cache a = Some ea \<longrightarrow> ?cache b = Some eb \<longrightarrow> a \<noteq> b
           \<longrightarrow> ce_id ea \<noteq> ce_id eb"
    by (auto simp: example_cache_def split: if_splits)
  from remap_disputed_territories_effect [OF m cs ct inj run]
  have gone: "country_gone 2 d'" and cache: "cache' (ascii ''XW'') = None"
    by simp_all
  have eval: "d' = west_bank_db\<lparr>
       geo_countries := [example_country 1 ''IL'' ''Israel''],
       geo_regions := [(example_region 1 1 ''XW-R'' ''R1'')\<lparr>gr_continent_id := Some 1\<rparr>],
       geo_localities :=
         [example_locality 2 1 ''Hebron'' ''L2'' None,
          example_locality 3 1 ''Haifa'' ''L3'' (Some (ascii ''R9''))]\<rparr>"
    using run
    by (simp add: remap_disputed_territories_def COUNTRY_REMAPPING_def remap_country_def
        remap_store_def country_level_locality_def source_country_name_def
        remap_localities_def remap_regions_def clear_parents_def delete_locality_def
        truthy_def example_cache_def west_bank_db_def blank_db_def example_country_def
        example_region_def example_locality_def Let_def)
  show ?thesis
    unfolding run fst_conv snd_conv
    using gone cache by (simp add: eval example_country_def example_region_def)
qed

subsection \<open>The country of a region's parent\<close>

lemma import_top_region_effect:
  assumes "import_top_region c cache rt sid (oid, cc, reg, nm) (d, tlm, n) = (d', tlm', n')"
  shows "(geo_regions d' = geo_regions d \<and> tlm' = tlm
            \<and> geo_regions_id_seq d \<le> geo_regions_id_seq d')
         \<or> (\<exists>e new. cache cc = Some e \<and> geo_regions d' = geo_regions d @ [new]
               \<and> gr_id new = Suc (geo_regions_id_seq d)
               \<and> geo_regions_id_seq d' = Suc (geo_regions_id_seq d)
               \<and> gr_parent_region_id new = None \<and> gr_country_id new = ce_id e
               \<and> tlm' = tlm(oid \<mapsto> Suc (geo_regions_id_seq d)))"
proof (cases "cc = []")
  case True
  with assms show ?thesis by (simp add: import_top_region_def)
next
  case False
  show ?thesis
  proof (cases "cache cc")
    case None
    with assms False show ?thesis by (simp add: import_top_region_def)
  next
    case (Some e)
    let ?row = "\<lparr>gr_id = Suc (geo_regions_id_seq d), gr_country_id = ce_id e,
                 gr_continent_id = None, gr_parent_region_id = None, gr_region_type_id = rt,
                 gr_code = extract_region_code oid reg, gr_name = Some nm,
                 gr_overture_id = Some oid, gr_source_id = sid, gr_boundary = None\<rparr>"
    show ?thesis
    proof (cases "c ?row (geo_regions d)")
      case True
      with assms False Some show ?thesis
        by (auto simp: import_top_region_def insert_region_def Let_def)
    next
      case no: False
      with assms False Some have
        "geo_regions d' = geo_regions d @ [?row]"
        "geo_regions_id_seq d' = Suc (geo_regions_id_seq d)"
        "tlm' = tlm(oid \<mapsto> Suc (geo_regions_id_seq d))"
        by (auto simp: import_top_region_def insert_region_def Let_def)
      then show ?thesis
        using Some by (intro disjI2 exI [of _ e] exI [of _ ?row]) simp
    qed
  qed
qed

lemma import_sub_region_effect:
  assumes "import_sub_region c cache rtc sid tlm (oid, cc, reg, st, nm, parent) (d, sc, pr)
             = (d', sc', pr')"
  shows "(geo_regions d' = geo_regions d \<and> geo_regions_id_seq d \<le> geo_regions_id_seq d')
         \<or> (\<exists>e new. cache cc = Some e \<and> geo_regions d' = geo_regions d @ [new]
               \<and> gr_id new = Suc (geo_regions_id_seq d)
               \<and> geo_regions_id_seq d' = Suc (geo_regions_id_seq d)
               \<and> gr_country_id new = ce_id e
               \<and> gr_parent_region_id new =
                   (case parent of None \<Rightarrow> None
                    | Some pid \<Rightarrow> if pid = [] then None else tlm pid))"
proof (cases "cc = []")
  case True
  with assms show ?thesis by (simp add: import_sub_region_def)
next
  case False
  show ?thesis
  proof (cases "cache cc")
    case None
    with assms False show ?thesis by (simp add: import_sub_region_def)
  next
    case (Some e)
    let ?row = "\<lparr>gr_id = Suc (geo_regions_id_seq d), gr_country_id = ce_id e,
                 gr_continent_id = None,
                 gr_parent_region_id =
                   (case parent of None \<Rightarrow> None
                    | Some pid \<Rightarrow> if pid = [] then None else tlm pid),
                 gr_region_type_id =
                   get_default rtc st (get_default rtc (ascii ''county'') 2),
                 gr_code = extract_region_code oid reg, gr_name = Some nm,
                 gr_overture_id = Some oid, gr_source_id = sid, gr_boundary = None\<rparr>"
    show ?thesis
    proof (cases "c ?row (geo_regions d)")
      case True
      with assms False Some show ?thesis
        by (auto simp: import_sub_region_def insert_region_def Let_def)
    next
      case no: False
      with assms False Some have
        "geo_regions d' = geo_regions d @ [?row]"
        "geo_regions_id_seq d' = Suc (geo_regions_id_seq d)"
        by (auto simp: import_sub_region_def insert_region_def Let_def)
      then show ?thesis
        using Some by (intro disjI2 exI [of _ e] exI [of _ ?row]) simp
    qed
  qed
qed

lemma regions_wf_seq_grows:
  assumes "regions_wf d" and "geo_regions d' = geo_regions d"
    and "geo_regions_id_seq d \<le> geo_regions_id_seq d'"
  shows "regions_wf d'"
  using assms unfolding regions_wf_def region_ids_issued_def
  by (metis le_trans)

lemma regions_wf_append:
  assumes wf: "regions_wf d" and app: "geo_regions d' = geo_regions d @ [new]"
    and id: "gr_id new = Suc (geo_regions_id_seq d)"
    and seq: "geo_regions_id_seq d' = Suc (geo_regions_id_seq d)"
    and par: "\<forall>pid. gr_parent_region_id new = Some pid \<longrightarrow> pid \<le> geo_regions_id_seq d"
  shows "regions_wf d'"
proof -
  have old: "\<forall>r\<in>set (geo_regions d). gr_id r \<le> geo_regions_id_seq d
        \<and> (\<forall>pid. gr_parent_region_id r = Some pid \<longrightarrow> pid \<le> geo_regions_id_seq d)"
    and dist: "distinct (map gr_id (geo_regions d))"
    using wf by (simp_all add: regions_wf_def region_ids_issued_def)
  have "gr_id new \<notin> set (map gr_id (geo_regions d))"
    using old id by auto
  then have "distinct (map gr_id (geo_regions d'))"
    using dist app by simp
  moreover have "region_ids_issued d'"
    unfolding region_ids_issued_def app seq using old id par by (auto simp: le_Suc_eq)
  ultimately show ?thesis by (simp add: regions_wf_def)
qed

lemma parent_same_country_append:
  assumes wf: "regions_wf d" and psc: "parent_same_country d"
    and app: "geo_regions d' = geo_regions d @ [new]"
    and id: "gr_id new = Suc (geo_regions_id_seq d)"
    and par: "\<forall>pid. gr_parent_region_id new = Some pid \<longrightarrow>
                (\<exists>p\<in>set (geo_regions d). gr_id p = pid \<and> gr_country_id p = gr_country_id new)"
  shows "parent_same_country d'"
  unfolding parent_same_country_def
proof (intro ballI allI impI)
  fix r pid p
  assume r: "r \<in> set (geo_regions d')" and rp: "gr_parent_region_id r = Some pid"
    and p: "p \<in> set (geo_regions d')" and pp: "gr_id p = pid"
  have old: "\<forall>r\<in>set (geo_regions d). gr_id r \<le> geo_regions_id_seq d
        \<and> (\<forall>pid. gr_parent_region_id r = Some pid \<longrightarrow> pid \<le> geo_regions_id_seq d)"
    and dist: "distinct (map gr_id (geo_regions d))"
    using wf by (simp_all add: regions_wf_def region_ids_issued_def)
  show "gr_country_id p = gr_country_id r"
  proof (cases "r = new")
    case True
    with rp par obtain p0 where p0: "p0 \<in> set (geo_regions d)" "gr_id p0 = pid"
      "gr_country_id p0 = gr_country_id new"
      by blast
    have "pid \<le> geo_regions_id_seq d" using p0 old by auto
    then have "p \<noteq> new" using pp id by auto
    with p app have "p \<in> set (geo_regions d)" by auto
    with p0 pp dist have "p = p0"
      by (metis distinct_map inj_onD)
    with p0 True show ?thesis by simp
  next
    case False
    with r app have r_old: "r \<in> set (geo_regions d)" by auto
    with rp old have "pid \<le> geo_regions_id_seq d" by blast
    then have "p \<noteq> new" using pp id by auto
    with p app have "p \<in> set (geo_regions d)" by auto
    with psc r_old rp pp show ?thesis
      unfolding parent_same_country_def by blast
  qed
qed

lemma parent_same_country_same:
  "parent_same_country d \<Longrightarrow> geo_regions d' = geo_regions d \<Longrightarrow> parent_same_country d'"
  by (simp add: parent_same_country_def)

lemma top_level_ok_grows:
  "top_level_ok tops cache tlm d \<Longrightarrow> set (geo_regions d) \<subseteq> set (geo_regions d')
   \<Longrightarrow> top_level_ok tops cache tlm d'"
  unfolding top_level_ok_def by (meson subsetD)

lemma pass1_step:
  assumes wf: "regions_wf d"
    and nopar: "\<forall>r\<in>set (geo_regions d). gr_parent_region_id r = None"
    and ok: "top_level_ok tops cache tlm d"
    and row: "row \<in> set tops"
    and step: "import_top_region c cache rt sid row (d, tlm, n) = (d', tlm', n')"
  shows "regions_wf d' \<and> (\<forall>r\<in>set (geo_regions d'). gr_parent_region_id r = None)
         \<and> top_level_ok tops cache tlm' d'"
proof -
  obtain oid cc reg nm where r: "row = (oid, cc, reg, nm)"
    by (metis prod_cases4)
  from import_top_region_effect [OF step [unfolded r]] show ?thesis
  proof (elim disjE exE conjE)
    assume same: "geo_regions d' = geo_regions d" "tlm' = tlm"
      and seq: "geo_regions_id_seq d \<le> geo_regions_id_seq d'"
    have "regions_wf d'" using wf same(1) seq by (rule regions_wf_seq_grows)
    moreover have "top_level_ok tops cache tlm' d'"
      using ok same by (simp add: top_level_ok_def)
    ultimately show ?thesis using nopar same by simp
  next
    fix e new
    assume e: "cache cc = Some e" and app: "geo_regions d' = geo_regions d @ [new]"
      and id: "gr_id new = Suc (geo_regions_id_seq d)"
      and seq: "geo_regions_id_seq d' = Suc (geo_regions_id_seq d)"
      and par: "gr_parent_region_id new = None" and co: "gr_country_id new = ce_id e"
      and tlm': "tlm' = tlm(oid \<mapsto> Suc (geo_regions_id_seq d))"
    have "regions_wf d'"
      using wf app id seq par by (intro regions_wf_append [of d d' new]) simp_all
    moreover have "\<forall>r\<in>set (geo_regions d'). gr_parent_region_id r = None"
      using nopar par app by auto
    moreover have "top_level_ok tops cache tlm' d'"
      unfolding top_level_ok_def
    proof (intro allI impI)
      fix oid' i assume l: "tlm' oid' = Some i"
      show "\<exists>r\<in>set (geo_regions d'). gr_id r = i
           \<and> (\<exists>cc reg nm e. (oid', cc, reg, nm) \<in> set tops \<and> cache cc = Some e
                 \<and> gr_country_id r = ce_id e)"
      proof (cases "oid' = oid")
        case True
        with l tlm' have "i = Suc (geo_regions_id_seq d)" by simp
        moreover have "(oid', cc, reg, nm) \<in> set tops" using row r True by simp
        ultimately show ?thesis
          using app id e co by (intro bexI [of _ new]) auto
      next
        case False
        with l tlm' have "tlm oid' = Some i" by simp
        with ok obtain r0 where "r0 \<in> set (geo_regions d)" "gr_id r0 = i"
          "\<exists>cc reg nm e. (oid', cc, reg, nm) \<in> set tops \<and> cache cc = Some e
                 \<and> gr_country_id r0 = ce_id e"
          unfolding top_level_ok_def by blast
        then show ?thesis using app by (intro bexI [of _ r0]) auto
      qed
    qed
    ultimately show ?thesis by simp
  qed
qed

lemma pass1_fold:
  assumes "set rows \<subseteq> set tops"
    and "regions_wf d"
    and "\<forall>r\<in>set (geo_regions d). gr_parent_region_id r = None"
    and "top_level_ok tops cache tlm d"
    and "fold (import_top_region c cache rt sid) rows (d, tlm, n) = (d', tlm', n')"
  shows "regions_wf d' \<and> (\<forall>r\<in>set (geo_regions d'). gr_parent_region_id r = None)
         \<and> top_level_ok tops cache tlm' d'"
  using assms
proof (induction rows arbitrary: d tlm n)
  case Nil
  then show ?case by simp
next
  case (Cons row rows)
  obtain d1 tlm1 n1 where step:
    "import_top_region c cache rt sid row (d, tlm, n) = (d1, tlm1, n1)"
    by (metis prod_cases3)
  have row: "row \<in> set tops" and rows: "set rows \<subseteq> set tops"
    using Cons.prems(1) by auto
  from pass1_step [OF Cons.prems(2,3,4) row step]
  have inv: "regions_wf d1" "\<forall>r\<in>set (geo_regions d1). gr_parent_region_id r = None"
    "top_level_ok tops cache tlm1 d1"
    by simp_all
  have "fold (import_top_region c cache rt sid) rows (d1, tlm1, n1) = (d', tlm', n')"
    using Cons.prems(5) step by simp
  from Cons.IH [OF rows inv this] show ?case .
qed

lemma pass2_step:
  assumes wf: "regions_wf d" and psc: "parent_same_country d"
    and ok: "top_level_ok tops cache tlm d"
    and cons: "\<forall>top_id top_cc top_reg top_nm. (top_id, top_cc, top_reg, top_nm) \<in> set tops
                 \<longrightarrow> parent = Some top_id \<longrightarrow> cc = top_cc"
    and step: "import_sub_region c cache rtc sid tlm (oid, cc, reg, st, nm, parent) (d, sc, pr)
                 = (d', sc', pr')"
  shows "regions_wf d' \<and> parent_same_country d' \<and> top_level_ok tops cache tlm d'"
proof -
  from import_sub_region_effect [OF step] show ?thesis
  proof (elim disjE exE conjE)
    assume same: "geo_regions d' = geo_regions d"
      and seq: "geo_regions_id_seq d \<le> geo_regions_id_seq d'"
    have "regions_wf d'" using wf same seq by (rule regions_wf_seq_grows)
    moreover have "parent_same_country d'" using psc same by (rule parent_same_country_same)
    moreover have "top_level_ok tops cache tlm d'"
      using ok same by (simp add: top_level_ok_def)
    ultimately show ?thesis by simp
  next
    fix e new
    assume e: "cache cc = Some e" and app: "geo_regions d' = geo_regions d @ [new]"
      and id: "gr_id new = Suc (geo_regions_id_seq d)"
      and seq: "geo_regions_id_seq d' = Suc (geo_regions_id_seq d)"
      and co: "gr_country_id new = ce_id e"
      and par: "gr_parent_region_id new =
                   (case parent of None \<Rightarrow> None
                    | Some pid \<Rightarrow> if pid = [] then None else tlm pid)"
    have old: "\<forall>r\<in>set (geo_regions d). gr_id r \<le> geo_regions_id_seq d"
      using wf by (simp add: regions_wf_def region_ids_issued_def)
    have parent_row: "\<exists>p\<in>set (geo_regions d). gr_id p = pid
                        \<and> gr_country_id p = gr_country_id new"
      if "gr_parent_region_id new = Some pid" for pid
    proof -
      from that par obtain poid where poid: "parent = Some poid" "tlm poid = Some pid"
        by (auto split: option.splits if_splits)
      with ok obtain p cc_t reg_t nm_t e_t where p: "p \<in> set (geo_regions d)" "gr_id p = pid"
        "(poid, cc_t, reg_t, nm_t) \<in> set tops" "cache cc_t = Some e_t"
        "gr_country_id p = ce_id e_t"
        unfolding top_level_ok_def by blast
      from cons p(3) poid(1) have "cc = cc_t" by blast
      with e p(4) have "e_t = e" by simp
      with p co show ?thesis by auto
    qed
    have "regions_wf d'"
    proof (rule regions_wf_append [OF wf app id seq], intro allI impI)
      fix pid assume "gr_parent_region_id new = Some pid"
      from parent_row [OF this] old show "pid \<le> geo_regions_id_seq d" by auto
    qed
    moreover have "parent_same_country d'"
      using parent_row by (intro parent_same_country_append [OF wf psc app id]) blast
    moreover have "top_level_ok tops cache tlm d'"
      using ok app by (intro top_level_ok_grows [of tops cache tlm d d']) auto
    ultimately show ?thesis by simp
  qed
qed

lemma pass2_fold:
  assumes "\<forall>oid cc reg st nm parent. (oid, cc, reg, st, nm, parent) \<in> set rows \<longrightarrow>
             (\<forall>top_id top_cc top_reg top_nm. (top_id, top_cc, top_reg, top_nm) \<in> set tops
                 \<longrightarrow> parent = Some top_id \<longrightarrow> cc = top_cc)"
    and "regions_wf d" and "parent_same_country d" and "top_level_ok tops cache tlm d"
    and "fold (import_sub_region c cache rtc sid tlm) rows (d, sc, pr) = (d', sc', pr')"
  shows "regions_wf d' \<and> parent_same_country d'"
  using assms
proof (induction rows arbitrary: d sc pr)
  case Nil
  then show ?case by simp
next
  case (Cons row rows)
  obtain oid cc reg st nm parent where row: "row = (oid, cc, reg, st, nm, parent)"
    by (metis prod_cases6)
  obtain d1 sc1 pr1 where step:
    "import_sub_region c cache rtc sid tlm (oid, cc, reg, st, nm, parent) (d, sc, pr)
       = (d1, sc1, pr1)"
    by (metis prod_cases3)
  have cons: "\<forall>top_id top_cc top_reg top_nm. (top_id, top_cc, top_reg, top_nm) \<in> set tops
                 \<longrightarrow> parent = Some top_id \<longrightarrow> cc = top_cc"
    using Cons.prems(1) [rule_format, of oid cc reg st nm parent] by (simp add: row)
  have rest: "\<forall>oid cc reg st nm parent. (oid, cc, reg, st, nm, parent) \<in> set rows \<longrightarrow>
             (\<forall>top_id top_cc top_reg top_nm. (top_id, top_cc, top_reg, top_nm) \<in> set tops
                 \<longrightarrow> parent = Some top_id \<longrightarrow> cc = top_cc)"
    using Cons.prems(1) by simp
  from pass2_step [OF Cons.prems(2,3,4) cons step]
  have inv: "regions_wf d1" "parent_same_country d1" "top_level_ok tops cache tlm d1"
    by simp_all
  have "fold (import_sub_region c cache rtc sid tlm) rows (d1, sc1, pr1) = (d', sc', pr')"
    using Cons.prems(5) step by (simp add: row)
  from Cons.IH [OF rest inv this] show ?case .
qed

lemma import_regions_invariant:
  assumes empty: "geo_regions d = []" and cons: "sub_regions_consistent ps"
  shows "regions_wf (fst (import_regions c d ps sid cache))
         \<and> parent_same_country (fst (import_regions c d ps sid cache))"
proof -
  let ?rtc = "type_cache (geo_region_types d)"
  let ?rt = "get_default ?rtc (ascii ''region'') 1"
  obtain d1 tlm n where p1:
    "fold (import_top_region c cache ?rt sid) (query_top ps) (d, Map.empty, 0) = (d1, tlm, n)"
    by (metis prod_cases3)
  obtain d2 sc pr where p2:
    "fold (import_sub_region c cache ?rtc sid tlm) (query_sub ps) (d1, 0, 0) = (d2, sc, pr)"
    by (metis prod_cases3)
  have r: "fst (import_regions c d ps sid cache) = d2"
    using p1 p2 by (simp add: import_regions_def Let_def)
  have wf0: "regions_wf d"
    and np0: "\<forall>r\<in>set (geo_regions d). gr_parent_region_id r = None"
    and ok0: "top_level_ok (query_top ps) cache Map.empty d"
    using empty by (simp_all add: regions_wf_def region_ids_issued_def top_level_ok_def)
  from pass1_fold [OF subset_refl wf0 np0 ok0 p1]
  have inv1: "regions_wf d1" "\<forall>r\<in>set (geo_regions d1). gr_parent_region_id r = None"
    "top_level_ok (query_top ps) cache tlm d1"
    by simp_all
  have psc1: "parent_same_country d1"
    using inv1(2) by (simp add: parent_same_country_def)
  have cons': "\<forall>oid cc reg st nm parent. (oid, cc, reg, st, nm, parent) \<in> set (query_sub ps) \<longrightarrow>
             (\<forall>top_id top_cc top_reg top_nm.
                 (top_id, top_cc, top_reg, top_nm) \<in> set (query_top ps)
                 \<longrightarrow> parent = Some top_id \<longrightarrow> cc = top_cc)"
    using cons unfolding sub_regions_consistent_def .
  from pass2_fold [OF cons' inv1(1) psc1 inv1(3) p2] show ?thesis
    by (simp add: r)
qed

subsection \<open>Synthesis: what one group does\<close>

lemma synth_group_effect:
  assumes step: "synth_group cache tyid srcid (cc, ids) (d, created, n) = (d', created', n')"
    and sr: "synthetic_region_of d cc = (code, name, target)"
  shows "(cache target = None \<and> d' = d \<and> created' = created)
    \<or> (\<exists>e. cache target = Some e
         \<and> geo_countries d' = geo_countries d
         \<and> geo_localities d' =
             map (\<lambda>l. if gl_id l \<in> set ids
                       then l\<lparr>gl_parent_overture_id := Some (ascii ''synthetic:'' @ code)\<rparr>
                       else l) (geo_localities d)
         \<and> ((geo_regions d' = geo_regions d
                \<and> geo_regions_id_seq d' = geo_regions_id_seq d
                \<and> (created code \<noteq> None \<or> (\<exists>r\<in>set (geo_regions d). gr_code r = code)))
             \<or> (\<exists>new. geo_regions d' = geo_regions d @ [new]
                   \<and> gr_id new = Suc (geo_regions_id_seq d)
                   \<and> geo_regions_id_seq d' = Suc (geo_regions_id_seq d)
                   \<and> gr_parent_region_id new = None
                   \<and> gr_code new = code
                   \<and> gr_overture_id new = Some (ascii ''synthetic:'' @ code)
                   \<and> gr_country_id new = ce_id e))
         \<and> (\<forall>k. created' k \<noteq> None \<longleftrightarrow> k = code \<or> created k \<noteq> None))"
proof (cases "cache target")
  case None
  with step sr show ?thesis by (simp add: synth_group_def)
next
  case (Some e)
  show ?thesis
  proof (cases "created code")
    case in_cache: (Some i)
    from step sr Some in_cache have
      "d' = d\<lparr>geo_localities :=
             map (\<lambda>l. if gl_id l \<in> set ids
                       then l\<lparr>gl_parent_overture_id := Some (ascii ''synthetic:'' @ code)\<rparr>
                       else l) (geo_localities d)\<rparr>"
      "created' = created"
      by (simp_all add: synth_group_def Let_def)
    then show ?thesis
      using Some in_cache by (intro disjI2 exI [of _ e]) auto
  next
    case not_cached: None
    show ?thesis
    proof (cases "find (\<lambda>r. gr_code r = code) (geo_regions d)")
      case found: (Some row)
      from step sr Some not_cached found have
        "d' = d\<lparr>geo_localities :=
               map (\<lambda>l. if gl_id l \<in> set ids
                         then l\<lparr>gl_parent_overture_id := Some (ascii ''synthetic:'' @ code)\<rparr>
                         else l) (geo_localities d)\<rparr>"
        "created' = created(code \<mapsto> gr_id row)"
        by (simp_all add: synth_group_def Let_def)
      moreover have "\<exists>r\<in>set (geo_regions d). gr_code r = code"
        using found by (auto simp: find_Some_iff)
      ultimately show ?thesis
        using Some by (intro disjI2 exI [of _ e]) auto
    next
      case missing: None
      let ?new = "\<lparr>gr_id = Suc (geo_regions_id_seq d), gr_country_id = ce_id e,
                   gr_continent_id = ce_continent_id e, gr_parent_region_id = None,
                   gr_region_type_id = tyid, gr_code = code, gr_name = name,
                   gr_overture_id = Some (ascii ''synthetic:'' @ code),
                   gr_source_id = srcid, gr_boundary = None\<rparr>"
      from step sr Some not_cached missing have
        "d' = d\<lparr>geo_regions := geo_regions d @ [?new],
               geo_regions_id_seq := Suc (geo_regions_id_seq d),
               geo_localities :=
               map (\<lambda>l. if gl_id l \<in> set ids
                         then l\<lparr>gl_parent_overture_id := Some (ascii ''synthetic:'' @ code)\<rparr>
                         else l) (geo_localities d)\<rparr>"
        "created' = created(code \<mapsto> Suc (geo_regions_id_seq d))"
        by (simp_all add: synth_group_def Let_def)
      then have "geo_countries d' = geo_countries d"
        "geo_localities d' =
             map (\<lambda>l. if gl_id l \<in> set ids
                       then l\<lparr>gl_parent_overture_id := Some (ascii ''synthetic:'' @ code)\<rparr>
                       else l) (geo_localities d)"
        "geo_regions d' = geo_regions d @ [?new]"
        "geo_regions_id_seq d' = Suc (geo_regions_id_seq d)"
        "\<forall>k. created' k \<noteq> None \<longleftrightarrow> k = code \<or> created k \<noteq> None"
        by simp_all
      then show ?thesis
        using Some
        by (intro disjI2 exI [of _ e] conjI disjI2 exI [of _ ?new]) simp_all
    qed
  qed
qed

lemma synth_group_regions:
  assumes step: "synth_group cache tyid srcid (cc, ids) (d, created, n) = (d', created', n')"
  shows "(geo_regions d' = geo_regions d \<and> geo_regions_id_seq d' = geo_regions_id_seq d)
    \<or> (\<exists>new. geo_regions d' = geo_regions d @ [new]
           \<and> gr_id new = Suc (geo_regions_id_seq d)
           \<and> geo_regions_id_seq d' = Suc (geo_regions_id_seq d)
           \<and> gr_parent_region_id new = None)"
proof -
  obtain code name target where sr: "synthetic_region_of d cc = (code, name, target)"
    by (metis prod_cases3)
  from synth_group_effect [OF step sr] show ?thesis
    by (elim disjE exE conjE) auto
qed

lemma synth_fold_regions_inv:
  assumes "regions_wf d" and "parent_same_country d"
    and "fold (synth_group cache tyid srcid) gs (d, created, n) = (d', created', n')"
  shows "regions_wf d' \<and> parent_same_country d'"
  using assms
proof (induction gs arbitrary: d created n)
  case Nil
  then show ?case by simp
next
  case (Cons g gs)
  obtain cc ids where g: "g = (cc, ids)" by (cases g)
  obtain d1 created1 n1 where step:
    "synth_group cache tyid srcid (cc, ids) (d, created, n) = (d1, created1, n1)"
    by (metis prod_cases3)
  have rest: "fold (synth_group cache tyid srcid) gs (d1, created1, n1) = (d', created', n')"
    using Cons.prems(3) step by (simp add: g)
  have "regions_wf d1 \<and> parent_same_country d1"
    using synth_group_regions [OF step]
  proof (elim disjE exE conjE)
    assume same: "geo_regions d1 = geo_regions d"
      "geo_regions_id_seq d1 = geo_regions_id_seq d"
    have "regions_wf d1"
      using Cons.prems(1) same by (intro regions_wf_seq_grows [of d d1]) simp_all
    moreover have "parent_same_country d1"
      using Cons.prems(2) same(1) by (rule parent_same_country_same)
    ultimately show ?thesis by simp
  next
    fix new
    assume app: "geo_regions d1 = geo_regions d @ [new]"
      and id: "gr_id new = Suc (geo_regions_id_seq d)"
      and seq: "geo_regions_id_seq d1 = Suc (geo_regions_id_seq d)"
      and par: "gr_parent_region_id new = None"
    have "regions_wf d1"
      using par by (intro regions_wf_append [OF Cons.prems(1) app id seq]) simp
    moreover have "parent_same_country d1"
      using par by (intro parent_same_country_append [OF Cons.prems(1,2) app id]) simp
    ultimately show ?thesis by simp
  qed
  then show ?case
    using Cons.IH [OF _ _ rest] by blast
qed

lemma get_synthetic_source_frame [simp]:
  "geo_regions (snd (get_synthetic_source d)) = geo_regions d"
  "geo_regions_id_seq (snd (get_synthetic_source d)) = geo_regions_id_seq d"
  "geo_localities (snd (get_synthetic_source d)) = geo_localities d"
  "geo_countries (snd (get_synthetic_source d)) = geo_countries d"
  "geo_region_types (snd (get_synthetic_source d)) = geo_region_types d"
  "geo_region_types_id_seq (snd (get_synthetic_source d)) = geo_region_types_id_seq d"
  by (simp_all add: get_synthetic_source_def Let_def split: option.splits)

lemma get_locality_group_type_frame [simp]:
  "geo_regions (snd (get_locality_group_type d)) = geo_regions d"
  "geo_regions_id_seq (snd (get_locality_group_type d)) = geo_regions_id_seq d"
  "geo_localities (snd (get_locality_group_type d)) = geo_localities d"
  "geo_countries (snd (get_locality_group_type d)) = geo_countries d"
  by (simp_all add: get_locality_group_type_def Let_def split: option.splits)

text \<open>The store on which the orphan sweep runs: after the two look-ups.\<close>

lemma create_synthetic_regions_unfold:
  "create_synthetic_regions d0 cache =
     (let d = snd (get_locality_group_type (snd (get_synthetic_source d0)));
          groups = find_orphans d
      in if sum_list (map (\<lambda>(country_code, ids). length ids) groups) = 0 then d
         else fst (fold (synth_group cache
                           (fst (get_locality_group_type (snd (get_synthetic_source d0))))
                           (fst (get_synthetic_source d0)))
                     (sort_key (\<lambda>(country_code, ids). - int (length ids)) groups)
                     (d, Map.empty, 0)))"
  by (simp add: create_synthetic_regions_def Let_def split: prod.splits)

lemma create_synthetic_regions_inv:
  assumes "regions_wf d" and "parent_same_country d"
  shows "regions_wf (create_synthetic_regions d cache)
         \<and> parent_same_country (create_synthetic_regions d cache)"
proof -
  let ?d = "snd (get_locality_group_type (snd (get_synthetic_source d)))"
  let ?run = "fold (synth_group cache
                         (fst (get_locality_group_type (snd (get_synthetic_source d))))
                         (fst (get_synthetic_source d)))
                   (sort_key (\<lambda>(country_code, ids). - int (length ids)) (find_orphans ?d))
                   (?d, Map.empty, 0)"
  have wf: "regions_wf ?d"
    using assms(1) by (simp add: regions_wf_def region_ids_issued_def)
  have psc: "parent_same_country ?d"
    using assms(2) by (simp add: parent_same_country_def)
  obtain d' created' n' where run: "?run = (d', created', n')"
    by (metis prod_cases3)
  have "create_synthetic_regions d cache = ?d \<or> create_synthetic_regions d cache = fst ?run"
    unfolding create_synthetic_regions_unfold Let_def by (rule if_split [THEN iffD2]) simp
  then show ?thesis
    using wf psc synth_fold_regions_inv [OF wf psc run] run by auto
qed

lemma remap_store_regions_inv:
  assumes "regions_wf d" and "parent_same_country d"
  shows "regions_wf (remap_store d si ti) \<and> parent_same_country (remap_store d si ti)"
proof -
  let ?f = "\<lambda>r. if gr_country_id r = ce_id si
               then r\<lparr>gr_country_id := ce_id ti, gr_continent_id := ce_continent_id ti\<rparr>
               else r"
  have regs: "geo_regions (remap_store d si ti) = map ?f (geo_regions d)"
    by (simp add: remap_regions_def)
  have seq: "geo_regions_id_seq (remap_store d si ti) = geo_regions_id_seq d"
    by (simp add: remap_store_def Let_def)
  have id: "gr_id (?f r) = gr_id r" and par: "gr_parent_region_id (?f r) = gr_parent_region_id r"
    and co: "gr_country_id (?f r) = (if gr_country_id r = ce_id si then ce_id ti
                                    else gr_country_id r)" for r
    by simp_all
  have "map gr_id (map ?f (geo_regions d)) = map gr_id (geo_regions d)"
    using id by (simp add: comp_def)
  then have "distinct (map gr_id (geo_regions (remap_store d si ti)))"
    using assms(1) by (simp only: regs regions_wf_def)
  moreover have "region_ids_issued (remap_store d si ti)"
    using assms(1) unfolding regions_wf_def region_ids_issued_def regs seq
    by (auto simp del: if_split simp: id par)
  moreover have "parent_same_country (remap_store d si ti)"
    unfolding parent_same_country_def regs
  proof (intro ballI allI impI)
    fix r' pid p'
    assume "r' \<in> set (map ?f (geo_regions d))" "gr_parent_region_id r' = Some pid"
      "p' \<in> set (map ?f (geo_regions d))" "gr_id p' = pid"
    then obtain r p where rp: "r \<in> set (geo_regions d)" "r' = ?f r"
      "p \<in> set (geo_regions d)" "p' = ?f p"
      "gr_parent_region_id (?f r) = Some pid" "gr_id (?f p) = pid"
      by auto
    then have "gr_parent_region_id r = Some pid" "gr_id p = pid"
      by (simp_all only: id par)
    with assms(2) rp(1,3) have eq: "gr_country_id p = gr_country_id r"
      unfolding parent_same_country_def by blast
    have "gr_country_id (?f p) = (if gr_country_id p = ce_id si then ce_id ti
                                  else gr_country_id p)"
      by (rule co)
    also have "\<dots> = (if gr_country_id r = ce_id si then ce_id ti else gr_country_id r)"
      by (simp only: eq)
    also have "\<dots> = gr_country_id (?f r)"
      by (rule co [symmetric])
    finally show "gr_country_id p' = gr_country_id r'"
      by (simp only: rp(2,4))
  qed
  ultimately show ?thesis by (simp add: regions_wf_def)
qed

lemma remap_fold_regions_inv:
  assumes "regions_wf d" and "parent_same_country d"
  shows "regions_wf (fst (fold remap_country pol (d, cache)))
         \<and> parent_same_country (fst (fold remap_country pol (d, cache)))"
  using assms
proof (induction pol arbitrary: d cache)
  case Nil
  then show ?case by simp
next
  case (Cons en pol)
  obtain s t where en: "en = (s, t)" by (cases en)
  show ?case
  proof (cases rule: remap_country_cases [of s t d cache])
    case skipped
    with Cons show ?thesis by (simp add: en)
  next
    case (run si ti)
    have step: "fold remap_country (en # pol) (d, cache)
        = fold remap_country pol (remap_store d si ti, cache(s := None))"
      by (simp add: en run(3))
    from remap_store_regions_inv [OF Cons.prems, of si ti]
    have "regions_wf (remap_store d si ti)" "parent_same_country (remap_store d si ti)"
      by simp_all
    from Cons.IH [OF this, of "cache(s := None)"] show ?thesis
      by (simp only: step)
  qed
qed

lemma import_locality_row_regions:
  assumes "import_locality_row cache ltc fb sid r (d, cd, st) = (d', cd', st')"
  shows "geo_regions d' = geo_regions d \<and> geo_regions_id_seq d' = geo_regions_id_seq d
         \<and> geo_countries d' = geo_countries d"
  using assms
  by (auto simp: import_locality_row_def Let_def split: option.splits if_splits)

lemma import_locality_rows_regions:
  assumes "fold (import_locality_row cache ltc fb sid) rs (d, cd, st) = (d', cd', st')"
  shows "geo_regions d' = geo_regions d \<and> geo_regions_id_seq d' = geo_regions_id_seq d
         \<and> geo_countries d' = geo_countries d"
  using assms
proof (induction rs arbitrary: d cd st)
  case Nil
  then show ?case by simp
next
  case (Cons r rs)
  obtain d1 c1 s1 where step:
    "import_locality_row cache ltc fb sid r (d, cd, st) = (d1, c1, s1)"
    by (metis prod_cases3)
  with Cons.prems have "fold (import_locality_row cache ltc fb sid) rs (d1, c1, s1)
      = (d', cd', st')"
    by simp
  from Cons.IH [OF this] import_locality_row_regions [OF step] show ?case by simp
qed

lemma import_localities_regions:
  "geo_regions (fst (import_localities d ps sid cache)) = geo_regions d
   \<and> geo_regions_id_seq (fst (import_localities d ps sid cache)) = geo_regions_id_seq d"
proof -
  let ?step = "import_locality_row cache (type_cache (geo_locality_types d))
                 (get_default (type_cache (geo_locality_types d)) (ascii ''locality'') 1) sid"
  obtain d1 c1 s1 where run:
    "fold ?step (query_localities ps) (d, [], \<lparr>imported = 0, skipped = 0, processed = 0\<rparr>)
       = (d1, c1, s1)"
    by (metis prod_cases3)
  have "fst (import_localities d ps sid cache) = insert_locations sid c1 d1"
    using run by (simp add: import_localities_def Let_def)
  moreover have "geo_regions (insert_locations sid c1 d1) = geo_regions d1"
    "geo_regions_id_seq (insert_locations sid c1 d1) = geo_regions_id_seq d1"
    by (simp_all add: insert_locations_def Let_def)
  ultimately show ?thesis
    using import_locality_rows_regions [OF run] by simp
qed

lemma override_jerusalem_regions:
  "geo_regions (override_jerusalem_region d) = geo_regions d"
  by (simp add: override_jerusalem_region_def split: option.splits)

text \<open>
  C4 (as stated) fails on the code: Pass 2 takes the country of a sub-region from the
  record's own country field and its parent from the record's parent id, and never
  compares the two. A county of country \<open>BB\<close> whose parent id names a region of country
  \<open>AA\<close> is stored with country 2 under a parent of country 1.
\<close>

theorem sub_region_parent_in_other_country:
  "geo_regions (hd (hierarchy_phases (\<lambda>_ _. False) blank_db two_country_source 7
                      (example_cache [''AA'', ''BB''])))
     = [\<lparr>gr_id = 1, gr_country_id = 1, gr_continent_id = None, gr_parent_region_id = None,
         gr_region_type_id = 1, gr_code = ascii ''R1'', gr_name = Some (ascii ''Name''),
         gr_overture_id = Some (ascii ''R1''), gr_source_id = 7, gr_boundary = None\<rparr>,
        \<lparr>gr_id = 2, gr_country_id = 2, gr_continent_id = None, gr_parent_region_id = Some 1,
         gr_region_type_id = 2, gr_code = ascii ''R2'', gr_name = Some (ascii ''Name''),
         gr_overture_id = Some (ascii ''R2''), gr_source_id = 7, gr_boundary = None\<rparr>]
   \<and> \<not> parent_same_country (hd (hierarchy_phases (\<lambda>_ _. False) blank_db two_country_source 7
                                   (example_cache [''AA'', ''BB''])))"
proof -
  have regs: "geo_regions (hd (hierarchy_phases (\<lambda>_ _. False) blank_db two_country_source 7
                      (example_cache [''AA'', ''BB''])))
     = [\<lparr>gr_id = 1, gr_country_id = 1, gr_continent_id = None, gr_parent_region_id = None,
         gr_region_type_id = 1, gr_code = ascii ''R1'', gr_name = Some (ascii ''Name''),
         gr_overture_id = Some (ascii ''R1''), gr_source_id = 7, gr_boundary = None\<rparr>,
        \<lparr>gr_id = 2, gr_country_id = 2, gr_continent_id = None, gr_parent_region_id = Some 1,
         gr_region_type_id = 2, gr_code = ascii ''R2'', gr_name = Some (ascii ''Name''),
         gr_overture_id = Some (ascii ''R2''), gr_source_id = 7, gr_boundary = None\<rparr>]"
    by (simp add: hierarchy_phases_def import_regions_def query_top_def query_sub_def
        two_country_source_def example_division_def example_cache_def blank_db_def
        import_top_region_def import_sub_region_def insert_region_def type_cache_def
        get_default_def dict_update_all_def display_name_def map_extract_def
        first_latin_value_def map_values_def extract_region_code_def Let_def)
  then show ?thesis
    by (simp add: parent_same_country_def)
qed

text \<open>
  C4 (amended): when the import starts on an empty region table and every sub-region
  record of the source whose parent id is the id of a top-level region record names the
  same country as that record, then after each of the phases that touch the hierarchy
  (region import, locality import, synthesis, remapping, the Jerusalem override) every
  region with a parent region has the country of that parent. Pass 2 itself does not
  compare the two countries.
\<close>

theorem region_parent_same_country:
  assumes "geo_regions d = []" and "sub_regions_consistent ps"
  shows "\<forall>d'\<in>set (hierarchy_phases conflict d ps source_id country_cache).
           parent_same_country d'"
proof -
  let ?d1 = "fst (import_regions conflict d ps source_id country_cache)"
  let ?d2 = "fst (import_localities ?d1 ps source_id country_cache)"
  let ?d3 = "create_synthetic_regions ?d2 country_cache"
  let ?d4 = "fst (remap_disputed_territories ?d3 country_cache)"
  let ?d5 = "override_jerusalem_region ?d4"
  from import_regions_invariant [OF assms] have 1: "regions_wf ?d1" "parent_same_country ?d1"
    by simp_all
  have 2: "regions_wf ?d2" "parent_same_country ?d2"
    using 1 import_localities_regions [of ?d1 ps source_id country_cache]
    by (simp_all add: regions_wf_def region_ids_issued_def parent_same_country_def)
  from create_synthetic_regions_inv [OF 2] have 3: "regions_wf ?d3" "parent_same_country ?d3"
    by simp_all
  have "?d4 = fst (fold remap_country COUNTRY_REMAPPING (?d3, country_cache))"
    by (simp add: remap_disputed_territories_def)
  with remap_fold_regions_inv [OF 3] have 4: "parent_same_country ?d4"
    by simp
  have 5: "parent_same_country ?d5"
    using 4 by (simp add: parent_same_country_def override_jerusalem_regions)
  show ?thesis
    using 1(2) 2(2) 3(2) 4 5 by (simp add: hierarchy_phases_def Let_def)
qed

text \<open>A region and a county below it, both of country \<open>AA\<close>: the county is stored under the
  region, and the five stores satisfy the invariant.\<close>

theorem region_parent_same_country_witness:
  "length (hierarchy_phases (\<lambda>_ _. False) blank_db one_country_source 7
             (example_cache [''AA''])) = 5
   \<and> list_all parent_same_country
       (hierarchy_phases (\<lambda>_ _. False) blank_db one_country_source 7 (example_cache [''AA'']))
   \<and> map gr_parent_region_id
       (geo_regions (hd (hierarchy_phases (\<lambda>_ _. False) blank_db one_country_source 7
                           (example_cache [''AA'']))))
       = [None, Some 1]"
proof (intro conjI)
  show "length (hierarchy_phases (\<lambda>_ _. False) blank_db one_country_source 7
             (example_cache [''AA''])) = 5"
    by (simp add: hierarchy_phases_def Let_def)
  have e: "geo_regions blank_db = []"
    by (simp add: blank_db_def)
  have q: "query_sub one_country_source
             = [(ascii ''R2'', ascii ''AA'', None, ascii ''county'', ascii ''Name'',
                 Some (ascii ''R1''))]"
    "query_top one_country_source = [(ascii ''R1'', ascii ''AA'', None, ascii ''Name'')]"
    by (simp_all add: query_sub_def query_top_def one_country_source_def example_division_def
        display_name_def map_extract_def first_latin_value_def map_values_def)
  have c: "sub_regions_consistent one_country_source"
    by (simp add: sub_regions_consistent_def q)
  from region_parent_same_country [OF e c]
  show "list_all parent_same_country
       (hierarchy_phases (\<lambda>_ _. False) blank_db one_country_source 7 (example_cache [''AA'']))"
    by (simp add: list_all_iff)
  show "map gr_parent_region_id
       (geo_regions (hd (hierarchy_phases (\<lambda>_ _. False) blank_db one_country_source 7
                           (example_cache [''AA'']))))
       = [None, Some 1]"
    by (simp add: hierarchy_phases_def import_regions_def q
        example_cache_def blank_db_def
        import_top_region_def import_sub_region_def insert_region_def type_cache_def
        get_default_def dict_update_all_def extract_region_code_def Let_def)
qed

subsection \<open>Synthesis: every locality is anchored\<close>

lemma ascii_append [simp]: "ascii a @ ascii b = ascii (a @ b)"
  by (simp add: ascii_def)

subsection \<open>Dicts filled from rows\<close>

lemma dict_update_all_conv:
  "dict_update_all rows m = m ++ map_of (rev rows)"
proof (induction rows arbitrary: m)
  case Nil
  show ?case by (simp add: dict_update_all_def)
next
  case (Cons r rows)
  obtain k v where r: "r = (k, v)" by (cases r)
  have "dict_update_all (r # rows) m = dict_update_all rows (m(k \<mapsto> v))"
    by (simp add: dict_update_all_def r)
  also have "\<dots> = m(k \<mapsto> v) ++ map_of (rev rows)"
    by (rule Cons.IH)
  also have "\<dots> = m ++ map_of (rev (r # rows))"
    by (simp add: r map_add_def fun_eq_iff split: option.splits)
  finally show ?case .
qed

lemma dict_update_all_other:
  "k \<notin> fst ` set rows \<Longrightarrow> dict_update_all rows m k = m k"
  by (simp add: dict_update_all_conv map_add_def map_of_eq_None_iff [THEN iffD2])

lemma dict_update_all_append:
  "dict_update_all (xs @ ys) m = dict_update_all ys (dict_update_all xs m)"
  by (simp add: dict_update_all_def)

subsection \<open>The walk is monotone\<close>

lemma chain_walk_fuel_mono:
  "chain_walk regs po c n \<Longrightarrow> n \<le> m \<Longrightarrow> chain_walk regs po c m"
proof (induction n arbitrary: c m)
  case 0
  then show ?case by simp
next
  case (Suc n)
  then obtain m' where m: "m = Suc m'" "n \<le> m'"
    by (cases m) auto
  from Suc.prems(1) obtain k where k: "c = Some k" "k \<noteq> []"
    by (auto split: option.splits if_splits)
  show ?case
  proof (cases "k \<in> regs")
    case True
    with k m show ?thesis by simp
  next
    case False
    with Suc.prems(1) k have "chain_walk regs po (dict_get po k) n" by simp
    from Suc.IH [OF this m(2)] show ?thesis
      using k False m by simp
  qed
qed

lemma chain_walk_mono:
  assumes "chain_walk regs po c n" and "n \<le> N" and "regs \<subseteq> regs'"
    and "\<forall>k. k \<in> regs' \<or> dict_get po' k = dict_get po k
              \<or> \<not> chain_walk regs po (dict_get po k) N"
  shows "chain_walk regs' po' c n"
  using assms(1,2)
proof (induction n arbitrary: c)
  case 0
  then show ?case by simp
next
  case (Suc n)
  from Suc.prems(1) obtain k where k: "c = Some k" "k \<noteq> []"
    by (auto split: option.splits if_splits)
  show ?case
  proof (cases "k \<in> regs'")
    case True
    with k show ?thesis by simp
  next
    case False
    with assms(3) have "k \<notin> regs" by blast
    with Suc.prems(1) k have w: "chain_walk regs po (dict_get po k) n" by simp
    have "n \<le> N" using Suc.prems(2) by simp
    with w have "chain_walk regs po (dict_get po k) N"
      by (rule chain_walk_fuel_mono)
    with assms(4) False have same: "dict_get po' k = dict_get po k" by blast
    from Suc.IH [OF w \<open>n \<le> N\<close>] show ?thesis
      using k False same by simp
  qed
qed

subsection \<open>The parent map away from the region ids\<close>

lemma set_somes: "set (somes xs) = {v. Some v \<in> set xs}"
  by (induction xs) (auto simp: somes_def split: option.splits)

lemma region_overture_ids_iff:
  "k \<in> region_overture_ids d \<longleftrightarrow> (\<exists>r\<in>set (geo_regions d). gr_overture_id r = Some k)"
  unfolding region_overture_ids_def set_somes by (simp add: image_iff) metis

lemma parent_rows_key:
  "(k, v) \<in> set (case oid of
          None \<Rightarrow> []
        | Some i \<Rightarrow> (case r2s of [] \<Rightarrow> [(i, None)] | a # rest \<Rightarrow> map (\<lambda>r2. (i, f r2)) (a # rest)))
   \<Longrightarrow> oid = Some k"
  by (cases oid; cases r2s) auto

lemma region_parent_rows_keys:
  "fst ` set (region_parent_rows d) \<subseteq> region_overture_ids d"
proof
  fix k assume "k \<in> fst ` set (region_parent_rows d)"
  then obtain v where "(k, v) \<in> set (region_parent_rows d)"
    by auto
  then obtain r where r: "r \<in> set (geo_regions d)"
    and kv: "(k, v) \<in> set (case gr_overture_id r of
          None \<Rightarrow> []
        | Some oid \<Rightarrow>
            (case filter (\<lambda>r2. gr_parent_region_id r = Some (gr_id r2)) (geo_regions d) of
               [] \<Rightarrow> [(oid, None)]
             | r2s \<Rightarrow> map (\<lambda>r2. (oid, gr_overture_id r2)) r2s))"
    unfolding region_parent_rows_def set_concat by auto
  from parent_rows_key [OF kv] have "gr_overture_id r = Some k" .
  with r show "k \<in> region_overture_ids d"
    unfolding region_overture_ids_iff by blast
qed

text \<open>A key that is no region id gets its parent from the locality rows alone.\<close>

lemma overture_to_parent_off_regions:
  assumes "k \<notin> region_overture_ids d"
  shows "overture_to_parent d k = dict_update_all (locality_parent_rows d) Map.empty k"
proof -
  have "k \<notin> fst ` set (region_parent_rows d)"
    using assms region_parent_rows_keys [of d] by blast
  then have none: "dict_update_all (region_parent_rows d) Map.empty k = None"
    by (simp add: dict_update_all_other)
  have "overture_to_parent d k
      = (dict_update_all (region_parent_rows d) Map.empty
           ++ map_of (rev (locality_parent_rows d))) k"
    unfolding overture_to_parent_def by (subst dict_update_all_conv) simp
  also have "\<dots> = (Map.empty ++ map_of (rev (locality_parent_rows d))) k"
    using none by (simp add: map_add_def split: option.splits)
  also have "\<dots> = dict_update_all (locality_parent_rows d) Map.empty k"
    by (simp add: dict_update_all_conv)
  finally show ?thesis .
qed

lemma locality_parent_rows_eq: "locality_parent_rows d = parent_rows (geo_localities d)"
  by (simp add: locality_parent_rows_def parent_rows_def)

lemma parent_rows_Cons:
  "parent_rows (l # ls) =
     (case gl_overture_id l of None \<Rightarrow> [] | Some oid \<Rightarrow> [(oid, gl_parent_overture_id l)])
       @ parent_rows ls"
  by (simp add: parent_rows_def)

text \<open>
  Two locality tables with the same external ids, row by row, whose rows are equal or
  changed only where \<open>Q\<close> holds of the old parent id: the parent maps built from them
  agree at a key, or the old one holds there a parent id of which \<open>Q\<close> holds.
\<close>

lemma parent_rows_related:
  assumes "list_all2 R ls ls'"
    and "\<And>l l'. R l l' \<Longrightarrow>
           gl_overture_id l' = gl_overture_id l \<and> (l' = l \<or> Q (gl_parent_overture_id l))"
    and "m' k = m k \<or> (\<exists>p. Q p \<and> m k = Some p)"
  shows "dict_update_all (parent_rows ls') m' k = dict_update_all (parent_rows ls) m k
         \<or> (\<exists>p. Q p \<and> dict_update_all (parent_rows ls) m k = Some p)"
  using assms(1,3)
proof (induction arbitrary: m m' rule: list_all2_induct)
  case Nil
  then show ?case by (simp add: parent_rows_def dict_update_all_def)
next
  case (Cons l ls l' ls')
  from assms(2) [OF Cons.hyps(1)] have oid: "gl_overture_id l' = gl_overture_id l"
    and ch: "l' = l \<or> Q (gl_parent_overture_id l)"
    by simp_all
  show ?case
  proof (cases "gl_overture_id l")
    case None
    have "parent_rows (l # ls) = parent_rows ls" "parent_rows (l' # ls') = parent_rows ls'"
      using None oid by (simp_all add: parent_rows_Cons)
    with Cons.IH [of m' m, OF Cons.prems] show ?thesis by simp
  next
    case (Some oid)
    have r: "parent_rows (l # ls) = (oid, gl_parent_overture_id l) # parent_rows ls"
      "parent_rows (l' # ls') = (oid, gl_parent_overture_id l') # parent_rows ls'"
      using Some oid by (simp_all add: parent_rows_Cons)
    let ?m = "m(oid \<mapsto> gl_parent_overture_id l)"
    let ?m' = "m'(oid \<mapsto> gl_parent_overture_id l')"
    have rel: "?m' k = ?m k \<or> (\<exists>p. Q p \<and> ?m k = Some p)"
    proof (cases "oid = k")
      case True
      with ch show ?thesis by auto
    next
      case False
      with Cons.prems show ?thesis by simp
    qed
    have step: "dict_update_all (parent_rows (l' # ls')) m' = dict_update_all (parent_rows ls') ?m'"
      "dict_update_all (parent_rows (l # ls)) m = dict_update_all (parent_rows ls) ?m"
      by (simp_all add: r dict_update_all_def)
    from Cons.IH [of ?m' ?m, OF rel] show ?thesis
      unfolding step .
  qed
qed

subsection \<open>The orphan sweep\<close>

lemma locality_join_iff:
  "(lid, p, cc) \<in> set (locality_join d) \<longleftrightarrow>
     (\<exists>l\<in>set (geo_localities d). \<exists>c\<in>set (geo_countries d).
        gl_overture_id l \<noteq> None \<and> gl_country_id l = gc_id c
        \<and> lid = gl_id l \<and> p = gl_parent_overture_id l \<and> cc = gc_code c)"
  unfolding locality_join_def set_concat by (auto split: if_splits)

lemma update_set_subset: "set (AList.update k v al) \<subseteq> insert (k, v) (set al)"
  by (induction al) auto

lemma info_fold_set:
  "set (fold (\<lambda>(locality_id, parent_oid, country_code) acc.
             AList.update locality_id (parent_oid, country_code) acc) rows acc)
     \<subseteq> set acc \<union> set rows"
proof (induction rows arbitrary: acc)
  case Nil
  show ?case by simp
next
  case (Cons r rows)
  obtain lid p cc where r: "r = (lid, p, cc)" by (metis prod_cases3)
  have "set (AList.update lid (p, cc) acc) \<subseteq> insert (lid, p, cc) (set acc)"
    by (rule update_set_subset)
  with Cons [of "AList.update lid (p, cc) acc"] show ?case
    by (auto simp: r)
qed

lemma info_fold_keys:
  "fst ` set (fold (\<lambda>(locality_id, parent_oid, country_code) acc.
             AList.update locality_id (parent_oid, country_code) acc) rows acc)
     = fst ` set acc \<union> fst ` set rows"
proof (induction rows arbitrary: acc)
  case Nil
  show ?case by simp
next
  case (Cons r rows)
  obtain lid p cc where r: "r = (lid, p, cc)" by (metis prod_cases3)
  from Cons [of "AList.update lid (p, cc) acc"] show ?case
    by (simp add: r AList.dom_update)
qed

text \<open>Every entry of the locality dicts is a row of the join, and every locality that the
  join returns has an entry.\<close>

lemma locality_info_entry:
  "(lid, p, cc) \<in> set (locality_info d) \<Longrightarrow>
     \<exists>l\<in>set (geo_localities d). gl_id l = lid \<and> gl_parent_overture_id l = p"
  using info_fold_set [of "locality_join d" "[]"] locality_join_iff [of lid p cc d]
  unfolding locality_info_def by auto

lemma locality_info_has:
  assumes "l \<in> set (geo_localities d)" and "gl_overture_id l \<noteq> None"
    and "c \<in> set (geo_countries d)" and "gc_id c = gl_country_id l"
  shows "\<exists>p cc. (gl_id l, p, cc) \<in> set (locality_info d)"
proof -
  have "(gl_id l, gl_parent_overture_id l, gc_code c) \<in> set (locality_join d)"
    unfolding locality_join_iff using assms
    by (intro bexI [of _ l] bexI [of _ c]) auto
  then have "gl_id l \<in> fst ` set (locality_join d)"
    by force
  then have "gl_id l \<in> fst ` set (locality_info d)"
    unfolding locality_info_def info_fold_keys by simp
  then show ?thesis by force
qed

lemma orphan_ids_Nil [simp]: "orphan_ids [] = {}"
  by (simp add: orphan_ids_def)

lemma orphan_ids_Cons [simp]: "orphan_ids ((cc, ids) # gs) = set ids \<union> orphan_ids gs"
  by (simp add: orphan_ids_def)

lemma orphan_ids_add: "orphan_ids (add_orphan gs cc lid) = insert lid (orphan_ids gs)"
proof (induction gs)
  case Nil
  show ?case by (simp add: add_orphan_def)
next
  case (Cons g gs)
  obtain k v where g: "g = (k, v)" by (cases g)
  show ?case
  proof (cases "k = cc")
    case True
    then show ?thesis by (auto simp: add_orphan_def g)
  next
    case False
    with Cons show ?thesis by (auto simp: add_orphan_def g)
  qed
qed

lemma orphan_fold_ids:
  "orphan_ids (fold (\<lambda>(locality_id, parent_oid, country_code) orphans_by_country.
             if found_region regs po parent_oid
             then orphans_by_country
             else add_orphan orphans_by_country country_code locality_id) rows acc)
     = orphan_ids acc \<union> {lid. \<exists>p cc. (lid, p, cc) \<in> set rows \<and> \<not> found_region regs po p}"
proof (induction rows arbitrary: acc)
  case Nil
  show ?case by simp
next
  case (Cons r rows)
  obtain lid p cc where r: "r = (lid, p, cc)" by (metis prod_cases3)
  show ?case
  proof (cases "found_region regs po p")
    case True
    with Cons [of acc] show ?thesis by (auto simp: r)
  next
    case False
    with Cons [of "add_orphan acc cc lid"] show ?thesis
      by (auto simp: r orphan_ids_add)
  qed
qed

lemma find_orphans_ids:
  "orphan_ids (find_orphans d) =
     {lid. \<exists>p cc. (lid, p, cc) \<in> set (locality_info d)
        \<and> \<not> found_region (region_overture_ids d) (overture_to_parent d) p}"
  unfolding find_orphans_def orphan_fold_ids by simp

subsection \<open>The loop over the orphan groups\<close>

lemma synthetic_region_of_store:
  "fst (synthetic_region_of d cc) = fst (synthetic_region_of d' cc)"
  "snd (snd (synthetic_region_of d cc)) = snd (snd (synthetic_region_of d' cc))"
  by (simp_all add: synthetic_region_of_def split: option.splits prod.splits)

lemma reparented_step:
  assumes "reparented regs P l0 l" and "regs \<subseteq> regs'" and "ascii ''synthetic:'' @ code \<in> regs'"
  shows "reparented regs' (P \<union> ids) l0
           (if gl_id l \<in> ids then l\<lparr>gl_parent_overture_id := Some (ascii ''synthetic:'' @ code)\<rparr>
            else l)"
proof (cases "gl_id l \<in> ids")
  case True
  with assms show ?thesis
    unfolding reparented_def by auto
next
  case False
  with assms(1,2) show ?thesis
    unfolding reparented_def by (auto split: if_splits)
qed

lemma synth_inv_step:
  assumes inv: "synth_inv d0 codes P d created"
    and step: "synth_group cache tyid srcid (cc, ids) (d, created, n) = (d', created', n')"
    and code: "fst (synthetic_region_of d cc) \<in> codes"
    and target: "cache (snd (snd (synthetic_region_of d cc))) \<noteq> None"
  shows "synth_inv d0 codes (P \<union> set ids) d' created'"
proof -
  obtain code name target where sr: "synthetic_region_of d cc = (code, name, target)"
    by (metis prod_cases3)
  from code sr have codes: "code \<in> codes" by simp
  from target sr have tg: "cache target \<noteq> None" by simp
  from inv have rel: "list_all2 (reparented (region_overture_ids d) P)
                        (geo_localities d0) (geo_localities d)"
    and co: "geo_countries d = geo_countries d0"
    and sub: "region_overture_ids d0 \<subseteq> region_overture_ids d"
    and syn: "\<And>r. r \<in> set (geo_regions d) \<Longrightarrow> gr_code r \<in> codes \<Longrightarrow>
                gr_overture_id r = Some (ascii ''synthetic:'' @ gr_code r)"
    and cr: "\<And>k. created k \<noteq> None \<Longrightarrow> \<exists>r\<in>set (geo_regions d). gr_code r = k"
    unfolding synth_inv_def by blast+
  from synth_group_effect [OF step sr] tg
  have co': "geo_countries d' = geo_countries d"
    and ls: "geo_localities d' =
             map (\<lambda>l. if gl_id l \<in> set ids
                       then l\<lparr>gl_parent_overture_id := Some (ascii ''synthetic:'' @ code)\<rparr>
                       else l) (geo_localities d)"
    and regs: "(geo_regions d' = geo_regions d
                \<and> (created code \<noteq> None \<or> (\<exists>r\<in>set (geo_regions d). gr_code r = code)))
             \<or> (\<exists>new. geo_regions d' = geo_regions d @ [new]
                   \<and> gr_code new = code
                   \<and> gr_overture_id new = Some (ascii ''synthetic:'' @ code))"
    and cr': "\<And>k. created' k \<noteq> None \<longleftrightarrow> k = code \<or> created k \<noteq> None"
    by blast+
  have grow: "set (geo_regions d) \<subseteq> set (geo_regions d')"
    using regs by auto
  then have sub': "region_overture_ids d \<subseteq> region_overture_ids d'"
    by (simp add: subset_iff region_overture_ids_iff) blast
  have there: "\<exists>r\<in>set (geo_regions d'). gr_code r = code
                  \<and> gr_overture_id r = Some (ascii ''synthetic:'' @ code)"
    using regs
  proof (elim disjE exE conjE)
    assume same: "geo_regions d' = geo_regions d"
      and "created code \<noteq> None"
    from cr [OF this(2)] obtain r where "r \<in> set (geo_regions d)" "gr_code r = code"
      by blast
    with syn [of r] codes same show ?thesis by auto
  next
    assume same: "geo_regions d' = geo_regions d"
      and "\<exists>r\<in>set (geo_regions d). gr_code r = code"
    then obtain r where "r \<in> set (geo_regions d)" "gr_code r = code"
      by blast
    with syn [of r] codes same show ?thesis by auto
  next
    fix new
    assume "geo_regions d' = geo_regions d @ [new]" "gr_code new = code"
      "gr_overture_id new = Some (ascii ''synthetic:'' @ code)"
    then show ?thesis by auto
  qed
  then have mem: "ascii ''synthetic:'' @ code \<in> region_overture_ids d'"
    unfolding region_overture_ids_iff by blast
  have syn': "gr_overture_id r = Some (ascii ''synthetic:'' @ gr_code r)"
    if "r \<in> set (geo_regions d')" "gr_code r \<in> codes" for r
    using regs that syn [of r] by auto
  have "list_all2 (reparented (region_overture_ids d') (P \<union> set ids))
          (geo_localities d0) (geo_localities d')"
    unfolding ls list_all2_map2
    by (rule list_all2_mono [OF rel]) (rule reparented_step [OF _ sub' mem])
  moreover have "\<exists>r\<in>set (geo_regions d'). gr_code r = k" if "created' k \<noteq> None" for k
    using that cr' [of k] cr [of k] there grow by blast
  ultimately show ?thesis
    unfolding synth_inv_def using co co' sub sub' syn' by auto
qed

lemma synth_inv_fold:
  assumes "synth_inv d0 codes P d created"
    and "fold (synth_group cache tyid srcid) gs (d, created, n) = (d', created', n')"
    and "\<forall>cc ids. (cc, ids) \<in> set gs \<longrightarrow>
           fst (synthetic_region_of d0 cc) \<in> codes
           \<and> cache (snd (snd (synthetic_region_of d0 cc))) \<noteq> None"
  shows "synth_inv d0 codes (P \<union> orphan_ids gs) d' created'"
  using assms
proof (induction gs arbitrary: P d created n)
  case Nil
  then show ?case by simp
next
  case (Cons g gs)
  obtain cc ids where g: "g = (cc, ids)" by (cases g)
  obtain d1 created1 n1
    where step: "synth_group cache tyid srcid (cc, ids) (d, created, n) = (d1, created1, n1)"
    by (metis prod_cases3)
  from Cons.prems(2) have rest:
    "fold (synth_group cache tyid srcid) gs (d1, created1, n1) = (d', created', n')"
    by (simp add: g step)
  from Cons.prems(3) have here: "fst (synthetic_region_of d0 cc) \<in> codes"
    "cache (snd (snd (synthetic_region_of d0 cc))) \<noteq> None"
    by (simp_all add: g)
  have inv1: "synth_inv d0 codes (P \<union> set ids) d1 created1"
    using here synthetic_region_of_store [of d cc d0]
    by (intro synth_inv_step [OF Cons.prems(1) step]) simp_all
  have later: "\<forall>cc ids. (cc, ids) \<in> set gs \<longrightarrow>
           fst (synthetic_region_of d0 cc) \<in> codes
           \<and> cache (snd (snd (synthetic_region_of d0 cc))) \<noteq> None"
    using Cons.prems(3) by simp
  from Cons.IH [OF inv1 rest later] show ?case
    by (simp add: g Un_assoc)
qed

subsection \<open>After the loop\<close>

lemma orphan_sweep_frame:
  assumes "geo_regions d = geo_regions d0" and "geo_localities d = geo_localities d0"
    and "geo_countries d = geo_countries d0"
  shows "region_overture_ids d = region_overture_ids d0"
    and "overture_to_parent d = overture_to_parent d0"
    and "locality_info d = locality_info d0"
    and "find_orphans d = find_orphans d0"
proof -
  show r: "region_overture_ids d = region_overture_ids d0"
    by (simp only: region_overture_ids_def assms)
  show p: "overture_to_parent d = overture_to_parent d0"
    by (simp only: overture_to_parent_def region_parent_rows_def locality_parent_rows_def assms)
  show i: "locality_info d = locality_info d0"
    by (simp only: locality_info_def locality_join_def assms)
  show "find_orphans d = find_orphans d0"
    by (simp only: find_orphans_def r p i)
qed

lemma orphan_ids_no_orphans:
  "sum_list (map (\<lambda>(country_code, ids). length ids) gs) = 0 \<Longrightarrow> orphan_ids gs = {}"
  by (induction gs) auto

lemma orphan_ids_set: "set gs = set gs' \<Longrightarrow> orphan_ids gs = orphan_ids gs'"
  by (simp add: orphan_ids_def)

lemma distinct_ids_same:
  assumes "distinct (map gl_id ls)" and "l \<in> set ls" and "l2 \<in> set ls" and "gl_id l2 = gl_id l"
  shows "l2 = l"
  using assms by (meson distinct_map inj_onD)

text \<open>With distinct locality ids, the sweep puts a joined locality among the orphans
  exactly when the walk from its parent id finds no region.\<close>

lemma orphan_iff_not_found:
  assumes keys: "distinct (map gl_id (geo_localities d))"
    and l: "l \<in> set (geo_localities d)" and oid: "gl_overture_id l \<noteq> None"
    and c: "c \<in> set (geo_countries d)" "gc_id c = gl_country_id l"
  shows "gl_id l \<in> orphan_ids (find_orphans d) \<longleftrightarrow>
           \<not> found_region (region_overture_ids d) (overture_to_parent d) (gl_parent_overture_id l)"
proof -
  have entry: "p = gl_parent_overture_id l" if "(gl_id l, p, cc) \<in> set (locality_info d)" for p cc
  proof -
    from locality_info_entry [OF that] obtain l2
      where "l2 \<in> set (geo_localities d)" "gl_id l2 = gl_id l" "gl_parent_overture_id l2 = p"
      by blast
    with distinct_ids_same [OF keys l] show ?thesis by blast
  qed
  from locality_info_has [OF l oid c] obtain p cc
    where has: "(gl_id l, p, cc) \<in> set (locality_info d)"
    by blast
  show ?thesis
    unfolding find_orphans_ids using entry has by blast
qed

lemma list_all2_left_member:
  "list_all2 R xs ys \<Longrightarrow> list_all2 (\<lambda>x y. x \<in> set xs \<and> R x y) xs ys"
  by (simp add: list_all2_conv_all_nth)

lemma list_all2_right_member:
  "list_all2 R xs ys \<Longrightarrow> y \<in> set ys \<Longrightarrow> \<exists>x\<in>set xs. R x y"
  by (metis in_set_conv_nth list_all2_conv_all_nth)

lemma synth_inv_anchors:
  assumes inv: "synth_inv d codes (orphan_ids (find_orphans d)) d' created"
    and keys: "distinct (map gl_id (geo_localities d))"
    and joined: "\<forall>l\<in>set (geo_localities d). gl_overture_id l \<noteq> None
                   \<and> (\<exists>c\<in>set (geo_countries d). gc_id c = gl_country_id l)"
    and l': "l' \<in> set (geo_localities d')"
  shows "found_region (region_overture_ids d') (overture_to_parent d') (gl_parent_overture_id l')"
proof -
  let ?regs = "region_overture_ids d" and ?po = "overture_to_parent d"
  let ?regs' = "region_overture_ids d'" and ?po' = "overture_to_parent d'"
  let ?P = "orphan_ids (find_orphans d)"
  let ?Q = "\<lambda>p. \<not> found_region ?regs ?po p"
  from inv have rel: "list_all2 (reparented ?regs' ?P) (geo_localities d) (geo_localities d')"
    and sub: "?regs \<subseteq> ?regs'"
    unfolding synth_inv_def by blast+
  have orphan: "gl_id l \<in> ?P \<longleftrightarrow> ?Q (gl_parent_overture_id l)" if "l \<in> set (geo_localities d)" for l
  proof -
    from joined that obtain c where "gl_overture_id l \<noteq> None"
      "c \<in> set (geo_countries d)" "gc_id c = gl_country_id l"
      by blast
    then show ?thesis
      by (intro orphan_iff_not_found [OF keys that])
  qed
  have changed: "gl_overture_id l2 = gl_overture_id l \<and> (l2 = l \<or> ?Q (gl_parent_overture_id l))"
    if "l \<in> set (geo_localities d) \<and> reparented ?regs' ?P l l2" for l l2
    using that orphan [of l] unfolding reparented_def by (auto split: if_splits)
  have maps: "k \<in> ?regs' \<or> dict_get ?po' k = dict_get ?po k
                \<or> \<not> chain_walk ?regs ?po (dict_get ?po k) 20" for k
  proof (cases "k \<in> ?regs'")
    case True
    then show ?thesis by simp
  next
    case False
    with sub have "k \<notin> ?regs" by blast
    then have po: "?po k = dict_update_all (parent_rows (geo_localities d)) Map.empty k"
      by (simp add: overture_to_parent_off_regions locality_parent_rows_eq)
    from False have po': "?po' k = dict_update_all (parent_rows (geo_localities d')) Map.empty k"
      by (simp add: overture_to_parent_off_regions locality_parent_rows_eq)
    have "?po' k = ?po k \<or> (\<exists>p. ?Q p \<and> ?po k = Some p)"
      unfolding po po'
      by (rule parent_rows_related [OF list_all2_left_member [OF rel] changed]) simp_all
    then show ?thesis
      by (auto simp: dict_get_def found_region_def)
  qed
  from list_all2_right_member [OF rel l'] obtain l
    where l: "l \<in> set (geo_localities d)" and r: "reparented ?regs' ?P l l'"
    by blast
  show ?thesis
  proof (cases "gl_id l \<in> ?P")
    case True
    with r obtain code where "gl_parent_overture_id l' = Some (ascii ''synthetic:'' @ code)"
      "ascii ''synthetic:'' @ code \<in> ?regs'"
      unfolding reparented_def by auto
    then show ?thesis
      by (simp add: found_region_def eval_nat_numeral ascii_def)
  next
    case False
    with r have same: "l' = l"
      unfolding reparented_def by simp
    from False orphan [OF l] have "chain_walk ?regs ?po (gl_parent_overture_id l) 20"
      by (simp add: found_region_def)
    from chain_walk_mono [OF this order_refl sub] maps show ?thesis
      unfolding found_region_def same by blast
  qed
qed

lemma synth_inv_start:
  assumes "\<forall>r\<in>set (geo_regions d). gr_code r \<in> codes \<longrightarrow>
             gr_overture_id r = Some (ascii ''synthetic:'' @ gr_code r)"
  shows "synth_inv d codes {} d Map.empty"
  unfolding synth_inv_def using assms
  by (simp add: reparented_def list_all2_same)

text \<open>
  C1 (as stated) fails on the code: a group of orphans whose target country is not in the
  country cache is passed over (\<^verbatim>\<open>if target_country not in country_cache: continue\<close>). The
  policy sends the orphans of \<open>XW\<close> to a region of \<open>IL\<close>; in a store that holds \<open>XW\<close> and
  not \<open>IL\<close>, the locality Hebron, which has no parent, is an orphan before the synthesis
  and is left as it was: its parent id is still null and the walk from it finds no region.
\<close>

theorem orphan_left_without_target_country:
  "geo_localities (create_synthetic_regions orphan_db (example_cache [''XW'']))
     = [example_locality 1 1 ''Hebron'' ''L1'' None]
   \<and> geo_regions (create_synthetic_regions orphan_db (example_cache [''XW''])) = []
   \<and> \<not> found_region
         (region_overture_ids (create_synthetic_regions orphan_db (example_cache [''XW''])))
         (overture_to_parent (create_synthetic_regions orphan_db (example_cache [''XW''])))
         None"
proof -
  let ?d = "snd (get_locality_group_type (snd (get_synthetic_source orphan_db)))"
  have fr: "geo_regions ?d = geo_regions orphan_db"
    "geo_localities ?d = geo_localities orphan_db"
    "geo_countries ?d = geo_countries orphan_db"
    by simp_all
  have rows: "geo_regions orphan_db = []"
    "geo_localities orphan_db = [example_locality 1 1 ''Hebron'' ''L1'' None]"
    by (simp_all add: orphan_db_def blank_db_def)
  have "find_orphans orphan_db = [(ascii ''XW'', [1])]"
    by (simp add: orphan_db_def find_orphans_def locality_info_def locality_join_def
        region_overture_ids_def overture_to_parent_def region_parent_rows_def
        locality_parent_rows_def dict_update_all_def add_orphan_def found_region_def
        somes_def blank_db_def example_country_def example_locality_def eval_nat_numeral)
  then have groups: "find_orphans ?d = [(ascii ''XW'', [1])]"
    by (simp only: orphan_sweep_frame(4) [OF fr])
  have policy: "map_of SYNTHETIC_REGION_MAPPING (ascii ''XW'')
      = Some (ascii ''IL-JUDEA-SAMARIA'', ascii ''Judea and Samaria'', ascii ''IL'')"
    by (simp add: SYNTHETIC_REGION_MAPPING_def)
  have cache: "example_cache [''XW''] (ascii ''IL'') = None"
    by (simp add: example_cache_def)
  have skip: "synth_group (example_cache [''XW'']) tyid srcid (ascii ''XW'', ids) st = st"
    for tyid srcid ids st
    by (cases st) (simp add: synth_group_def synthetic_region_of_def policy cache)
  have res: "create_synthetic_regions orphan_db (example_cache [''XW'']) = ?d"
    unfolding create_synthetic_regions_unfold Let_def groups
    by (simp add: skip)
  show ?thesis
    unfolding res fr rows
    by (simp add: found_region_def eval_nat_numeral)
qed

text \<open>
  C1 (amended): in a store whose localities have distinct ids, an external id and a
  country row each, where the target country of every group of orphans is in the country
  cache and every region that already carries the code of a group's synthetic region has
  the external id \<open>synthetic:<code>\<close>, every locality is anchored after the synthesis: the
  walk from its parent id, over the region ids and the parent map read from the store
  after the synthesis, finds a region within the 20 hops.
\<close>

theorem synthesis_anchors_localities:
  assumes keys: "distinct (map gl_id (geo_localities d))"
    and joined: "\<forall>l\<in>set (geo_localities d). gl_overture_id l \<noteq> None
                   \<and> (\<exists>c\<in>set (geo_countries d). gc_id c = gl_country_id l)"
    and targets: "\<forall>cc ids. (cc, ids) \<in> set (find_orphans d) \<longrightarrow>
                    country_cache (snd (snd (synthetic_region_of d cc))) \<noteq> None"
    and codes: "\<forall>cc ids. (cc, ids) \<in> set (find_orphans d) \<longrightarrow>
                  (\<forall>r\<in>set (geo_regions d). gr_code r = fst (synthetic_region_of d cc) \<longrightarrow>
                     gr_overture_id r = Some (ascii ''synthetic:'' @ gr_code r))"
  shows "\<forall>l\<in>set (geo_localities (create_synthetic_regions d country_cache)).
           found_region (region_overture_ids (create_synthetic_regions d country_cache))
             (overture_to_parent (create_synthetic_regions d country_cache))
             (gl_parent_overture_id l)"
proof -
  let ?d = "snd (get_locality_group_type (snd (get_synthetic_source d)))"
  let ?codes = "{code. \<exists>cc ids. (cc, ids) \<in> set (find_orphans d)
                        \<and> code = fst (synthetic_region_of d cc)}"
  let ?gs = "sort_key (\<lambda>(country_code, ids). - int (length ids)) (find_orphans ?d)"
  let ?run = "fold (synth_group country_cache
                         (fst (get_locality_group_type (snd (get_synthetic_source d))))
                         (fst (get_synthetic_source d)))
                   ?gs (?d, Map.empty, 0)"
  have fr: "geo_regions ?d = geo_regions d" "geo_localities ?d = geo_localities d"
    "geo_countries ?d = geo_countries d"
    by simp_all
  note sweep = orphan_sweep_frame [OF fr]
  have keys': "distinct (map gl_id (geo_localities ?d))"
    using keys by (simp only: fr)
  have joined': "\<forall>l\<in>set (geo_localities ?d). gl_overture_id l \<noteq> None
                   \<and> (\<exists>c\<in>set (geo_countries ?d). gc_id c = gl_country_id l)"
    using joined by (simp only: fr)
  have "\<forall>r\<in>set (geo_regions ?d). gr_code r \<in> ?codes \<longrightarrow>
             gr_overture_id r = Some (ascii ''synthetic:'' @ gr_code r)"
    using codes unfolding fr by blast
  then have start: "synth_inv ?d ?codes {} ?d Map.empty"
    by (rule synth_inv_start)
  obtain d' created' n' where run: "?run = (d', created', n')"
    by (metis prod_cases3)
  have groups: "\<forall>cc ids. (cc, ids) \<in> set ?gs \<longrightarrow>
           fst (synthetic_region_of ?d cc) \<in> ?codes
           \<and> country_cache (snd (snd (synthetic_region_of ?d cc))) \<noteq> None"
  proof (intro allI impI)
    fix cc ids assume "(cc, ids) \<in> set ?gs"
    then have m: "(cc, ids) \<in> set (find_orphans d)"
      by (simp add: sweep(4))
    have e: "fst (synthetic_region_of ?d cc) = fst (synthetic_region_of d cc)"
      "snd (snd (synthetic_region_of ?d cc)) = snd (snd (synthetic_region_of d cc))"
      by (rule synthetic_region_of_store)+
    from m targets have "country_cache (snd (snd (synthetic_region_of d cc))) \<noteq> None"
      by blast
    moreover from m have "fst (synthetic_region_of d cc) \<in> ?codes"
      by blast
    ultimately show "fst (synthetic_region_of ?d cc) \<in> ?codes
           \<and> country_cache (snd (snd (synthetic_region_of ?d cc))) \<noteq> None"
      by (simp only: e simp_thms)
  qed
  have ids: "orphan_ids ?gs = orphan_ids (find_orphans ?d)"
    by (rule orphan_ids_set) simp
  from synth_inv_fold [OF start run groups]
  have after: "synth_inv ?d ?codes (orphan_ids (find_orphans ?d)) d' created'"
    by (simp add: ids)
  let ?total = "sum_list (map (\<lambda>(country_code, ids). length ids) (find_orphans ?d))"
  show ?thesis
  proof
    fix l assume l: "l \<in> set (geo_localities (create_synthetic_regions d country_cache))"
    show "found_region (region_overture_ids (create_synthetic_regions d country_cache))
             (overture_to_parent (create_synthetic_regions d country_cache))
             (gl_parent_overture_id l)"
    proof (cases "?total = 0")
      case False
      have eq: "create_synthetic_regions d country_cache = fst ?run"
        by (simp only: create_synthetic_regions_unfold Let_def False if_False)
      with l run have "l \<in> set (geo_localities d')" by simp
      from synth_inv_anchors [OF after keys' joined' this] show ?thesis
        by (simp only: eq run fst_conv)
    next
      case True
      have eq: "create_synthetic_regions d country_cache = ?d"
        by (simp only: create_synthetic_regions_unfold Let_def True if_True simp_thms)
      have "orphan_ids (find_orphans ?d) = {}"
        using True by (rule orphan_ids_no_orphans)
      with start have "synth_inv ?d ?codes (orphan_ids (find_orphans ?d)) ?d Map.empty"
        by simp
      from synth_inv_anchors [OF this keys' joined'] l show ?thesis
        by (simp only: eq)
    qed
  qed
qed

text \<open>
  Zedland, which the policy does not name, with one region and three localities: Lone
  points at an id that nothing carries, Town at the region, Suburb at Town. Lone is the
  one orphan; it is moved under the generated region \<open>ZZ-GEN\<close>, and all three are anchored.
\<close>

theorem synthesis_anchors_localities_witness:
  "map gl_parent_overture_id
     (geo_localities (create_synthetic_regions unmapped_db (example_cache [''ZZ''])))
     = [Some (ascii ''synthetic:ZZ-GEN''), Some (ascii ''R1''), Some (ascii ''L2'')]
   \<and> list_all (\<lambda>l. found_region
                      (region_overture_ids
                         (create_synthetic_regions unmapped_db (example_cache [''ZZ''])))
                      (overture_to_parent
                         (create_synthetic_regions unmapped_db (example_cache [''ZZ''])))
                      (gl_parent_overture_id l))
       (geo_localities (create_synthetic_regions unmapped_db (example_cache [''ZZ''])))"
proof (intro conjI)
  let ?d = "snd (get_locality_group_type (snd (get_synthetic_source unmapped_db)))"
  have fr: "geo_regions ?d = geo_regions unmapped_db"
    "geo_localities ?d = geo_localities unmapped_db"
    "geo_countries ?d = geo_countries unmapped_db"
    by simp_all
  have rows: "geo_regions unmapped_db = [example_region 1 1 ''R1'' ''R1'']"
    "geo_localities unmapped_db =
       [example_locality 1 1 ''Lone'' ''L1'' (Some (ascii ''nowhere'')),
        example_locality 2 1 ''Town'' ''L2'' (Some (ascii ''R1'')),
        example_locality 3 1 ''Suburb'' ''L3'' (Some (ascii ''L2''))]"
    "geo_countries unmapped_db = [example_country 1 ''ZZ'' ''Zedland'']"
    by (simp_all add: unmapped_db_def blank_db_def)
  have orphans: "find_orphans unmapped_db = [(ascii ''ZZ'', [1])]"
    by (simp add: rows find_orphans_def locality_info_def locality_join_def
        region_overture_ids_def overture_to_parent_def region_parent_rows_def
        locality_parent_rows_def dict_update_all_def add_orphan_def found_region_def
        dict_get_def somes_def example_country_def example_region_def example_locality_def
        eval_nat_numeral)
  then have groups: "find_orphans ?d = [(ascii ''ZZ'', [1])]"
    by (simp only: orphan_sweep_frame(4) [OF fr])
  have policy: "map_of SYNTHETIC_REGION_MAPPING (ascii ''ZZ'') = None"
    by (simp add: SYNTHETIC_REGION_MAPPING_def)
  have region: "synthetic_region_of d (ascii ''ZZ'')
      = (ascii ''ZZ-GEN'',
         (case find (\<lambda>c. gc_code c = ascii ''ZZ'') (geo_countries d) of
            Some row \<Rightarrow> gc_name row | None \<Rightarrow> Some (ascii ''ZZ'')),
         ascii ''ZZ'')" for d
    by (simp add: synthetic_region_of_def policy)
  have cache: "example_cache [''ZZ''] (ascii ''ZZ'') = Some \<lparr>ce_id = 1, ce_continent_id = Some 1\<rparr>"
    by (simp add: example_cache_def)
  have keys: "distinct (map gl_id (geo_localities unmapped_db))"
    by (simp add: rows example_locality_def)
  have joined: "\<forall>l\<in>set (geo_localities unmapped_db). gl_overture_id l \<noteq> None
                   \<and> (\<exists>c\<in>set (geo_countries unmapped_db). gc_id c = gl_country_id l)"
    by (simp add: rows example_locality_def example_country_def)
  have targets: "\<forall>cc ids. (cc, ids) \<in> set (find_orphans unmapped_db) \<longrightarrow>
                    example_cache [''ZZ''] (snd (snd (synthetic_region_of unmapped_db cc))) \<noteq> None"
    by (simp add: orphans region cache)
  have codes: "\<forall>cc ids. (cc, ids) \<in> set (find_orphans unmapped_db) \<longrightarrow>
                  (\<forall>r\<in>set (geo_regions unmapped_db).
                     gr_code r = fst (synthetic_region_of unmapped_db cc) \<longrightarrow>
                     gr_overture_id r = Some (ascii ''synthetic:'' @ gr_code r))"
    by (simp add: orphans region rows example_region_def)
  from synthesis_anchors_localities [OF keys joined targets codes]
  show "list_all (\<lambda>l. found_region
                      (region_overture_ids
                         (create_synthetic_regions unmapped_db (example_cache [''ZZ''])))
                      (overture_to_parent
                         (create_synthetic_regions unmapped_db (example_cache [''ZZ''])))
                      (gl_parent_overture_id l))
       (geo_localities (create_synthetic_regions unmapped_db (example_cache [''ZZ''])))"
    by (simp only: list_all_iff)
  have step: "geo_localities
                (fst (synth_group (example_cache [''ZZ'']) tyid srcid (ascii ''ZZ'', [Suc 0])
                        (?d, created, n)))
      = map (\<lambda>l. if gl_id l \<in> set [Suc 0]
                  then l\<lparr>gl_parent_overture_id := Some (ascii ''synthetic:ZZ-GEN'')\<rparr> else l)
          (geo_localities unmapped_db)" for tyid srcid created n
    by (simp add: synth_group_def region cache Let_def fr(2) split: option.splits prod.splits)
  have "geo_localities (create_synthetic_regions unmapped_db (example_cache [''ZZ'']))
      = map (\<lambda>l. if gl_id l \<in> set [Suc 0]
                  then l\<lparr>gl_parent_overture_id := Some (ascii ''synthetic:ZZ-GEN'')\<rparr> else l)
          (geo_localities unmapped_db)"
    unfolding create_synthetic_regions_unfold Let_def groups
    by (simp add: step)
  then show "map gl_parent_overture_id
     (geo_localities (create_synthetic_regions unmapped_db (example_cache [''ZZ''])))
     = [Some (ascii ''synthetic:ZZ-GEN''), Some (ascii ''R1''), Some (ascii ''L2'')]"
    by (simp add: rows example_locality_def)
qed

end
